(* ===== verification/Prelude.thy ===== *)
theory Prelude
  imports Main "HOL-Library.Char_ord" "HOL-Library.List_Lexorder"
begin

text \<open>
  Shared vocabulary of the development of \<^verbatim>\<open>src/script.js\<close>: the
  collections of simplification rules the component theories fill, the result
  type of a JavaScript event handler (an uncaught exception keeps the state
  changes made before the throw, as in a browser), and generic lemmas on the
  lists and option values the DOM model is built from.
\<close>

named_theorems js_simps "evaluation rules for the ECMAScript built-ins of the model"
named_theorems dom_simps "evaluation rules for the DOM operations of the model"

subsection \<open>Errors and handler results\<close>

text \<open>
  The exceptions the script can raise: a \<open>TypeError\<close> from reading a property
  of \<open>undefined\<close> or \<open>null\<close> (its argument is the property read), and the
  \<open>HierarchyRequestError\<close> \<open>DOMException\<close> that \<open>appendChild\<close> throws when
  the node to insert is the new parent or one of its ancestors.
\<close>

datatype js_error = TypeError string | HierarchyRequestError

text \<open>
  A handler returns \<open>Inr s\<close> when it runs to completion and
  \<open>Inl (e, s)\<close> when it throws \<open>e\<close>, where \<open>s\<close> holds the effects
  performed before the throw: the browser reports the exception and keeps them.
\<close>

type_synonym 's js_result = "(js_error \<times> 's) + 's"

definition js_throw :: "js_error \<Rightarrow> 's \<Rightarrow> 's js_result" where
  "js_throw e s = Inl (e, s)"

fun js_state :: "'s js_result \<Rightarrow> 's" where
  "js_state (Inl (e, s)) = s"
| "js_state (Inr s) = s"

definition js_then :: "'s js_result \<Rightarrow> ('s \<Rightarrow> 's js_result) \<Rightarrow> 's js_result" where
  "js_then r f = (case r of Inl es \<Rightarrow> Inl es | Inr s \<Rightarrow> f s)"

text \<open>Sequencing of pure computations that may throw (no state).\<close>

definition sbind :: "'e + 'a \<Rightarrow> ('a \<Rightarrow> 'e + 'b) \<Rightarrow> 'e + 'b" where
  "sbind r f = (case r of Inl e \<Rightarrow> Inl e | Inr a \<Rightarrow> f a)"

text \<open>
  JavaScript array indexing: \<open>xs[k]\<close> is \<open>undefined\<close> out of range, which
  the model writes as \<open>None\<close>.
\<close>

definition nth_opt :: "'a list \<Rightarrow> nat \<Rightarrow> 'a option" where
  "nth_opt xs k = (if k < length xs then Some (xs ! k) else None)"

lemma js_then_Inr [simp]: "js_then (Inr s) f = f s"
  by (simp add: js_then_def)

lemma js_then_Inl [simp]: "js_then (Inl es) f = Inl es"
  by (simp add: js_then_def)

lemma js_throw_state [simp]: "js_state (js_throw e s) = s"
  by (simp add: js_throw_def)

lemma js_throw_not_Inr [simp]: "js_throw e s \<noteq> Inr s'"
  by (simp add: js_throw_def)

lemma sbind_Inr [simp]: "sbind (Inr a) f = f a"
  by (simp add: sbind_def)

lemma sbind_Inl [simp]: "sbind (Inl e) f = Inl e"
  by (simp add: sbind_def)

lemma js_then_eq_Inr:
  "js_then r f = Inr s' \<longleftrightarrow> (\<exists>s. r = Inr s \<and> f s = Inr s')"
  by (cases r) (auto simp: js_then_def)

text \<open>Lists.\<close>

lemma nth_opt_Cons_0 [simp]: "nth_opt (x # xs) 0 = Some x"
  by (simp add: nth_opt_def)

lemma nth_opt_Cons_Suc [simp]: "nth_opt (x # xs) (Suc k) = nth_opt xs k"
  by (simp add: nth_opt_def)

lemma nth_opt_Nil [simp]: "nth_opt [] k = None"
  by (simp add: nth_opt_def)

lemma nth_opt_numeral [simp]:
  "nth_opt (x # xs) (numeral n) = nth_opt xs (pred_numeral n)"
  by (simp add: numeral_eq_Suc)

lemma nth_opt_None_iff: "nth_opt xs k = None \<longleftrightarrow> length xs \<le> k"
  by (simp add: nth_opt_def)

lemma nth_opt_Some_iff: "nth_opt xs k = Some x \<longleftrightarrow> k < length xs \<and> xs ! k = x"
  by (auto simp: nth_opt_def)

lemma nth_opt_append_left [simp]:
  "k < length xs \<Longrightarrow> nth_opt (xs @ ys) k = nth_opt xs k"
  by (simp add: nth_opt_def nth_append)

text \<open>A list updated at an index: every element is the old one or the new one.\<close>

lemma set_list_update_subset: "set (xs[i := x]) \<subseteq> insert x (set xs)"
  by (induction xs arbitrary: i) (auto split: nat.splits)

lemma length_filter_update_same:
  "i < length xs \<Longrightarrow> P (xs ! i) = P x \<Longrightarrow>
   length (filter P (xs[i := x])) = length (filter P xs)"
proof (induction xs arbitrary: i)
  case Nil
  then show ?case by simp
next
  case (Cons y ys)
  then show ?case by (cases i) auto
qed

lemma list_all_list_update: "list_all P xs \<Longrightarrow> P x \<Longrightarrow> list_all P (xs[i := x])"
  using set_list_update_subset[of xs i x] by (auto simp: list_all_iff)

lemma map_eq_five:
  "map f xs = [a, b, c, d, e] \<Longrightarrow>
   \<exists>x0 x1 x2 x3 x4. xs = [x0, x1, x2, x3, x4] \<and> f x0 = a \<and> f x1 = b \<and> f x2 = c \<and> f x3 = d \<and> f x4 = e"
  by (auto simp: map_eq_Cons_conv)


lemma nth_opt_update_other: "k \<noteq> i \<Longrightarrow> nth_opt (xs[i := x]) k = nth_opt xs k"
  by (simp add: nth_opt_def)

end
