(* ===== verification/Js_Builtins.thy ===== *)
theory Js_Builtins
  imports Prelude
begin

text \<open>
  The ECMAScript built-ins the script relies on, modelled from the language
  standard: the class \<open>\d\<close> and the character class \<open>[-+=]\<close> of regular
  expressions, \<open>parseInt\<close> with no radix (lines 85 and 242--244), the
  DOMTokenList operations \<open>classList.add\<close>, \<open>remove\<close> and \<open>contains\<close>,
  and the regular expression literal of line 76 with the backtracking
  semantics of \<open>RegExp.prototype.exec\<close>, which \<open>String.prototype.match\<close>
  calls for a regular expression without the \<open>g\<close> flag.
\<close>

subsection \<open>Characters\<close>

definition js_digit :: "char \<Rightarrow> bool" where
  "js_digit c \<longleftrightarrow> c \<in> set ''0123456789''"

definition js_op_char :: "char \<Rightarrow> bool" where
  "js_op_char c \<longleftrightarrow> c \<in> set ''-+=''"

text \<open>White space skipped by \<open>parseInt\<close>: the members of WhiteSpace and
  LineTerminator that a character of the model (one byte) can hold, the
  ASCII ones and the no-break space U+00A0.\<close>

definition js_space :: "char \<Rightarrow> bool" where
  "js_space c \<longleftrightarrow> (of_char c :: nat) \<in> {9, 10, 11, 12, 13, 32, 160}"

text \<open>The value of a character as a digit of radix up to 36.\<close>

definition digit_value :: "char \<Rightarrow> nat option" where
  "digit_value c =
     (let n = (of_char c :: nat) in
      if 48 \<le> n \<and> n \<le> 57 then Some (n - 48)
      else if 97 \<le> n \<and> n \<le> 122 then Some (n - 87)
      else if 65 \<le> n \<and> n \<le> 90 then Some (n - 55)
      else None)"

definition radix_digit :: "nat \<Rightarrow> char \<Rightarrow> bool" where
  "radix_digit r c \<longleftrightarrow> (case digit_value c of Some d \<Rightarrow> d < r | None \<Rightarrow> False)"

definition digits_value :: "nat \<Rightarrow> char list \<Rightarrow> nat" where
  "digits_value r ds = foldl (\<lambda>acc c. acc * r + the (digit_value c)) 0 ds"

subsection \<open>parseInt\<close>

text \<open>
  \<open>parseInt(string)\<close> (ECMAScript 19.2.5): skip leading white space, read an
  optional sign, with no radix strip a \<open>0x\<close>/\<open>0X\<close> prefix and read radix 16,
  else radix 10; take the longest prefix of digits of the radix; \<open>NaN\<close>
  (here \<open>None\<close>) when that prefix is empty. The result is a Number; it is
  modelled as an exact \<open>int\<close> (exact for runs of up to 15 decimal digits,
  all the script ever parses), and \<open>-0\<close> is not told apart from \<open>0\<close>.
\<close>

definition parseInt :: "string \<Rightarrow> int option" where
  "parseInt str =
     (let s = dropWhile js_space str;
          (sign, s) = (case s of
              c # r \<Rightarrow> (if c = CHR ''-'' then (-1 :: int, r)
                        else if c = CHR ''+'' then (1, r) else (1, s))
            | [] \<Rightarrow> (1, []));
          (r, s) = (if take 2 s = ''0x'' \<or> take 2 s = ''0X'' then (16, drop 2 s) else (10, s));
          z = takeWhile (radix_digit r) s
      in if z = [] then None else Some (sign * int (digits_value r z)))"

subsection \<open>classList\<close>

definition class_add :: "string \<Rightarrow> string list \<Rightarrow> string list" where
  "class_add c cs = (if c \<in> set cs then cs else cs @ [c])"

definition class_remove :: "string \<Rightarrow> string list \<Rightarrow> string list" where
  "class_remove c cs = removeAll c cs"

subsection \<open>The regular expression of line 76\<close>

text \<open>
  \<^verbatim>\<open>/(\d+)([-+=])(\d+)([-+=])(\d+)/\<close>, matched by backtracking: a greedy
  \<open>\d+\<close> tries its longest run first and gives back one digit at a time when
  the rest of the pattern fails; \<open>exec\<close> tries the start positions from left
  to right and returns the captures of the first match. The matcher is written
  in continuation-passing style, one combinator per construct.
\<close>

type_synonym match_parts = "string \<times> string \<times> string \<times> string \<times> string"

fun first_some :: "nat list \<Rightarrow> (nat \<Rightarrow> 'a option) \<Rightarrow> 'a option" where
  "first_some [] f = None"
| "first_some (i # is) f = (case f i of Some r \<Rightarrow> Some r | None \<Rightarrow> first_some is f)"

definition re_digits :: "(string \<Rightarrow> string \<Rightarrow> 'a option) \<Rightarrow> string \<Rightarrow> 'a option" where
  "re_digits k s =
     first_some (rev [1..<Suc (length (takeWhile js_digit s))]) (\<lambda>i. k (take i s) (drop i s))"

definition re_opclass :: "(string \<Rightarrow> string \<Rightarrow> 'a option) \<Rightarrow> string \<Rightarrow> 'a option" where
  "re_opclass k s = (case s of c # r \<Rightarrow> if js_op_char c then k [c] r else None | [] \<Rightarrow> None)"

definition puzzle_re_at :: "string \<Rightarrow> match_parts option" where
  "puzzle_re_at s =
     re_digits (\<lambda>d1 r1. re_opclass (\<lambda>o1 r2. re_digits (\<lambda>d2 r3.
       re_opclass (\<lambda>o2 r4. re_digits (\<lambda>d3 r5. Some (d1, o1, d2, o2, d3)) r4) r3) r2) r1) s"

fun puzzle_re_exec :: "string \<Rightarrow> match_parts option" where
  "puzzle_re_exec [] = puzzle_re_at []"
| "puzzle_re_exec (c # cs) =
     (case puzzle_re_at (c # cs) of Some m \<Rightarrow> Some m | None \<Rightarrow> puzzle_re_exec cs)"

text \<open>
  The reference reading of the pattern without backtracking: each \<open>\d+\<close> takes
  the whole run of digits, each class one operator character.
\<close>

definition greedy_digits :: "string \<Rightarrow> (string \<times> string) option" where
  "greedy_digits s =
     (if takeWhile js_digit s = [] then None else Some (takeWhile js_digit s, dropWhile js_digit s))"

definition greedy_op :: "string \<Rightarrow> (string \<times> string) option" where
  "greedy_op s = (case s of c # r \<Rightarrow> if js_op_char c then Some ([c], r) else None | [] \<Rightarrow> None)"

definition puzzle_greedy :: "string \<Rightarrow> match_parts option" where
  "puzzle_greedy s =
     (case greedy_digits s of None \<Rightarrow> None | Some (d1, r1) \<Rightarrow>
      case greedy_op r1 of None \<Rightarrow> None | Some (o1, r2) \<Rightarrow>
      case greedy_digits r2 of None \<Rightarrow> None | Some (d2, r3) \<Rightarrow>
      case greedy_op r3 of None \<Rightarrow> None | Some (o2, r4) \<Rightarrow>
      case greedy_digits r4 of None \<Rightarrow> None | Some (d3, r5) \<Rightarrow> Some (d1, o1, d2, o2, d3))"

text \<open>Every match of the pattern captures digits, an operator character,
  digits, an operator character and digits.\<close>

definition match_shape :: "match_parts \<Rightarrow> bool" where
  "match_shape m \<longleftrightarrow> (case m of (a, o1, b, o2, c) \<Rightarrow>
     a \<noteq> [] \<and> list_all js_digit a \<and> b \<noteq> [] \<and> list_all js_digit b \<and> c \<noteq> [] \<and> list_all js_digit c \<and>
     (\<exists>x. o1 = [x] \<and> js_op_char x) \<and> (\<exists>y. o2 = [y] \<and> js_op_char y))"

subsection \<open>Lemmas\<close>

lemma set_class_add [simp]: "set (class_add c cs) = insert c (set cs)"
  by (auto simp: class_add_def)

lemma set_class_remove [simp]: "set (class_remove c cs) = set cs - {c}"
  by (simp add: class_remove_def)

lemmas builtin_defs [js_simps] = js_digit_def js_op_char_def js_space_def digit_value_def
  radix_digit_def digits_value_def

paragraph \<open>Backtracking of a greedy \<open>\d+\<close>.\<close>

lemma first_some_all_None: "(\<And>i. i \<in> set is \<Longrightarrow> f i = None) \<Longrightarrow> first_some is f = None"
  by (induction "is") auto

lemma re_digits_empty:
  "takeWhile js_digit s = [] \<Longrightarrow> re_digits k s = None"
  by (simp add: re_digits_def)

lemma take_drop_digit_run:
  assumes "length (takeWhile js_digit s) = Suc n"
  shows "take (Suc n) s = takeWhile js_digit s" and "drop (Suc n) s = dropWhile js_digit s"
  using assms by (metis takeWhile_eq_take, metis dropWhile_eq_drop)

lemma re_digits_longest:
  assumes "takeWhile js_digit s \<noteq> []"
    and "k (takeWhile js_digit s) (dropWhile js_digit s) = Some r"
  shows "re_digits k s = Some r"
proof -
  obtain n where n: "length (takeWhile js_digit s) = Suc n"
    using assms(1) by (cases "length (takeWhile js_digit s)") auto
  have "rev [1..<Suc (Suc n)] = Suc n # rev [1..<Suc n]" by simp
  with n assms(2) show ?thesis
    by (simp only: re_digits_def take_drop_digit_run[OF n] first_some.simps option.case)
qed

lemma drop_digit_prefix:
  assumes "i < length (takeWhile js_digit s)"
  shows "\<exists>c r. drop i s = c # r \<and> js_digit c"
proof -
  have i: "i < length s" using assms length_takeWhile_le[of js_digit s] by linarith
  have "js_digit (s ! i)" using assms by (metis nth_mem set_takeWhileD takeWhile_nth)
  with i show ?thesis by (metis Cons_nth_drop_Suc)
qed

lemma re_digits_stuck:
  assumes "takeWhile js_digit s \<noteq> []"
    and stuck: "\<And>d c r. js_digit c \<Longrightarrow> k d (c # r) = None"
  shows "re_digits k s = k (takeWhile js_digit s) (dropWhile js_digit s)"
proof -
  obtain n where n: "length (takeWhile js_digit s) = Suc n"
    using assms(1) by (cases "length (takeWhile js_digit s)") auto
  have rest: "first_some (rev [1..<Suc n]) (\<lambda>i. k (take i s) (drop i s)) = None"
  proof (rule first_some_all_None)
    fix i assume "i \<in> set (rev [1..<Suc n])"
    then have "i < length (takeWhile js_digit s)" using n by auto
    then obtain c r where "drop i s = c # r" "js_digit c" using drop_digit_prefix by blast
    then show "k (take i s) (drop i s) = None" using stuck by simp
  qed
  have "rev [1..<Suc (Suc n)] = Suc n # rev [1..<Suc n]" by simp
  with n rest show ?thesis
    by (simp only: re_digits_def take_drop_digit_run[OF n] first_some.simps split: option.split) auto
qed

lemma js_digit_not_op: "js_digit c \<Longrightarrow> \<not> js_op_char c"
  by (auto simp: js_digit_def js_op_char_def)

lemma re_opclass_stuck: "js_digit c \<Longrightarrow> re_opclass k (c # r) = None"
  by (simp add: re_opclass_def js_digit_not_op)

lemma re_digits_greedy_stuck:
  "(\<And>d c r. js_digit c \<Longrightarrow> k d (c # r) = None) \<Longrightarrow>
   re_digits k s = (case greedy_digits s of None \<Rightarrow> None | Some (d, r) \<Rightarrow> k d r)"
  by (simp add: greedy_digits_def re_digits_empty re_digits_stuck)

lemma re_digits_then_op:
  "re_digits (\<lambda>d. re_opclass (K d)) s =
   (case greedy_digits s of None \<Rightarrow> None | Some (d, r) \<Rightarrow> re_opclass (K d) r)"
  by (rule re_digits_greedy_stuck) (simp add: re_opclass_stuck)

lemma re_digits_greedy_last:
  "re_digits (\<lambda>d r. Some (f d)) s =
   (case greedy_digits s of None \<Rightarrow> None | Some (d, r) \<Rightarrow> Some (f d))"
  by (simp add: greedy_digits_def re_digits_empty re_digits_longest)

lemma re_opclass_greedy:
  "re_opclass k s = (case greedy_op s of None \<Rightarrow> None | Some (oc, r) \<Rightarrow> k oc r)"
  by (simp add: re_opclass_def greedy_op_def split: list.split)

lemma digit_run_split:
  assumes "list_all js_digit a" "\<not> js_digit x"
  shows "takeWhile js_digit (a @ x # r) = a" "dropWhile js_digit (a @ x # r) = x # r"
  using assms by (simp_all add: takeWhile_append2 dropWhile_append2 list_all_iff)

lemma digit_run_end:
  assumes "list_all js_digit c" "t = [] \<or> \<not> js_digit (hd t)"
  shows "takeWhile js_digit (c @ t) = c"
  using assms by (cases t) (simp_all add: takeWhile_append2 list_all_iff)

lemma first_some_map: "first_some (map g is) f = first_some is (\<lambda>i. f (g i))"
  by (induction "is") (simp_all split: option.split)

text \<open>C15: backtracking never changes the captures of the puzzle pattern.\<close>

theorem puzzle_re_at_greedy: "puzzle_re_at s = puzzle_greedy s"
  unfolding puzzle_re_at_def puzzle_greedy_def
  by (simp add: re_digits_then_op re_digits_greedy_last re_opclass_greedy
      split: option.split prod.split)

paragraph \<open>parseInt on decimal digits.\<close>

lemma radix_digit_10_iff: "radix_digit 10 c \<longleftrightarrow> js_digit c"
  by (cases c) (auto simp: radix_digit_def digit_value_def js_digit_def Let_def)

lemma js_digit_value:
  "js_digit c \<Longrightarrow> digit_value c = Some (of_char c - 48) \<and> 48 \<le> (of_char c :: nat) \<and> (of_char c :: nat) - 48 < 10"
  by (auto simp: js_digit_def digit_value_def Let_def)

lemma foldl_digits_acc:
  "foldl (\<lambda>acc c. acc * r + the (digit_value c)) a cs =
     a * r ^ length cs + foldl (\<lambda>acc c. acc * r + the (digit_value c)) 0 cs"
proof (induction cs arbitrary: a)
  case Nil
  then show ?case by simp
next
  case (Cons c cs)
  show ?case
    using Cons.IH[of "a * r + the (digit_value c)"] Cons.IH[of "the (digit_value c)"]
    by (simp add: algebra_simps)
qed

lemma digits_value_Cons:
  "digits_value r (c # cs) = the (digit_value c) * r ^ length cs + digits_value r cs"
  using foldl_digits_acc[of r "the (digit_value c)" cs] by (simp add: digits_value_def)

lemma digits_value_bound: "list_all js_digit cs \<Longrightarrow> digits_value 10 cs < 10 ^ length cs"
proof (induction cs)
  case Nil
  then show ?case by (simp add: digits_value_def)
next
  case (Cons c cs)
  have "the (digit_value c) \<le> 9" using js_digit_value[of c] Cons.prems by simp
  then have "the (digit_value c) * 10 ^ length cs \<le> 9 * 10 ^ length cs" by (rule mult_le_mono1)
  moreover have "digits_value 10 cs < 10 ^ length cs" using Cons by simp
  ultimately have "the (digit_value c) * 10 ^ length cs + digits_value 10 cs < 10 * 10 ^ length cs"
    by linarith
  then show ?case by (simp add: digits_value_Cons)
qed

text \<open>On digit strings of one length, the order of JavaScript's string
  comparison (code units, left to right) is the order of the numbers; any
  common suffix is ignored.\<close>

lemma digit_strings_less:
  assumes "length xs = length ys" "list_all js_digit xs" "list_all js_digit ys"
  shows "xs @ zs < ys @ zs \<longleftrightarrow> digits_value 10 xs < digits_value 10 ys"
  using assms
proof (induction xs ys rule: list_induct2)
  case Nil
  then show ?case by (simp add: digits_value_def)
next
  case (Cons x xs y ys)
  let ?n = "length xs"
  obtain dx dy where dx: "digit_value x = Some dx" "dx = of_char x - 48" "48 \<le> (of_char x :: nat)" "dx < 10"
    and dy: "digit_value y = Some dy" "dy = of_char y - 48" "48 \<le> (of_char y :: nat)" "dy < 10"
    using js_digit_value[of x] js_digit_value[of y] Cons.prems by auto
  have xy: "x < y \<longleftrightarrow> dx < dy" using dx dy by (auto simp: less_char_def)
  have bx: "digits_value 10 xs < 10 ^ ?n" using digits_value_bound[of xs] Cons.prems by simp
  have byy: "digits_value 10 ys < 10 ^ ?n"
    using digits_value_bound[of ys] Cons.prems Cons.hyps(1) by simp
  have step: "a * 10 ^ ?n + u < b * 10 ^ ?n + v" if "a < b" "u < 10 ^ ?n" for a b u v :: nat
  proof -
    have "a * 10 ^ ?n + u < (a + 1) * 10 ^ ?n" using that(2) by simp
    also have "\<dots> \<le> b * 10 ^ ?n" using that(1) by (intro mult_le_mono1) simp
    finally show ?thesis by simp
  qed
  have xy': "y < x \<longleftrightarrow> dy < dx" using dx dy by (auto simp: less_char_def)
  have ih: "xs @ zs < ys @ zs \<longleftrightarrow> digits_value 10 xs < digits_value 10 ys"
    using Cons by simp
  have v: "digits_value 10 (x # xs) = dx * 10 ^ ?n + digits_value 10 xs"
    "digits_value 10 (y # ys) = dy * 10 ^ ?n + digits_value 10 ys"
    using dx(1) dy(1) Cons.hyps(1) by (simp_all add: digits_value_Cons)
  consider (lt) "x < y" | (eq) "x = y" | (gt) "y < x" using less_linear by blast
  then show ?case
  proof cases
    case lt
    then show ?thesis using xy step[of dx dy "digits_value 10 xs" "digits_value 10 ys"] bx v by simp
  next
    case eq
    then show ?thesis using ih v dx dy by simp
  next
    case gt
    then have "\<not> x < y" "x \<noteq> y" by auto
    then show ?thesis using xy' gt step[of dy dx "digits_value 10 ys" "digits_value 10 xs"] byy v by simp
  qed
qed

paragraph \<open>The shape of a match.\<close>

lemma first_some_Some: "first_some is f = Some r \<Longrightarrow> \<exists>i \<in> set is. f i = Some r"
  by (induction "is") (auto split: option.splits)

lemma re_digits_Some:
  assumes "re_digits k s = Some r"
  shows "\<exists>d rest. s = d @ rest \<and> d \<noteq> [] \<and> list_all js_digit d \<and> k d rest = Some r"
proof -
  obtain i where i: "1 \<le> i" "i \<le> length (takeWhile js_digit s)" "k (take i s) (drop i s) = Some r"
    using first_some_Some[OF assms[unfolded re_digits_def]] by auto
  have "take i s = take i (takeWhile js_digit s)"
    using i(2) by (metis takeWhile_eq_take take_take min.absorb1)
  then have "list_all js_digit (take i s)"
    by (metis list_all_iff set_take_subset set_takeWhileD subsetD)
  moreover have "take i s \<noteq> []" using i(1,2) by (cases s) auto
  ultimately show ?thesis using i(3) by (intro exI[of _ "take i s"] exI[of _ "drop i s"]) simp
qed

lemma re_opclass_Some:
  "re_opclass k s = Some r \<Longrightarrow> \<exists>c rest. s = c # rest \<and> js_op_char c \<and> k [c] rest = Some r"
  by (auto simp: re_opclass_def split: list.splits if_splits)

lemma puzzle_re_at_shape: "puzzle_re_at s = Some m \<Longrightarrow> match_shape m"
  unfolding puzzle_re_at_def
  by (drule re_digits_Some, elim exE conjE, drule re_opclass_Some, elim exE conjE,
      drule re_digits_Some, elim exE conjE, drule re_opclass_Some, elim exE conjE,
      drule re_digits_Some, elim exE conjE) (auto simp: match_shape_def)

lemma puzzle_re_exec_shape: "puzzle_re_exec s = Some m \<Longrightarrow> match_shape m"
  by (induction s rule: puzzle_re_exec.induct)
     (auto simp: puzzle_re_at_shape split: option.splits)

lemma parseInt_op: "js_op_char c \<Longrightarrow> parseInt [c] = None"
  by (auto simp: js_op_char_def parseInt_def js_space_def radix_digit_def digit_value_def Let_def)

text \<open>\<open>parseInt\<close> reads a non-empty run of decimal digits as its decimal value.\<close>

lemma parseInt_digits:
  assumes "ds \<noteq> []" and "list_all js_digit ds"
  shows "parseInt ds = Some (int (digits_value 10 ds))"
proof -
  obtain c r where ds: "ds = c # r" using assms(1) by (cases ds) auto
  have dig: "js_digit c" using assms(2) ds by simp
  have nsp: "\<not> js_space c" using dig by (auto simp: js_digit_def js_space_def)
  have nsign: "c \<noteq> CHR ''-''" "c \<noteq> CHR ''+''" using dig by (auto simp: js_digit_def)
  have nhex: "take (Suc 0) r \<noteq> ''x'' \<and> take (Suc 0) r \<noteq> ''X''"
    using assms(2) ds by (cases r) (auto simp: js_digit_def)
  have tw: "takeWhile (radix_digit 10) ds = ds"
    using assms(2) by (simp add: radix_digit_10_iff list_all_iff)
  show ?thesis
    using ds nsp nsign nhex tw by (simp add: parseInt_def Let_def)
qed

text \<open>C24: the pattern of line 76 is unanchored and accepts any operator of
  \<open>[-+=]\<close> in either place and runs of several digits: it matches any
  string that starts with digits, operator, digits, operator, digits, whatever
  follows, and captures the longest runs. The spec admits only single digits,
  \<open>+\<close> or \<open>-\<close> first and \<open>=\<close> second, and the whole string.\<close>

theorem puzzle_re_exec_accepts:
  assumes a: "a \<noteq> []" "list_all js_digit a" and b: "b \<noteq> []" "list_all js_digit b"
    and c: "c \<noteq> []" "list_all js_digit c" and ops: "js_op_char o1" "js_op_char o2"
    and t: "t = [] \<or> \<not> js_digit (hd t)"
  shows "puzzle_re_exec (a @ o1 # b @ o2 # c @ t) = Some (a, [o1], b, [o2], c)"
proof -
  have nd: "\<not> js_digit o1" "\<not> js_digit o2" using ops js_digit_not_op by blast+
  have "puzzle_re_at (a @ o1 # b @ o2 # c @ t) = Some (a, [o1], b, [o2], c)"
    unfolding puzzle_re_at_def
    using a b c ops nd digit_run_split[OF a(2) nd(1)] digit_run_split[OF b(2) nd(2)] digit_run_end[OF c(2) t]
    by (simp add: re_digits_then_op re_digits_greedy_last re_opclass_greedy greedy_digits_def greedy_op_def)
  moreover obtain d ds where "a = d # ds" using a(1) by (cases a) auto
  ultimately show ?thesis by simp
qed

theorem puzzle_re_exec_accepts_witness:
  "''12'' \<noteq> [] \<and> list_all js_digit ''12'' \<and> ''3'' \<noteq> [] \<and> list_all js_digit ''3'' \<and>
   ''45'' \<noteq> [] \<and> list_all js_digit ''45'' \<and> js_op_char (CHR ''='') \<and> js_op_char (CHR ''+'') \<and>
   (''x'' = [] \<or> \<not> js_digit (hd ''x'')) \<and>
   puzzle_re_exec ''12=3+45x'' = Some (''12'', ''='', ''3'', ''+'', ''45'')"
proof -
  have h: "''12'' \<noteq> []" "list_all js_digit ''12''" "''3'' \<noteq> []" "list_all js_digit ''3''"
    "''45'' \<noteq> []" "list_all js_digit ''45''" "js_op_char (CHR ''='')" "js_op_char (CHR ''+'')"
    "''x'' = [] \<or> \<not> js_digit (hd ''x'')"
    by (simp_all add: js_digit_def js_op_char_def)
  show ?thesis using h puzzle_re_exec_accepts[OF h] by simp
qed

text \<open>\<open>equation.match(re)\<close> without the \<open>g\<close> flag returns the
  match at the leftmost start position where the pattern matches: the scan of
  \<open>puzzle_re_exec\<close> is the search over the positions \<open>0 .. length s\<close> in
  order.\<close>

lemma puzzle_re_exec_leftmost:
  "puzzle_re_exec s = first_some [0..<Suc (length s)] (\<lambda>i. puzzle_re_at (drop i s))"
proof (induction s)
  case Nil
  show ?case by (simp split: option.split)
next
  case (Cons c cs)
  have eq: "[0..<Suc (length (c # cs))] = 0 # map Suc [0..<Suc (length cs)]"
    by (simp del: upt_Suc add: upt_conv_Cons map_Suc_upt)
  show ?case
    unfolding eq using Cons.IH by (simp del: upt_Suc add: first_some_map split: option.split)
qed

end
