(* ===== verification/Symbols.thy ===== *)
theory Symbols
  imports Js_Builtins
begin

text \<open>
  The Symbol Library of the spec: the object \<open>stickTemplates\<close>
  (\<^verbatim>\<open>src/script.js\<close> lines 20--36), which maps each symbol to the list of
  style descriptions of its sticks, and the orientation test of
  \<open>renderPuzzle\<close> (line 93). Only \<open>'1'\<close> has a stick; every other entry
  is the empty array. The spec's construction-time invariant (no two symbols
  with the same set of stick slots) is stated as the abstract predicate
  \<open>library_unique\<close>, and the table is shown to violate it. The string
  comparison of the orientation test is compared with the numeric comparison
  of the percentages it stands for (\<open>css_percent\<close>).
\<close>

subsection \<open>Definitions\<close>

text \<open>One entry of a template: the CSS strings the code copies into the stick's
  style, and the declared \<open>type\<close>, which the code never reads.\<close>

record stick_data =
  sd_type :: string
  sd_top :: string
  sd_left :: string
  sd_height :: string
  sd_width :: string

text \<open>The object literal, in the order of its keys.\<close>

definition stickTemplates :: "(string \<times> stick_data list) list" where
  "stickTemplates =
     [(''1'', [\<lparr>sd_type = ''vertical'', sd_top = ''25%'', sd_left = ''45%'',
               sd_height = ''50%'', sd_width = ''10%''\<rparr>]),
      (''2'', []), (''3'', []), (''4'', []), (''5'', []), (''6'', []), (''7'', []),
      (''8'', []), (''9'', []), (''0'', []), (''+'', []), (''-'', []), (''='', [])]"

text \<open>\<open>stickTemplates[char]\<close> (line 88): \<open>undefined\<close> for a key not in the object.\<close>

definition template_for :: "string \<Rightarrow> stick_data list option" where
  "template_for ch = map_of stickTemplates ch"

text \<open>
  Line 93: \<open>stickData.height > stickData.width ? 'vertical' : 'horizontal'\<close>.
  Both operands are strings such as \<open>'50%'\<close>, so \<open>>\<close> compares them
  lexicographically by code unit (\<open><\<close> on \<open>string\<close> of
  HOL-Library.List_Lexorder, which agrees with JavaScript on ASCII).
\<close>

definition crude_orientation :: "stick_data \<Rightarrow> string" where
  "crude_orientation sd = (if sd_width sd < sd_height sd then ''vertical'' else ''horizontal'')"

subsection \<open>Abstract specification\<close>

text \<open>
  The spec's StickDescriptor identifies a stick by its orientation and its slot
  position; a symbol is the set of its descriptors. The library is unambiguous
  when its keys are distinct and no two symbols have the same set.
\<close>

type_synonym slot = "string \<times> string \<times> string \<times> string \<times> string"

definition sd_slot :: "stick_data \<Rightarrow> slot" where
  "sd_slot sd = (crude_orientation sd, sd_top sd, sd_left sd, sd_width sd, sd_height sd)"

definition symbol_slots :: "stick_data list \<Rightarrow> slot set" where
  "symbol_slots sds = set (map sd_slot sds)"

definition library_unique :: "(string \<times> stick_data list) list \<Rightarrow> bool" where
  "library_unique tbl \<longleftrightarrow>
     distinct (map fst tbl) \<and> distinct (map (\<lambda>(c, sds). symbol_slots sds) tbl)"

text \<open>What a percentage of the templates means: the number written by a
  non-empty run of decimal digits followed by \<open>%\<close>.\<close>

definition css_percent :: "string \<Rightarrow> nat option" where
  "css_percent s =
     (if s \<noteq> [] \<and> last s = CHR ''%'' \<and> butlast s \<noteq> [] \<and> list_all js_digit (butlast s)
      then Some (digits_value 10 (butlast s)) else None)"

subsection \<open>Lemmas\<close>

lemma css_percent_Some:
  assumes "css_percent s = Some p"
  shows "\<exists>ds. s = ds @ ''%'' \<and> list_all js_digit ds \<and> p = digits_value 10 ds"
proof -
  have "s \<noteq> []" "last s = CHR ''%''" "list_all js_digit (butlast s)" "p = digits_value 10 (butlast s)"
    using assms by (simp_all add: css_percent_def split: if_splits)
  then show ?thesis using append_butlast_last_id[of s] by (intro exI[of _ "butlast s"]) simp
qed

lemma template_for_1 [simp]:
  "template_for ''1'' = Some [\<lparr>sd_type = ''vertical'', sd_top = ''25%'', sd_left = ''45%'',
                               sd_height = ''50%'', sd_width = ''10%''\<rparr>]"
  by (simp add: template_for_def stickTemplates_def)

text \<open>The table violates the spec's uniqueness invariant: the twelve
  symbols other than \<open>'1'\<close> all have the empty set of sticks.\<close>

lemma stickTemplates_ambiguous:
  "\<not> library_unique stickTemplates \<and> template_for ''2'' = Some [] \<and> template_for ''+'' = Some []"
  by (simp add: library_unique_def stickTemplates_def template_for_def symbol_slots_def)

text \<open>The orientation test compares CSS strings, not lengths: a stick forty
  percent high and five percent wide is classed \<open>horizontal\<close>, while the
  one stick the table defines is classed as its declared type.\<close>

theorem crude_orientation_lexicographic:
  "crude_orientation \<lparr>sd_type = ty, sd_top = t, sd_left = l, sd_height = ''40%'', sd_width = ''5%''\<rparr>
     = ''horizontal''
   \<and> list_all (\<lambda>(c, sds). list_all (\<lambda>sd. crude_orientation sd = sd_type sd) sds) stickTemplates"
  by (simp add: crude_orientation_def stickTemplates_def)

text \<open>C17: the string comparison of line 93 is the comparison of lengths it
  stands for exactly on percentages written with the same number of digits:
  there \<open>crude_orientation\<close> classes a stick \<open>vertical\<close> if and only if
  its height is the larger percentage. The lemma above shows a pair of
  different widths where the two disagree.\<close>

theorem crude_orientation_same_digits:
  assumes h: "css_percent (sd_height sd) = Some ph" and w: "css_percent (sd_width sd) = Some pw"
    and len: "length (sd_height sd) = length (sd_width sd)"
  shows "crude_orientation sd = (if pw < ph then ''vertical'' else ''horizontal'')"
proof -
  obtain hs where hs: "sd_height sd = hs @ ''%''" "list_all js_digit hs" "ph = digits_value 10 hs"
    using css_percent_Some[OF h] by blast
  obtain ws where ws: "sd_width sd = ws @ ''%''" "list_all js_digit ws" "pw = digits_value 10 ws"
    using css_percent_Some[OF w] by blast
  have "length ws = length hs" using len hs(1) ws(1) by simp
  then have "sd_width sd < sd_height sd \<longleftrightarrow> pw < ph"
    using digit_strings_less[of ws hs "''%''"] hs ws by simp
  then show ?thesis by (simp add: crude_orientation_def)
qed

theorem crude_orientation_same_digits_witness:
  "css_percent ''50%'' = Some 50 \<and> css_percent ''10%'' = Some 10 \<and> length ''50%'' = length ''10%'' \<and>
   crude_orientation \<lparr>sd_type = ''vertical'', sd_top = ''25%'', sd_left = ''45%'',
      sd_height = ''50%'', sd_width = ''10%''\<rparr> = ''vertical''"
proof -
  let ?sd = "\<lparr>sd_type = ''vertical'', sd_top = ''25%'', sd_left = ''45%'',
      sd_height = ''50%'', sd_width = ''10%''\<rparr>"
  have h: "css_percent (sd_height ?sd) = Some 50" "css_percent (sd_width ?sd) = Some 10"
    "length (sd_height ?sd) = length (sd_width ?sd)"
    by (simp_all add: css_percent_def js_digit_def digits_value_def digit_value_def)
  show ?thesis using h crude_orientation_same_digits[OF h] by simp
qed

end
