(* ===== verification/Levels.thy ===== *)
theory Levels
  imports Js_Builtins
begin

text \<open>
  The level catalog \<open>levels\<close> (\<^verbatim>\<open>src/script.js\<close> lines 39--59) and
  the spec's arithmetic reading of an equation (\<open>isArithmeticallyTrue\<close>,
  spec 4.3), used as the abstract specification of the code's checks.
\<close>

subsection \<open>Definitions\<close>

text \<open>
  A level object. \<open>solution\<close> is the arrow function of the object, with
  JavaScript's strict equality on numbers and strings; the script never calls
  it.
\<close>

record level =
  puzzle :: string
  movesAllowed :: int
  solution :: "int \<Rightarrow> string \<Rightarrow> int \<Rightarrow> int \<Rightarrow> bool"
  solutionString :: string

definition levels :: "level list" where
  "levels =
     [\<lparr>puzzle = ''1-1=9'', movesAllowed = 2,
       solution = (\<lambda>num1 op num2 res. num1 = 1 \<and> op = ''+'' \<and> num2 = 1 \<and> res = 2),
       solutionString = ''1+1=2''\<rparr>,
      \<lparr>puzzle = ''3-4=1'', movesAllowed = 1,
       solution = (\<lambda>num1 op num2 res. num1 = 5 \<and> op = ''-'' \<and> num2 = 4 \<and> res = 1),
       solutionString = ''5-4=1''\<rparr>,
      \<lparr>puzzle = ''0-3=6'', movesAllowed = 1,
       solution = (\<lambda>num1 op num2 res. num1 = 9 \<and> op = ''-'' \<and> num2 = 3 \<and> res = 6),
       solutionString = ''9-3=6''\<rparr>]"

text \<open>\<open>levels[i]\<close>: \<open>undefined\<close> (\<open>None\<close>) past the end of the array.\<close>

definition level_at :: "nat \<Rightarrow> level option" where
  "level_at i = nth_opt levels i"

subsection \<open>Abstract specification of an equation\<close>

text \<open>
  The spec's supported shape: single-digit operands and result, an operator in
  \<open>{+, -}\<close> and \<open>=\<close> in fourth place; and its arithmetic truth.
\<close>

definition single_digit_equation :: "match_parts option \<Rightarrow> bool" where
  "single_digit_equation m =
     (case m of None \<Rightarrow> False
      | Some (a, oc, b, e, c) \<Rightarrow>
          length a = 1 \<and> length b = 1 \<and> length c = 1 \<and> oc \<in> {''+'', ''-''} \<and> e = ''='')"

definition arith_true :: "int \<Rightarrow> string \<Rightarrow> int \<Rightarrow> int \<Rightarrow> bool" where
  "arith_true a oc b c \<longleftrightarrow> (oc = ''+'' \<and> a + b = c) \<or> (oc = ''-'' \<and> a - b = c)"

text \<open>The values of a matched equation, read with \<open>parseInt\<close>.\<close>

definition equation_values :: "match_parts option \<Rightarrow> (int \<times> string \<times> int \<times> int) option" where
  "equation_values m =
     (case m of None \<Rightarrow> None
      | Some (a, oc, b, e, c) \<Rightarrow>
          (case (parseInt a, parseInt b, parseInt c) of
             (Some x, Some y, Some z) \<Rightarrow> Some (x, oc, y, z)
           | _ \<Rightarrow> None))"

definition level_consistent :: "level \<Rightarrow> bool" where
  "level_consistent lv =
     (case equation_values (puzzle_re_exec (solutionString lv)) of
        None \<Rightarrow> False
      | Some (a, oc, b, c) \<Rightarrow> solution lv a oc b c \<and> arith_true a oc b c)"

definition puzzle_false :: "level \<Rightarrow> bool" where
  "puzzle_false lv =
     (case equation_values (puzzle_re_exec (puzzle lv)) of
        None \<Rightarrow> False
      | Some (a, oc, b, c) \<Rightarrow> \<not> arith_true a oc b c)"

subsection \<open>Lemmas\<close>

lemma length_levels [simp]: "length levels = 3"
  by (simp add: levels_def)

lemma level_at_0 [simp]: "level_at 0 = Some (levels ! 0)"
  by (simp add: level_at_def nth_opt_def)

lemma level_at_None_iff: "level_at i = None \<longleftrightarrow> 3 \<le> i"
  by (simp add: level_at_def nth_opt_None_iff)

lemma level_at_Some_iff: "level_at i = Some lv \<longleftrightarrow> i < 3 \<and> levels ! i = lv"
  by (simp add: level_at_def nth_opt_Some_iff)

lemma levels_0 [simp]:
  "puzzle (levels ! 0) = ''1-1=9''" "movesAllowed (levels ! 0) = 2"
  "solutionString (levels ! 0) = ''1+1=2''"
  by (simp_all add: levels_def)

lemma puzzle_re_exec_level_0 [simp]:
  "puzzle_re_exec ''1-1=9'' = Some (''1'', ''-'', ''1'', ''='', ''9'')"
  by (simp add: puzzle_re_at_def re_digits_def re_opclass_def js_digit_def js_op_char_def)

lemma level_parses: "level_at i = Some lv \<Longrightarrow> \<exists>m. puzzle_re_exec (puzzle lv) = Some m"
  by (auto simp: level_at_Some_iff levels_def less_Suc_eq numeral_eq_Suc puzzle_re_at_def
      re_digits_def re_opclass_def js_digit_def js_op_char_def)

lemma level_cases:
  "level_at i = Some lv \<Longrightarrow> lv = levels ! 0 \<or> lv = levels ! 1 \<or> lv = levels ! 2"
  by (auto simp: level_at_Some_iff less_Suc_eq numeral_eq_Suc)

lemma levels_parts:
  "puzzle_re_exec (puzzle (levels ! 0)) = Some (''1'', ''-'', ''1'', ''='', ''9'')"
  "puzzle_re_exec (puzzle (levels ! 1)) = Some (''3'', ''-'', ''4'', ''='', ''1'')"
  "puzzle_re_exec (puzzle (levels ! 2)) = Some (''0'', ''-'', ''3'', ''='', ''6'')"
  by (simp_all add: levels_def puzzle_re_at_def re_digits_def re_opclass_def js_digit_def js_op_char_def)

text \<open>Every puzzle of the catalog has the supported single-digit shape.\<close>

lemma levels_single_digit:
  "list_all (\<lambda>lv. single_digit_equation (puzzle_re_exec (puzzle lv))) levels"
  by (simp add: levels_def single_digit_equation_def puzzle_re_at_def re_digits_def
      re_opclass_def js_digit_def js_op_char_def)

text \<open>Each level's \<open>solutionString\<close> satisfies its \<open>solution\<close> and is a
  true equation, each initial puzzle is false, and every budget is
  non-negative.\<close>

lemma levels_consistent:
  "list_all (\<lambda>lv. level_consistent lv \<and> puzzle_false lv \<and> 0 \<le> movesAllowed lv) levels"
  by (simp add: levels_def level_consistent_def puzzle_false_def equation_values_def
      arith_true_def puzzle_re_at_def re_digits_def re_opclass_def parseInt_def js_simps Let_def)

end
