(* ===== verification/Dom.thy ===== *)
theory Dom
  imports Symbols Levels
begin

text \<open>
  The page state of \<^verbatim>\<open>src/script.js\<close> and \<open>renderPuzzle\<close> (lines 62--106),
  the Equation Model's rendering. The closure variables of the
  \<open>DOMContentLoaded\<close> handler (\<open>currentLevel\<close>, \<open>movesMadeThisLevel\<close>,
  \<open>selectedStick\<close>, lines 10--12) and the parts of the document the script
  reads or writes are the fields of one record \<open>page\<close>. Elements are
  identified by number: a stick by its index in \<open>sticks\<close>, the list of every
  stick element ever created; a container by the number it got when created.
  The tree is kept as the parent of each stick; the order of sticks inside a
  container is not kept, as no code reads it.
\<close>

subsection \<open>Definitions\<close>

datatype elem_ref = ContainerRef nat | StickRef nat

text \<open>A \<open>div.matchstick\<close>: its class list, the four style properties set
  from the template, its two \<open>data-\<close> attributes, and its parent element.\<close>

record stick_el =
  st_classes :: "string list"
  st_top :: string
  st_left :: string
  st_width :: string
  st_height :: string
  st_originalContainer :: string
  st_originalStickIndex :: nat
  st_parent :: "elem_ref option"

text \<open>A \<open>div.digit-container\<close> or \<open>div.operator-container\<close> with its
  \<open>data-char\<close>.\<close>

record container_el =
  c_id :: nat
  c_class :: string
  c_char :: string

text \<open>
  \<open>levelDisplay\<close> and \<open>movesLeftDisplay\<close> hold the numbers the script
  assigns to \<open>textContent\<close> (the conversion to a string is not modelled);
  \<open>console_log\<close> the lines written to the console; \<open>pending_timers\<close>
  the callbacks of line 205 scheduled and not yet run.
\<close>

record page =
  currentLevel :: nat
  movesMadeThisLevel :: int
  selectedStick :: "nat option"
  puzzleArea :: "container_el list"
  sticks :: "stick_el list"
  next_container :: nat
  levelDisplay :: int
  movesLeftDisplay :: int
  feedbackMessage :: string
  console_log :: "string list"
  pending_timers :: nat

text \<open>The page when the script starts (lines 10--12; the HTML page is not part
  of the repository, and every part of it the script reads is written by
  \<open>renderPuzzle\<close> first).\<close>

definition page0 :: page where
  "page0 = \<lparr>currentLevel = 0, movesMadeThisLevel = 0, selectedStick = None,
     puzzleArea = [], sticks = [], next_container = 0, levelDisplay = 0,
     movesLeftDisplay = 0, feedbackMessage = [], console_log = [], pending_timers = 0\<rparr>"

text \<open>Lines 91--101: a stick element made from one template entry.\<close>

definition new_stick :: "string \<Rightarrow> nat \<Rightarrow> nat \<Rightarrow> stick_data \<Rightarrow> stick_el" where
  "new_stick ch cid idx sd =
     \<lparr>st_classes = class_add (crude_orientation sd) (class_add ''matchstick'' []),
      st_top = sd_top sd, st_left = sd_left sd, st_width = sd_width sd,
      st_height = sd_height sd, st_originalContainer = ch, st_originalStickIndex = idx,
      st_parent = Some (ContainerRef cid)\<rparr>"

text \<open>Line 85: \<open>isNaN(parseInt(char)) ? 'operator-container' : 'digit-container'\<close>.\<close>

definition container_class :: "string \<Rightarrow> string" where
  "container_class ch = (if parseInt ch = None then ''operator-container'' else ''digit-container'')"

text \<open>Lines 84--104, the body of the \<open>forEach\<close> over the five parts.\<close>

definition render_container :: "string \<Rightarrow> page \<Rightarrow> page" where
  "render_container ch s =
     (let cid = next_container s;
          sds = (case template_for ch of None \<Rightarrow> [] | Some sds \<Rightarrow> sds)
      in s\<lparr>next_container := Suc cid,
           sticks := sticks s @ map (\<lambda>(i, sd). new_stick ch cid i sd) (enumerate 0 sds),
           puzzleArea := puzzleArea s @ [\<lparr>c_id = cid, c_class = container_class ch, c_char = ch\<rparr>]\<rparr>)"

text \<open>Line 83: the five captures, in order.\<close>

fun parts_list :: "match_parts \<Rightarrow> string list" where
  "parts_list (p1, p2, p3, p4, p5) = [p1, p2, p3, p4, p5]"

text \<open>
  Lines 62--106. Reading \<open>level.movesAllowed\<close> of \<open>undefined\<close> throws after
  the area is cleared and the level number written; a puzzle the pattern does
  not match is logged and leaves the area empty.
\<close>

definition renderPuzzle :: "nat \<Rightarrow> page \<Rightarrow> page js_result" where
  "renderPuzzle levelIndex s =
     (let s1 = s\<lparr>puzzleArea := [], levelDisplay := int levelIndex + 1\<rparr> in
      case level_at levelIndex of
        None \<Rightarrow> js_throw (TypeError ''movesAllowed'') s1
      | Some lv \<Rightarrow>
          (let s2 = s1\<lparr>movesLeftDisplay := movesAllowed lv, movesMadeThisLevel := 0,
                       feedbackMessage := [], selectedStick := None\<rparr>
           in case puzzle_re_exec (puzzle lv) of
                None \<Rightarrow> Inr (s2\<lparr>console_log := console_log s2 @ [''Could not parse puzzle: '' @ puzzle lv]\<rparr>)
              | Some parts \<Rightarrow> Inr (fold render_container (parts_list parts) s2)))"

subsection \<open>Queries on the page\<close>

definition container_ids :: "page \<Rightarrow> nat list" where
  "container_ids s = map c_id (puzzleArea s)"

text \<open>A stick is on the board when its parent is a container of the puzzle
  area; only such a stick can be clicked.\<close>

definition on_board :: "page \<Rightarrow> nat \<Rightarrow> bool" where
  "on_board s i \<longleftrightarrow> i < length (sticks s) \<and>
     (case st_parent (sticks s ! i) of
        Some (ContainerRef c) \<Rightarrow> c \<in> set (container_ids s)
      | _ \<Rightarrow> False)"

definition board_sticks :: "page \<Rightarrow> nat list" where
  "board_sticks s = filter (on_board s) [0..<length (sticks s)]"

text \<open>What a stick looks like, without its identity and parent.\<close>

type_synonym stick_shape = "string list \<times> string \<times> string \<times> string \<times> string \<times> string \<times> nat"

definition stick_shape :: "stick_el \<Rightarrow> stick_shape" where
  "stick_shape e = (st_classes e, st_top e, st_left e, st_width e, st_height e,
                    st_originalContainer e, st_originalStickIndex e)"

text \<open>The board as the player sees it: each container's class and character
  with the sticks it holds.\<close>

definition layout :: "page \<Rightarrow> (string \<times> string \<times> stick_shape list) list" where
  "layout s =
     map (\<lambda>c. (c_class c, c_char c,
               map stick_shape (filter (\<lambda>e. st_parent e = Some (ContainerRef (c_id c))) (sticks s))))
         (puzzleArea s)"

text \<open>The layout \<open>renderPuzzle\<close> builds for a list of characters.\<close>

definition render_layout :: "string list \<Rightarrow> (string \<times> string \<times> stick_shape list) list" where
  "render_layout chs =
     map (\<lambda>ch. (container_class ch, ch,
                map (\<lambda>(i, sd). stick_shape (new_stick ch 0 i sd))
                    (enumerate 0 (case template_for ch of None \<Rightarrow> [] | Some sds \<Rightarrow> sds))))
         chs"

text \<open>
  Well-formedness of the element store: container numbers are distinct and
  below the counter, every stick's parent is an element that was created.
\<close>

definition parent_ok :: "page \<Rightarrow> elem_ref option \<Rightarrow> bool" where
  "parent_ok s p =
     (case p of None \<Rightarrow> True
      | Some (ContainerRef c) \<Rightarrow> c < next_container s
      | Some (StickRef j) \<Rightarrow> j < length (sticks s))"

definition dom_wf :: "page \<Rightarrow> bool" where
  "dom_wf s \<longleftrightarrow>
     distinct (container_ids s) \<and> list_all (\<lambda>c. c < next_container s) (container_ids s) \<and>
     list_all (\<lambda>e. parent_ok s (st_parent e)) (sticks s) \<and>
     (case selectedStick s of None \<Rightarrow> True | Some i \<Rightarrow> i < length (sticks s))"

subsection \<open>Lemmas\<close>

lemma parent_ok_mono:
  "parent_ok s p \<Longrightarrow> next_container s \<le> next_container s' \<Longrightarrow> length (sticks s) \<le> length (sticks s') \<Longrightarrow>
   parent_ok s' p"
  by (auto simp: parent_ok_def split: option.splits elem_ref.splits)

lemma render_container_frame [simp]:
  "currentLevel (render_container ch s) = currentLevel s"
  "movesMadeThisLevel (render_container ch s) = movesMadeThisLevel s"
  "selectedStick (render_container ch s) = selectedStick s"
  "levelDisplay (render_container ch s) = levelDisplay s"
  "movesLeftDisplay (render_container ch s) = movesLeftDisplay s"
  "feedbackMessage (render_container ch s) = feedbackMessage s"
  "console_log (render_container ch s) = console_log s"
  "pending_timers (render_container ch s) = pending_timers s"
  by (simp_all add: render_container_def Let_def)

lemma fold_render_container_frame [simp]:
  "currentLevel (fold render_container chs s) = currentLevel s"
  "movesMadeThisLevel (fold render_container chs s) = movesMadeThisLevel s"
  "selectedStick (fold render_container chs s) = selectedStick s"
  "levelDisplay (fold render_container chs s) = levelDisplay s"
  "movesLeftDisplay (fold render_container chs s) = movesLeftDisplay s"
  "feedbackMessage (fold render_container chs s) = feedbackMessage s"
  "console_log (fold render_container chs s) = console_log s"
  "pending_timers (fold render_container chs s) = pending_timers s"
  by (induction chs arbitrary: s) simp_all

lemma new_stick_parent [simp]: "st_parent (new_stick ch cid i sd) = Some (ContainerRef cid)"
  by (simp add: new_stick_def)

lemma stick_shape_new_stick: "stick_shape (new_stick ch cid i sd) = stick_shape (new_stick ch 0 i sd)"
  by (simp add: new_stick_def stick_shape_def)

lemma render_container_sticks:
  "sticks (render_container ch s) = sticks s @
     map (\<lambda>(i, sd). new_stick ch (next_container s) i sd)
       (enumerate 0 (case template_for ch of None \<Rightarrow> [] | Some sds \<Rightarrow> sds))"
  "next_container (render_container ch s) = Suc (next_container s)"
  "puzzleArea (render_container ch s) =
     puzzleArea s @ [\<lparr>c_id = next_container s, c_class = container_class ch, c_char = ch\<rparr>]"
  by (simp_all add: render_container_def Let_def)

lemma render_container_wf:
  assumes wf: "dom_wf s"
  shows "dom_wf (render_container ch s)"
proof -
  let ?s' = "render_container ch s"
  have old: "list_all (\<lambda>e. parent_ok ?s' (st_parent e)) (sticks s)"
    using wf parent_ok_mono[of s _ ?s'] by (auto simp: dom_wf_def list_all_iff render_container_sticks)
  have new: "list_all (\<lambda>e. parent_ok ?s' (st_parent e)) (sticks ?s')"
    using old by (auto simp: list_all_iff render_container_sticks parent_ok_def)
  have ids: "distinct (container_ids ?s') \<and> list_all (\<lambda>c. c < next_container ?s') (container_ids ?s')"
    using wf by (auto simp: dom_wf_def container_ids_def list_all_iff render_container_sticks)
  have sel: "case selectedStick ?s' of None \<Rightarrow> True | Some i \<Rightarrow> i < length (sticks ?s')"
    using wf by (auto simp: dom_wf_def render_container_sticks split: option.splits)
  show ?thesis using new ids sel by (simp add: dom_wf_def)
qed

lemma filter_new_sticks_other:
  "c \<noteq> cid \<Longrightarrow>
   filter (\<lambda>e. st_parent e = Some (ContainerRef c)) (map (\<lambda>(i, sd). new_stick ch cid i sd) xs) = []"
  by (induction xs) auto

lemma filter_new_sticks_same:
  "filter (\<lambda>e. st_parent e = Some (ContainerRef cid)) (map (\<lambda>(i, sd). new_stick ch cid i sd) xs) =
   map (\<lambda>(i, sd). new_stick ch cid i sd) xs"
  by (induction xs) auto

lemma filter_old_sticks_fresh:
  assumes "list_all (\<lambda>e. parent_ok s (st_parent e)) es"
  shows "filter (\<lambda>e. st_parent e = Some (ContainerRef (next_container s))) es = []"
  using assms by (induction es) (auto simp: parent_ok_def)

lemma layout_render_container:
  assumes "dom_wf s"
  shows "layout (render_container ch s) = layout s @ render_layout [ch]"
proof -
  let ?cid = "next_container s"
  have old: "c_id c \<noteq> ?cid" if "c \<in> set (puzzleArea s)" for c
    using assms that by (auto simp: dom_wf_def container_ids_def list_all_iff)
  have fresh: "filter (\<lambda>e. st_parent e = Some (ContainerRef ?cid)) (sticks s) = []"
    using assms by (simp add: dom_wf_def filter_old_sticks_fresh)
  have "map (\<lambda>c. (c_class c, c_char c, map stick_shape
          (filter (\<lambda>e. st_parent e = Some (ContainerRef (c_id c))) (sticks (render_container ch s)))))
          (puzzleArea s) = layout s"
    unfolding layout_def using old
    by (auto simp: render_container_sticks filter_new_sticks_other)
  moreover have "map stick_shape (filter (\<lambda>e. st_parent e = Some (ContainerRef ?cid))
          (sticks (render_container ch s))) =
        map (\<lambda>(i, sd). stick_shape (new_stick ch 0 i sd))
          (enumerate 0 (case template_for ch of None \<Rightarrow> [] | Some sds \<Rightarrow> sds))"
    using fresh by (simp add: render_container_sticks filter_new_sticks_same case_prod_beta
        stick_shape_new_stick[of ch ?cid])
  ultimately show ?thesis
    by (simp add: layout_def render_layout_def render_container_sticks)
qed

lemma fold_render_container:
  "dom_wf s \<Longrightarrow>
   dom_wf (fold render_container chs s) \<and>
   layout (fold render_container chs s) = layout s @ render_layout chs"
proof (induction chs arbitrary: s)
  case Nil
  then show ?case by (simp add: render_layout_def)
next
  case (Cons ch chs)
  from Cons.prems have "dom_wf (render_container ch s)" by (rule render_container_wf)
  with Cons.IH[of "render_container ch s"] Cons.prems show ?case
    by (simp add: layout_render_container render_layout_def)
qed

lemma page0_wf: "dom_wf page0"
  by (simp add: dom_wf_def page0_def container_ids_def)

lemma renderPuzzle_level:
  assumes "level_at i = Some lv" and "puzzle_re_exec (puzzle lv) = Some m"
  shows "renderPuzzle i s =
    Inr (fold render_container (parts_list m)
      (s\<lparr>puzzleArea := [], levelDisplay := int i + 1, movesLeftDisplay := movesAllowed lv,
         movesMadeThisLevel := 0, feedbackMessage := [], selectedStick := None\<rparr>))"
  using assms by (simp add: renderPuzzle_def)

text \<open>Rendering a level of the catalog succeeds from any well-formed page, keeps
  the store well formed, zeroes the counter and the selection, and builds a
  layout that depends on the level only.\<close>

lemma renderPuzzle_ok:
  assumes wf: "dom_wf s" and lv: "level_at i = Some lv"
  obtains s' m where "renderPuzzle i s = Inr s'" "puzzle_re_exec (puzzle lv) = Some m"
    "dom_wf s'" "layout s' = render_layout (parts_list m)"
    "movesMadeThisLevel s' = 0" "selectedStick s' = None" "currentLevel s' = currentLevel s"
    "pending_timers s' = pending_timers s" "movesLeftDisplay s' = movesAllowed lv"
proof -
  obtain m where m: "puzzle_re_exec (puzzle lv) = Some m"
    using level_parses[OF lv] by blast
  let ?s2 = "s\<lparr>puzzleArea := [], levelDisplay := int i + 1, movesLeftDisplay := movesAllowed lv,
         movesMadeThisLevel := 0, feedbackMessage := [], selectedStick := None\<rparr>"
  have wf2: "dom_wf ?s2" and lay2: "layout ?s2 = []"
    using wf by (auto simp: dom_wf_def container_ids_def layout_def list_all_iff parent_ok_def
        split: option.splits elem_ref.splits)
  show ?thesis
    using that[OF renderPuzzle_level[OF lv m] m] fold_render_container[OF wf2, of "parts_list m"] lay2
    by simp
qed

lemma parent_ok_cong:
  "next_container s = next_container t \<Longrightarrow> length (sticks s) = length (sticks t) \<Longrightarrow>
   parent_ok s = parent_ok t"
  by (auto simp: parent_ok_def fun_eq_iff split: option.splits elem_ref.splits)

lemma parent_ok_wf:
  "dom_wf s \<Longrightarrow> i < length (sticks s) \<Longrightarrow> parent_ok s (st_parent (sticks s ! i))"
  by (simp add: dom_wf_def list_all_iff)

lemma sticks_fold_render_container:
  "set (sticks (fold render_container chs s)) \<subseteq>
     set (sticks s) \<union> {e. \<exists>ch cid i sd. e = new_stick ch cid i sd}"
proof (induction chs arbitrary: s)
  case Nil
  then show ?case by simp
next
  case (Cons ch chs)
  have "set (sticks (render_container ch s)) \<subseteq> set (sticks s) \<union> {e. \<exists>ch cid i sd. e = new_stick ch cid i sd}"
    by (auto simp: render_container_sticks)
  with Cons.IH[of "render_container ch s"] show ?case by auto
qed

lemma map_c_char_layout: "map (\<lambda>(a, b, c). b) (layout s) = map c_char (puzzleArea s)"
  by (simp add: layout_def)

lemma map_char_render_layout: "map (\<lambda>(a, b, c). b) (render_layout chs) = chs"
  by (induction chs) (simp_all add: render_layout_def)

subsection \<open>Properties\<close>

text \<open>C26: rendering a level index past the catalog clears the puzzle area and
  writes the level number before reading \<open>level.movesAllowed\<close> of
  \<open>undefined\<close>, which throws: the page is left with an empty board.\<close>

theorem renderPuzzle_missing_level:
  assumes "length levels \<le> i"
  shows "renderPuzzle i s = Inl (TypeError ''movesAllowed'', s\<lparr>puzzleArea := [], levelDisplay := int i + 1\<rparr>)"
proof -
  have "level_at i = None" using assms by (simp add: level_at_None_iff)
  then show ?thesis by (simp add: renderPuzzle_def js_throw_def)
qed

theorem renderPuzzle_missing_level_witness:
  "length levels \<le> 3 \<and>
   renderPuzzle 3 page0 = Inl (TypeError ''movesAllowed'', page0\<lparr>puzzleArea := [], levelDisplay := 4\<rparr>)"
  using renderPuzzle_missing_level[of 3 page0] by simp

text \<open>C16: the test of line 85, \<open>isNaN(parseInt(char))\<close>, classes the
  captures of any string the pattern of line 76 accepts by their position:
  the three runs of digits get \<open>digit-container\<close> and the two operator
  places \<open>operator-container\<close>, whichever of \<open>-\<close>, \<open>+\<close> and \<open>=\<close> they
  hold and however many digits a number has.\<close>

theorem container_class_by_position:
  assumes "puzzle_re_exec p = Some m"
  shows "map container_class (parts_list m) =
    [''digit-container'', ''operator-container'', ''digit-container'', ''operator-container'', ''digit-container'']"
proof -
  obtain a o1 b o2 c where m: "m = (a, o1, b, o2, c)" by (cases m)
  have "match_shape m" by (rule puzzle_re_exec_shape[OF assms])
  then obtain x y where sh: "a \<noteq> []" "list_all js_digit a" "b \<noteq> []" "list_all js_digit b"
    "c \<noteq> []" "list_all js_digit c" "o1 = [x]" "js_op_char x" "o2 = [y]" "js_op_char y"
    by (auto simp: match_shape_def m)
  then show ?thesis
    by (simp add: m container_class_def parseInt_digits parseInt_op)
qed

theorem container_class_by_position_witness:
  "puzzle_re_exec ''12=3+45x'' = Some (''12'', ''='', ''3'', ''+'', ''45'') \<and>
   map container_class [''12'', ''='', ''3'', ''+'', ''45''] =
    [''digit-container'', ''operator-container'', ''digit-container'', ''operator-container'', ''digit-container'']"
proof -
  have h: "puzzle_re_exec ''12=3+45x'' = Some (''12'', ''='', ''3'', ''+'', ''45'')"
    by (simp add: puzzle_re_at_def re_digits_def re_opclass_def js_digit_def js_op_char_def)
  show ?thesis using h container_class_by_position[OF h] by simp
qed

end
