(* ===== verification/Interaction.thy ===== *)
theory Interaction
  imports Dom
begin

text \<open>
  The click handler \<open>handleStickClick\<close> (\<^verbatim>\<open>src/script.js\<close> lines 109--158)
  with \<open>updatePuzzleState\<close> (lines 161--167): the code's Move Ledger. The
  listener is registered on stick elements only (line 100) and a stick has no
  child elements, so \<open>event.target\<close> is always a stick; the handler takes
  its number. A first click selects the stick if the budget allows it; a second
  click places the selected stick, counting a move when its container changes.
  Each placement goes through \<open>append_to\<close>, which is \<open>appendChild\<close> with
  the DOM's hierarchy check.
\<close>

subsection \<open>Definitions\<close>

definition stick_classes :: "page \<Rightarrow> nat \<Rightarrow> string list" where
  "stick_classes s i = (if i < length (sticks s) then st_classes (sticks s ! i) else [])"

text \<open>\<open>element.parentElement\<close>; \<open>None\<close> is \<open>null\<close>.\<close>

definition parent_of :: "page \<Rightarrow> nat \<Rightarrow> elem_ref option" where
  "parent_of s i = (if i < length (sticks s) then st_parent (sticks s ! i) else None)"

definition map_stick :: "nat \<Rightarrow> (stick_el \<Rightarrow> stick_el) \<Rightarrow> page \<Rightarrow> page" where
  "map_stick i f s = s\<lparr>sticks := (sticks s)[i := f (sticks s ! i)]\<rparr>"

text \<open>\<open>p.appendChild(stick)\<close>: the stick leaves its parent and becomes a child
  of \<open>p\<close>.\<close>

definition append_child :: "elem_ref \<Rightarrow> nat \<Rightarrow> page \<Rightarrow> page" where
  "append_child p i s = map_stick i (\<lambda>e. e\<lparr>st_parent := Some p\<rparr>) s"

text \<open>
  The stick ancestors of a stick: the chain of \<open>parentElement\<close> links through
  sticks, up to the first parent that is not a stick. The walk spends one unit
  of fuel per link and is \<open>None\<close> when the fuel runs out, which happens only on
  a cyclic store that no sequence of \<open>appendChild\<close> calls can build (Hierarchy).
\<close>

fun stick_ancestors :: "nat \<Rightarrow> page \<Rightarrow> nat \<Rightarrow> nat list option" where
  "stick_ancestors 0 s i = None"
| "stick_ancestors (Suc n) s i =
     (case parent_of s i of
        Some (StickRef j) \<Rightarrow> map_option (Cons j) (stick_ancestors n s j)
      | _ \<Rightarrow> Some [])"

text \<open>
  \<open>p.appendChild(stick)\<close> with the DOM's pre-insertion validity check: the
  insertion throws a \<open>HierarchyRequestError\<close>, changing nothing, when the stick
  is \<open>p\<close> or an ancestor of \<open>p\<close>. A container is never below a stick, so
  only a stick parent is checked. The walk gets one unit of fuel per stick and
  one more, which is enough on every acyclic store (Hierarchy).
\<close>

definition append_to :: "elem_ref \<Rightarrow> nat \<Rightarrow> page \<Rightarrow> page js_result" where
  "append_to p i s =
     (case p of
        ContainerRef c \<Rightarrow> Inr (append_child p i s)
      | StickRef k \<Rightarrow>
          (case stick_ancestors (Suc (length (sticks s))) s k of
             Some anc \<Rightarrow> if i \<in> set (k # anc) then js_throw HierarchyRequestError s
                         else Inr (append_child p i s)
           | None \<Rightarrow> js_throw HierarchyRequestError s))"

definition count_move :: "page \<Rightarrow> page" where
  "count_move s = s\<lparr>movesMadeThisLevel := movesMadeThisLevel s + 1\<rparr>"

text \<open>Lines 113--121: selecting, refused once the budget is spent.\<close>

definition select_stick :: "nat \<Rightarrow> level \<Rightarrow> page \<Rightarrow> page js_result" where
  "select_stick clicked lv s =
     (if movesMadeThisLevel s < movesAllowed lv
      then Inr (map_stick clicked (\<lambda>e. e\<lparr>st_classes := class_add ''selected'' (st_classes e)\<rparr>)
                  (s\<lparr>selectedStick := Some clicked\<rparr>))
      else Inr (s\<lparr>feedbackMessage := ''No more moves allowed for this stick!''\<rparr>))"

text \<open>
  Lines 137--150: placing. The first branch tests the clicked element for a
  container class and appends the selected stick to it; the second appends it
  to the clicked stick's parent, which throws when that parent is \<open>null\<close>.
  Either counts a move when the parent changes, before the append, which may
  throw.
\<close>

definition place_stick :: "nat \<Rightarrow> nat \<Rightarrow> page \<Rightarrow> page js_result" where
  "place_stick sel clicked s =
     (let cls = stick_classes s clicked in
      if ''digit-container'' \<in> set cls \<or> ''operator-container'' \<in> set cls then
        (let s1 = (if parent_of s sel \<noteq> Some (StickRef clicked) then count_move s else s)
         in append_to (StickRef clicked) sel s1)
      else if ''matchstick'' \<in> set cls \<and> clicked \<noteq> sel then
        (let s1 = (if parent_of s sel \<noteq> parent_of s clicked then count_move s else s)
         in case parent_of s clicked of
              None \<Rightarrow> js_throw (TypeError ''appendChild'') s1
            | Some p \<Rightarrow> append_to p sel s1)
      else Inr s)"

text \<open>Lines 161--167: only writes to the console.\<close>

definition updatePuzzleState :: "page \<Rightarrow> page" where
  "updatePuzzleState s =
     s\<lparr>console_log := console_log s @ [''Puzzle state needs to be re-evaluated based on stick positions.'']\<rparr>"

text \<open>Lines 153--156: deselect, show the moves left, re-evaluate.\<close>

definition release_stick :: "nat \<Rightarrow> level option \<Rightarrow> page \<Rightarrow> page js_result" where
  "release_stick sel lvl s =
     (let s1 = map_stick sel (\<lambda>e. e\<lparr>st_classes := class_remove ''selected'' (st_classes e)\<rparr>)
                 (s\<lparr>selectedStick := None\<rparr>)
      in case lvl of
           None \<Rightarrow> js_throw (TypeError ''movesAllowed'') s1
         | Some lv \<Rightarrow>
             Inr (updatePuzzleState (s1\<lparr>movesLeftDisplay := movesAllowed lv - movesMadeThisLevel s1\<rparr>)))"

definition handleStickClick :: "nat \<Rightarrow> page \<Rightarrow> page js_result" where
  "handleStickClick clicked s =
     (let lvl = level_at (currentLevel s) in
      case selectedStick s of
        None \<Rightarrow> (case lvl of None \<Rightarrow> js_throw (TypeError ''movesAllowed'') s
                 | Some lv \<Rightarrow> select_stick clicked lv s)
      | Some sel \<Rightarrow> js_then (place_stick sel clicked s) (release_stick sel lvl))"

text \<open>The parts of the page a stick click never changes.\<close>

abbreviation frame_view :: "page \<Rightarrow> container_el list \<times> nat \<times> nat \<times> nat \<times> nat" where
  "frame_view t \<equiv> (puzzleArea t, currentLevel t, pending_timers t, next_container t, length (sticks t))"

subsection \<open>Lemmas\<close>

lemma map_stick_fields [simp]:
  "currentLevel (map_stick i f s) = currentLevel s"
  "movesMadeThisLevel (map_stick i f s) = movesMadeThisLevel s"
  "selectedStick (map_stick i f s) = selectedStick s"
  "puzzleArea (map_stick i f s) = puzzleArea s"
  "next_container (map_stick i f s) = next_container s"
  "length (sticks (map_stick i f s)) = length (sticks s)"
  "feedbackMessage (map_stick i f s) = feedbackMessage s"
  "pending_timers (map_stick i f s) = pending_timers s"
  "movesLeftDisplay (map_stick i f s) = movesLeftDisplay s"
  by (simp_all add: map_stick_def)

lemma count_move_fields [simp]:
  "movesMadeThisLevel (count_move s) = movesMadeThisLevel s + 1"
  "currentLevel (count_move s) = currentLevel s"
  "selectedStick (count_move s) = selectedStick s"
  "puzzleArea (count_move s) = puzzleArea s"
  "sticks (count_move s) = sticks s"
  "next_container (count_move s) = next_container s"
  "pending_timers (count_move s) = pending_timers s"
  by (simp_all add: count_move_def)

lemma updatePuzzleState_fields [simp]:
  "currentLevel (updatePuzzleState s) = currentLevel s"
  "movesMadeThisLevel (updatePuzzleState s) = movesMadeThisLevel s"
  "selectedStick (updatePuzzleState s) = selectedStick s"
  "puzzleArea (updatePuzzleState s) = puzzleArea s"
  "sticks (updatePuzzleState s) = sticks s"
  "next_container (updatePuzzleState s) = next_container s"
  "pending_timers (updatePuzzleState s) = pending_timers s"
  "movesLeftDisplay (updatePuzzleState s) = movesLeftDisplay s"
  "feedbackMessage (updatePuzzleState s) = feedbackMessage s"
  by (simp_all add: updatePuzzleState_def)

lemmas click_defs [dom_simps] = handleStickClick_def select_stick_def place_stick_def
  release_stick_def append_child_def

lemma sticks_map_stick_nth:
  "j < length (sticks s) \<Longrightarrow>
   sticks (map_stick i f s) ! j = (if i = j then f (sticks s ! j) else sticks s ! j)"
  by (simp add: map_stick_def nth_list_update)

lemma append_to_container [simp]:
  "append_to (ContainerRef c) i s = Inr (append_child (ContainerRef c) i s)"
  by (simp add: append_to_def)

lemma append_to_Inr: "append_to p i s = Inr t \<Longrightarrow> t = append_child p i s"
  by (auto simp: append_to_def js_throw_def split: elem_ref.splits option.splits if_splits)

lemma append_to_Inl: "append_to p i s = Inl es \<Longrightarrow> es = (HierarchyRequestError, s)"
  by (auto simp: append_to_def js_throw_def split: elem_ref.splits option.splits if_splits)

text \<open>The handler never touches the containers or the level: the five
  \<open>data-char\<close> values the check reads stay as they were rendered.\<close>

lemma append_to_view [unfolded prod.inject, simp]: "frame_view (js_state (append_to p i s)) = frame_view s"
  using append_to_Inr[of p i s] append_to_Inl[of p i s]
  by (cases "append_to p i s") (auto simp: append_child_def)

lemma select_stick_view [unfolded prod.inject, simp]: "frame_view (js_state (select_stick i lv s)) = frame_view s"
  by (simp add: select_stick_def)

lemma place_stick_view [unfolded prod.inject, simp]: "frame_view (js_state (place_stick j i s)) = frame_view s"
  by (simp add: place_stick_def Let_def js_throw_def split: option.split)

lemma release_stick_view [unfolded prod.inject, simp]: "frame_view (js_state (release_stick j lvl s)) = frame_view s"
  by (simp add: release_stick_def Let_def js_throw_def split: option.split)

lemma handleStickClick_frame:
  "puzzleArea (js_state (handleStickClick i s)) = puzzleArea s"
  "currentLevel (js_state (handleStickClick i s)) = currentLevel s"
  "pending_timers (js_state (handleStickClick i s)) = pending_timers s"
  "next_container (js_state (handleStickClick i s)) = next_container s"
  "length (sticks (js_state (handleStickClick i s))) = length (sticks s)"
proof -
  have "frame_view (js_state (handleStickClick i s)) = frame_view s"
  proof (cases "selectedStick s")
    case None
    then show ?thesis by (simp add: handleStickClick_def js_throw_def split: option.split)
  next
    case (Some j)
    show ?thesis
    proof (cases "place_stick j i s")
      case (Inl es)
      then show ?thesis
        using Some place_stick_view[of j i s] by (simp add: handleStickClick_def)
    next
      case (Inr t)
      then have "frame_view t = frame_view s" using place_stick_view[of j i s] by simp
      with Inr Some show ?thesis by (simp add: handleStickClick_def)
    qed
  qed
  then show "puzzleArea (js_state (handleStickClick i s)) = puzzleArea s"
    "currentLevel (js_state (handleStickClick i s)) = currentLevel s"
    "pending_timers (js_state (handleStickClick i s)) = pending_timers s"
    "next_container (js_state (handleStickClick i s)) = next_container s"
    "length (sticks (js_state (handleStickClick i s))) = length (sticks s)"
    by simp_all
qed

lemma list_all_map_stick:
  "list_all P (sticks s) \<Longrightarrow> (i < length (sticks s) \<Longrightarrow> P (f (sticks s ! i))) \<Longrightarrow>
   list_all P (sticks (map_stick i f s))"
  by (cases "i < length (sticks s)") (simp_all add: map_stick_def list_all_list_update list_update_beyond)

lemma dom_wf_map_stick:
  assumes "dom_wf s" and "i < length (sticks s) \<Longrightarrow> parent_ok s (st_parent (f (sticks s ! i)))"
  shows "dom_wf (map_stick i f s)"
proof -
  have po: "parent_ok (map_stick i f s) = parent_ok s"
    by (rule parent_ok_cong) simp_all
  have "list_all (\<lambda>e. parent_ok s (st_parent e)) (sticks (map_stick i f s))"
    using assms by (intro list_all_map_stick) (simp_all add: dom_wf_def)
  then show ?thesis
    using assms(1) po by (simp add: dom_wf_def container_ids_def cong: option.case_cong)
qed

lemma on_board_parent:
  "on_board s i \<Longrightarrow> \<exists>c. parent_of s i = Some (ContainerRef c) \<and> c \<in> set (container_ids s)"
  by (auto simp: on_board_def parent_of_def split: option.splits elem_ref.splits)

lemma on_board_length: "on_board s i \<Longrightarrow> i < length (sticks s)"
  by (simp add: on_board_def)


lemma parent_of_simps [simp]:
  "parent_of (count_move s) j = parent_of s j"
  "parent_of (updatePuzzleState s) j = parent_of s j"
  "parent_of (s\<lparr>selectedStick := x\<rparr>) j = parent_of s j"
  "parent_of (s\<lparr>movesLeftDisplay := n\<rparr>) j = parent_of s j"
  by (simp_all add: parent_of_def count_move_def updatePuzzleState_def)

text \<open>C7: with nothing selected and the budget spent, a click only writes the
  refusal message: no stick is selected or moved.\<close>
theorem select_refused_when_budget_spent:
  assumes "selectedStick s = None" and "level_at (currentLevel s) = Some lv"
    and "movesAllowed lv \<le> movesMadeThisLevel s"
  shows "handleStickClick i s = Inr (s\<lparr>feedbackMessage := ''No more moves allowed for this stick!''\<rparr>)"
  using assms by (simp add: handleStickClick_def select_stick_def)

theorem select_refused_when_budget_spent_witness:
  "selectedStick (page0\<lparr>movesMadeThisLevel := 2\<rparr>) = None \<and>
   level_at (currentLevel (page0\<lparr>movesMadeThisLevel := 2\<rparr>)) = Some (levels ! 0) \<and>
   movesAllowed (levels ! 0) \<le> movesMadeThisLevel (page0\<lparr>movesMadeThisLevel := 2\<rparr>) \<and>
   handleStickClick 0 (page0\<lparr>movesMadeThisLevel := 2\<rparr>) =
     Inr (page0\<lparr>movesMadeThisLevel := 2, feedbackMessage := ''No more moves allowed for this stick!''\<rparr>)"
proof -
  have h: "selectedStick (page0\<lparr>movesMadeThisLevel := 2\<rparr>) = None"
    "level_at (currentLevel (page0\<lparr>movesMadeThisLevel := 2\<rparr>)) = Some (levels ! 0)"
    "movesAllowed (levels ! 0) \<le> movesMadeThisLevel (page0\<lparr>movesMadeThisLevel := 2\<rparr>)"
    by (simp_all add: page0_def)
  show ?thesis using h select_refused_when_budget_spent[OF h, of 0] by simp
qed

text \<open>C8: dropping the selected stick on a stick of its own container (or on
  itself) costs no move, deselects it and leaves it in that container.\<close>
theorem place_same_container_free:
  assumes "selectedStick s = Some j" and "parent_of s j = parent_of s i"
    and "parent_of s i = Some (ContainerRef c)"
    and "''digit-container'' \<notin> set (stick_classes s i)"
    and "''operator-container'' \<notin> set (stick_classes s i)"
    and "level_at (currentLevel s) = Some lv"
  shows "\<exists>s'. handleStickClick i s = Inr s' \<and> movesMadeThisLevel s' = movesMadeThisLevel s \<and>
    selectedStick s' = None \<and> parent_of s' j = parent_of s j"
  using assms
  by (auto simp: dom_simps Let_def parent_of_def map_stick_def split: option.split)

text \<open>C9: dropping the selected stick on a stick of another container costs
  exactly one move, moves it there, deselects it and shows the moves left.\<close>
theorem place_other_container_counts:
  assumes "selectedStick s = Some j" and "j \<noteq> i" and "''matchstick'' \<in> set (stick_classes s i)"
    and "''digit-container'' \<notin> set (stick_classes s i)"
    and "''operator-container'' \<notin> set (stick_classes s i)"
    and "parent_of s i = Some (ContainerRef c)" and "parent_of s j \<noteq> Some (ContainerRef c)"
    and "j < length (sticks s)"
    and "level_at (currentLevel s) = Some lv"
  shows "\<exists>s'. handleStickClick i s = Inr s' \<and> movesMadeThisLevel s' = movesMadeThisLevel s + 1 \<and>
    parent_of s' j = Some (ContainerRef c) \<and> selectedStick s' = None \<and>
    movesLeftDisplay s' = movesAllowed lv - (movesMadeThisLevel s + 1)"
  using assms
  by (auto simp: dom_simps Let_def parent_of_def map_stick_def)

end
