(* ===== verification/Checking.thy ===== *)
theory Checking
  imports Dom
begin

text \<open>
  The Stick Pattern Matcher and the evaluation of the Equation Model as the
  code has them: \<open>determineCharFromSticks\<close> (\<^verbatim>\<open>src/script.js\<close> lines
  219--229), \<open>parseVisualEquation\<close> (lines 231--262), the check button's
  listener (lines 170--217) and the callback it schedules with
  \<open>setTimeout\<close> (lines 205--213). The matcher never looks at the sticks: it
  returns the \<open>data-char\<close> the container got when it was rendered.
\<close>

subsection \<open>Definitions\<close>

text \<open>\<open>puzzleArea.children[k]\<close>.\<close>

definition child_at :: "page \<Rightarrow> nat \<Rightarrow> container_el option" where
  "child_at s k = nth_opt (puzzleArea s) k"

text \<open>Lines 219--229. \<open>containerElement.querySelectorAll\<close> throws on
  \<open>undefined\<close>; its result is not used. \<open>dataset.char || '?'\<close>.\<close>

definition determineCharFromSticks :: "container_el option \<Rightarrow> js_error + string" where
  "determineCharFromSticks c =
     (case c of None \<Rightarrow> Inl (TypeError ''querySelectorAll'')
      | Some ce \<Rightarrow> Inr (if c_char ce = [] then ''?'' else c_char ce))"

text \<open>The object \<open>parseVisualEquation\<close> returns: \<open>ve_nums\<close> holds
  \<open>num1, op, num2, res\<close> when the object has them.\<close>

record vis_eq =
  ve_nums :: "(int \<times> string \<times> int \<times> int) option"
  ve_isValid :: bool
  ve_str :: string

text \<open>Lines 245--251.\<close>

definition op_func :: "string \<Rightarrow> (int \<Rightarrow> int \<Rightarrow> int) option" where
  "op_func opStr =
     (if opStr = ''+'' then Some (\<lambda>a b. a + b)
      else if opStr = ''-'' then Some (\<lambda>a b. a - b)
      else None)"

text \<open>Lines 231--262: children 0, 1, 2 and 4; the equals sign's container
  (child 3) is not read (line 239 is commented out).\<close>

definition parseVisualEquation :: "page \<Rightarrow> js_error + vis_eq" where
  "parseVisualEquation s =
     sbind (determineCharFromSticks (child_at s 0)) (\<lambda>num1Str.
     sbind (determineCharFromSticks (child_at s 1)) (\<lambda>opStr.
     sbind (determineCharFromSticks (child_at s 2)) (\<lambda>num2Str.
     sbind (determineCharFromSticks (child_at s 4)) (\<lambda>resStr.
       let str = num1Str @ opStr @ num2Str @ ''='' @ resStr
       in case (parseInt num1Str, parseInt num2Str, parseInt resStr, op_func opStr) of
            (Some num1, Some num2, Some res, Some f) \<Rightarrow>
              Inr \<lparr>ve_nums = Some (num1, opStr, num2, res), ve_isValid = (f num1 num2 = res),
                   ve_str = str\<rparr>
          | _ \<Rightarrow> Inr \<lparr>ve_nums = None, ve_isValid = False, ve_str = str\<rparr>))))"

text \<open>Lines 178--188: the string built from every container; the listener
  computes it and never uses it.\<close>

definition currentEquationString :: "page \<Rightarrow> string" where
  "currentEquationString s =
     concat (map (\<lambda>c. if c_char c = [] then ''?'' else c_char c) (puzzleArea s))"

text \<open>
  Lines 170--217. The success test is the one written for the first level,
  \<open>1 + 1 = 2\<close>, whatever the current level; a success schedules the advance.
\<close>

definition checkClick :: "page \<Rightarrow> page js_result" where
  "checkClick s =
     (case level_at (currentLevel s) of
        None \<Rightarrow> js_throw (TypeError ''movesAllowed'') s
      | Some lv \<Rightarrow>
          if movesAllowed lv < movesMadeThisLevel s
          then Inr (s\<lparr>feedbackMessage := ''Too many moves!''\<rparr>)
          else
            (let currentEquation = currentEquationString s in
             case parseVisualEquation s of
               Inl e \<Rightarrow> js_throw e s
             | Inr eq \<Rightarrow>
                 (let s1 = s\<lparr>console_log := console_log s @ [''Current Visual Equation: '' @ ve_str eq]\<rparr>
                  in if ve_nums eq = Some (1, ''+'', 1, 2) \<and> movesMadeThisLevel s \<le> movesAllowed lv
                     then Inr (s1\<lparr>feedbackMessage := ''Correct! Well done!'',
                                  pending_timers := Suc (pending_timers s1)\<rparr>)
                     else Inr (s1\<lparr>feedbackMessage := ''Not quite right. Try again!''\<rparr>))))"

text \<open>Lines 205--213: the delayed callback, run once per scheduled timer.\<close>

definition advanceLevel :: "page \<Rightarrow> page js_result" where
  "advanceLevel s =
     (let s1 = s\<lparr>pending_timers := pending_timers s - 1, currentLevel := Suc (currentLevel s)\<rparr>
      in if currentLevel s1 < length levels then renderPuzzle (currentLevel s1) s1
         else Inr (s1\<lparr>feedbackMessage := ''You completed all levels!''\<rparr>))"

subsection \<open>Abstract specification\<close>

text \<open>
  Spec 4.3, \<open>deriveCurrent\<close> and \<open>isArithmeticallyTrue\<close>, applied to the five
  characters of the equation slots: well formed when the operator slot holds
  \<open>+\<close> or \<open>-\<close>, the equals slot \<open>=\<close>, and the number slots digits.
\<close>

definition spec_true_equation :: "string list \<Rightarrow> bool" where
  "spec_true_equation chs =
     (case chs of
        [a, oc, b, e, c] \<Rightarrow>
          e = ''='' \<and>
          (case (parseInt a, parseInt b, parseInt c) of
             (Some x, Some y, Some z) \<Rightarrow> arith_true x oc y z
           | _ \<Rightarrow> False)
      | _ \<Rightarrow> False)"

subsection \<open>Lemmas\<close>

lemma determineCharFromSticks_Some [simp]:
  "determineCharFromSticks (Some c) = Inr (if c_char c = [] then ''?'' else c_char c)"
  by (simp add: determineCharFromSticks_def)

lemma determineCharFromSticks_None [simp]:
  "determineCharFromSticks None = Inl (TypeError ''querySelectorAll'')"
  by (simp add: determineCharFromSticks_def)

lemma op_func_simps [simp]:
  "op_func ''+'' = Some (\<lambda>a b. a + b)" "op_func ''-'' = Some (\<lambda>a b. a - b)"
  by (simp_all add: op_func_def)

lemma op_func_None: "opStr \<noteq> ''+'' \<Longrightarrow> opStr \<noteq> ''-'' \<Longrightarrow> op_func opStr = None"
  by (simp add: op_func_def)

text \<open>The evaluation reads the containers of the puzzle area and nothing else.\<close>

lemma parseVisualEquation_cong:
  "puzzleArea s = puzzleArea t \<Longrightarrow> parseVisualEquation s = parseVisualEquation t"
  by (simp add: parseVisualEquation_def child_at_def)

lemma parseVisualEquation_chars:
  assumes "map c_char (puzzleArea s) = [a, oc, b, e, c]"
    and "a \<noteq> []" "oc \<noteq> []" "b \<noteq> []" "c \<noteq> []"
  shows "parseVisualEquation s =
    (case (parseInt a, parseInt b, parseInt c, op_func oc) of
       (Some x, Some y, Some z, Some f) \<Rightarrow>
         Inr \<lparr>ve_nums = Some (x, oc, y, z), ve_isValid = (f x y = z), ve_str = a @ oc @ b @ ''='' @ c\<rparr>
     | _ \<Rightarrow> Inr \<lparr>ve_nums = None, ve_isValid = False, ve_str = a @ oc @ b @ ''='' @ c\<rparr>)"
proof -
  obtain x0 x1 x2 x3 x4 where "puzzleArea s = [x0, x1, x2, x3, x4]"
    "c_char x0 = a" "c_char x1 = oc" "c_char x2 = b" "c_char x3 = e" "c_char x4 = c"
    using map_eq_five[OF assms(1)] by blast
  with assms(2-5) show ?thesis
    by (simp add: parseVisualEquation_def child_at_def Let_def split: option.split)
qed

lemma dom_wf_level_fields [simp]:
  "dom_wf (s\<lparr>pending_timers := p, currentLevel := l\<rparr>) = dom_wf s"
  by (simp add: dom_wf_def container_ids_def parent_ok_def cong: option.case_cong elem_ref.case_cong)

text \<open>The timer callback, when a next level exists, builds that level's
  board as a fresh load does.\<close>

lemma advanceLevel_loads:
  assumes nxt: "Suc (currentLevel s) < length levels" and wf: "dom_wf s"
  shows "\<exists>s'. advanceLevel s = Inr s' \<and> currentLevel s' = Suc (currentLevel s) \<and>
    pending_timers s' = pending_timers s - 1 \<and> movesMadeThisLevel s' = 0 \<and> selectedStick s' = None \<and>
    layout s' = layout (js_state (renderPuzzle (Suc (currentLevel s)) page0))"
proof -
  let ?s1 = "s\<lparr>pending_timers := pending_timers s - 1, currentLevel := Suc (currentLevel s)\<rparr>"
  obtain lv where lv: "level_at (Suc (currentLevel s)) = Some lv"
    using nxt by (cases "level_at (Suc (currentLevel s))") (simp_all add: level_at_None_iff)
  have wf1: "dom_wf ?s1" using wf by simp
  obtain s' m where r: "renderPuzzle (Suc (currentLevel s)) ?s1 = Inr s'"
    and m: "puzzle_re_exec (puzzle lv) = Some m" and "dom_wf s'"
    and lay: "layout s' = render_layout (parts_list m)"
    and f: "movesMadeThisLevel s' = 0" "selectedStick s' = None" "currentLevel s' = currentLevel ?s1"
      "pending_timers s' = pending_timers ?s1" "movesLeftDisplay s' = movesAllowed lv"
    by (rule renderPuzzle_ok[OF wf1 lv])
  obtain t m' where r0: "renderPuzzle (Suc (currentLevel s)) page0 = Inr t"
    and m': "puzzle_re_exec (puzzle lv) = Some m'" and lay0: "layout t = render_layout (parts_list m')"
    using renderPuzzle_ok[OF page0_wf lv] by blast
  have "advanceLevel s = Inr s'" using r nxt by (simp add: advanceLevel_def)
  with f lay lay0 m m' r0 show ?thesis by auto
qed

subsection \<open>Properties\<close>

text \<open>C23: rendering any level of the catalog and reading the board back
  gives the level's puzzle: \<open>parseVisualEquation\<close> returns the puzzle
  string, the values the pattern captured, and an equation that is false.\<close>

theorem render_read_roundtrip:
  assumes lv: "level_at i = Some lv" and wf: "dom_wf s"
  shows "\<exists>s' eq. renderPuzzle i s = Inr s' \<and> parseVisualEquation s' = Inr eq \<and>
    ve_str eq = puzzle lv \<and> ve_nums eq = equation_values (puzzle_re_exec (puzzle lv)) \<and>
    \<not> ve_isValid eq"
proof -
  obtain s' m where r: "renderPuzzle i s = Inr s'" and m: "puzzle_re_exec (puzzle lv) = Some m"
    and lay: "layout s' = render_layout (parts_list m)"
    using renderPuzzle_ok[OF wf lv] by blast
  have chars: "map c_char (puzzleArea s') = parts_list m"
    by (simp only: map_c_char_layout[symmetric] lay map_char_render_layout)
  have "\<exists>eq. parseVisualEquation s' = Inr eq \<and>
      ve_str eq = puzzle lv \<and> ve_nums eq = equation_values (Some m) \<and> \<not> ve_isValid eq"
    using level_cases[OF lv] m chars levels_parts
    by (auto simp: parseVisualEquation_chars equation_values_def parseInt_def js_simps Let_def levels_def)
  with r m show ?thesis by auto
qed

theorem render_read_roundtrip_witness:
  "level_at 1 = Some (levels ! 1) \<and> dom_wf page0 \<and>
   (\<exists>s' eq. renderPuzzle 1 page0 = Inr s' \<and> parseVisualEquation s' = Inr eq \<and>
     ve_str eq = ''3-4=1'' \<and> ve_nums eq = Some (3, ''-'', 4, 1) \<and> \<not> ve_isValid eq)"
proof -
  have h: "level_at 1 = Some (levels ! 1)" "dom_wf page0"
    by (simp_all add: level_at_Some_iff page0_wf)
  have v1: "puzzle (levels ! 1) = ''3-4=1''" by (simp add: levels_def)
  have v2: "equation_values (puzzle_re_exec (puzzle (levels ! 1))) = Some (3, ''-'', 4, 1)"
    by (simp only: levels_parts) (simp add: equation_values_def parseInt_def js_simps Let_def)
  show ?thesis using h render_read_roundtrip[OF h] v1 v2 by auto
qed

text \<open>C25: the timer callback of a successful check, when a next level exists,
  loads it as a fresh load would: the level number advances, one pending timer
  is consumed, the counter and the selection are reset, and the board is the
  one a fresh render of that level builds.\<close>

theorem advance_loads_next_level:
  assumes nxt: "Suc (currentLevel s) < length levels" and wf: "dom_wf s"
  shows "\<exists>s'. advanceLevel s = Inr s' \<and> currentLevel s' = Suc (currentLevel s) \<and>
    pending_timers s' = pending_timers s - 1 \<and> movesMadeThisLevel s' = 0 \<and> selectedStick s' = None \<and>
    layout s' = layout (js_state (renderPuzzle (Suc (currentLevel s)) page0))"
  by (rule advanceLevel_loads[OF assms])

theorem advance_loads_next_level_witness:
  "Suc (currentLevel page0) < length levels \<and> dom_wf page0 \<and>
   (\<exists>s'. advanceLevel page0 = Inr s' \<and> currentLevel s' = 1 \<and>
     pending_timers s' = 0 \<and> movesMadeThisLevel s' = 0 \<and> selectedStick s' = None \<and>
     layout s' = layout (js_state (renderPuzzle 1 page0)))"
proof -
  have h: "Suc (currentLevel page0) < length levels" "dom_wf page0"
    by (simp add: page0_def) (rule page0_wf)
  show ?thesis using h advance_loads_next_level[OF h] by (simp add: page0_def)
qed

text \<open>C31: the two readings of the board in the check listener agree: when the
  five containers all show a character and the fourth shows \<open>=\<close>, the
  string \<open>parseVisualEquation\<close> builds from children 0, 1, 2 and 4 (lines
  231--262) is the string \<open>currentEquationString\<close> concatenates from every
  container (lines 178--188).\<close>

theorem equation_string_agrees:
  assumes chars: "map c_char (puzzleArea s) = [a, oc, b, ''='', c]"
    and ne: "a \<noteq> []" "oc \<noteq> []" "b \<noteq> []" "c \<noteq> []"
  shows "\<exists>eq. parseVisualEquation s = Inr eq \<and> ve_str eq = currentEquationString s"
proof -
  obtain x0 x1 x2 x3 x4 where "puzzleArea s = [x0, x1, x2, x3, x4]"
    "c_char x0 = a" "c_char x1 = oc" "c_char x2 = b" "c_char x3 = ''=''" "c_char x4 = c"
    using map_eq_five[OF chars] by blast
  then have "currentEquationString s = a @ oc @ b @ ''='' @ c"
    using ne by (simp add: currentEquationString_def)
  then show ?thesis
    using parseVisualEquation_chars[OF chars ne] by (simp split: option.split)
qed

theorem equation_string_agrees_witness:
  "map c_char (puzzleArea (page0\<lparr>puzzleArea := [\<lparr>c_id = 0, c_class = ''digit-container'', c_char = ''7''\<rparr>,
      \<lparr>c_id = 1, c_class = ''operator-container'', c_char = ''+''\<rparr>,
      \<lparr>c_id = 2, c_class = ''digit-container'', c_char = ''12''\<rparr>,
      \<lparr>c_id = 3, c_class = ''operator-container'', c_char = ''=''\<rparr>,
      \<lparr>c_id = 4, c_class = ''digit-container'', c_char = ''19''\<rparr>]\<rparr>)) =
     [''7'', ''+'', ''12'', ''='', ''19''] \<and>
   (\<exists>eq. parseVisualEquation (page0\<lparr>puzzleArea := [\<lparr>c_id = 0, c_class = ''digit-container'', c_char = ''7''\<rparr>,
      \<lparr>c_id = 1, c_class = ''operator-container'', c_char = ''+''\<rparr>,
      \<lparr>c_id = 2, c_class = ''digit-container'', c_char = ''12''\<rparr>,
      \<lparr>c_id = 3, c_class = ''operator-container'', c_char = ''=''\<rparr>,
      \<lparr>c_id = 4, c_class = ''digit-container'', c_char = ''19''\<rparr>]\<rparr>) = Inr eq \<and>
     ve_str eq = ''7+12=19'')"
proof -
  let ?s = "page0\<lparr>puzzleArea := [\<lparr>c_id = 0, c_class = ''digit-container'', c_char = ''7''\<rparr>,
      \<lparr>c_id = 1, c_class = ''operator-container'', c_char = ''+''\<rparr>,
      \<lparr>c_id = 2, c_class = ''digit-container'', c_char = ''12''\<rparr>,
      \<lparr>c_id = 3, c_class = ''operator-container'', c_char = ''=''\<rparr>,
      \<lparr>c_id = 4, c_class = ''digit-container'', c_char = ''19''\<rparr>]\<rparr>"
  have h: "map c_char (puzzleArea ?s) = [''7'', ''+'', ''12'', ''='', ''19'']" by simp
  have e: "currentEquationString ?s = ''7+12=19''" by (simp add: currentEquationString_def)
  show ?thesis using h equation_string_agrees[OF h] e by simp
qed

end
