(* ===== verification/Session.thy ===== *)
theory Session
  imports Interaction Checking
begin

text \<open>
  The Level Session: the reset and hint listeners (\<^verbatim>\<open>src/script.js\<close>
  lines 266--275), the initial load (line 278) and the event loop of the page.
  The browser runs one listener at a time to completion (spec section 5); an
  uncaught exception ends the listener and leaves its earlier effects in
  place. A step is one event: a click on a stick on the board, on one of the
  three buttons, or the run of a pending \<open>setTimeout\<close> callback. The
  reachable pages are those the loaded page reaches by such steps.
\<close>

subsection \<open>Definitions\<close>

definition resetClick :: "page \<Rightarrow> page js_result" where
  "resetClick s = renderPuzzle (currentLevel s) s"

definition hintClick :: "page \<Rightarrow> page js_result" where
  \<open>hintClick s =
     (case level_at (currentLevel s) of
        None \<Rightarrow> js_throw (TypeError ''solutionString'') s
      | Some lv \<Rightarrow> Inr (s\<lparr>feedbackMessage := ''Hint: Try to make it "'' @ solutionString lv @ ''"''\<rparr>))\<close>

definition initial_page :: page where
  "initial_page = js_state (renderPuzzle 0 page0)"

datatype ui_event = StickClick nat | CheckClick | ResetClick | HintClick | TimerFires

fun enabled :: "page \<Rightarrow> ui_event \<Rightarrow> bool" where
  "enabled s (StickClick i) = on_board s i"
| "enabled s TimerFires = (0 < pending_timers s)"
| "enabled s CheckClick = True"
| "enabled s ResetClick = True"
| "enabled s HintClick = True"

fun dispatch :: "ui_event \<Rightarrow> page \<Rightarrow> page js_result" where
  "dispatch (StickClick i) s = handleStickClick i s"
| "dispatch CheckClick s = checkClick s"
| "dispatch ResetClick s = resetClick s"
| "dispatch HintClick s = hintClick s"
| "dispatch TimerFires s = advanceLevel s"

inductive reachable :: "page \<Rightarrow> bool" where
  loaded: "reachable initial_page"
| step: "reachable s \<Longrightarrow> enabled s e \<Longrightarrow> reachable (js_state (dispatch e s))"

text \<open>A run of events from a page, each applied whether or not it threw.\<close>

fun run :: "ui_event list \<Rightarrow> page \<Rightarrow> page" where
  "run [] s = s"
| "run (e # es) s = run es (js_state (dispatch e s))"

subsection \<open>Lemmas\<close>

text \<open>The page after the initial load, computed.\<close>

lemma initial_page_eq:
  "initial_page =
   \<lparr>currentLevel = 0, movesMadeThisLevel = 0, selectedStick = None,
    puzzleArea =
      [\<lparr>c_id = 0, c_class = ''digit-container'', c_char = ''1''\<rparr>,
       \<lparr>c_id = 1, c_class = ''operator-container'', c_char = ''-''\<rparr>,
       \<lparr>c_id = 2, c_class = ''digit-container'', c_char = ''1''\<rparr>,
       \<lparr>c_id = 3, c_class = ''operator-container'', c_char = ''=''\<rparr>,
       \<lparr>c_id = 4, c_class = ''digit-container'', c_char = ''9''\<rparr>],
    sticks =
      [\<lparr>st_classes = [''matchstick'', ''vertical''], st_top = ''25%'', st_left = ''45%'',
         st_width = ''10%'', st_height = ''50%'', st_originalContainer = ''1'',
         st_originalStickIndex = 0, st_parent = Some (ContainerRef 0)\<rparr>,
       \<lparr>st_classes = [''matchstick'', ''vertical''], st_top = ''25%'', st_left = ''45%'',
         st_width = ''10%'', st_height = ''50%'', st_originalContainer = ''1'',
         st_originalStickIndex = 0, st_parent = Some (ContainerRef 2)\<rparr>],
    next_container = 5, levelDisplay = 1, movesLeftDisplay = 2, feedbackMessage = [],
    console_log = [], pending_timers = 0\<rparr>"
  by (simp add: initial_page_def renderPuzzle_def page0_def render_container_def
      container_class_def parseInt_def js_simps new_stick_def crude_orientation_def class_add_def
      puzzle_re_at_def re_digits_def re_opclass_def template_for_def stickTemplates_def Let_def)

end
