(* ===== verification/Invariant.thy ===== *)
theory Invariant
  imports Session
begin

text \<open>
  The invariant of the reachable pages and its proof, one preservation lemma
  per listener in the manner of an atomic-step invariant: every reachable page
  stays on the first level with no advance pending, shows the five containers
  of \<open>"1-1=9"\<close>, keeps its element store well formed, gives sticks only the
  classes \<open>matchstick\<close>, \<open>vertical\<close>, \<open>horizontal\<close> and \<open>selected\<close>,
  and keeps the move counter within the budget of the level. Every enabled
  listener runs to completion on such a page.
\<close>

subsection \<open>Definitions\<close>

definition stick_class_names :: "string set" where
  "stick_class_names = {''matchstick'', ''vertical'', ''horizontal'', ''selected''}"

definition classes_ok :: "page \<Rightarrow> bool" where
  "classes_ok s \<longleftrightarrow> list_all (\<lambda>e. set (st_classes e) \<subseteq> stick_class_names) (sticks s)"

text \<open>The Move Ledger of the code: the counter within the budget of the current
  level, strictly below it while a stick is selected, and the display showing
  what is left.\<close>

definition ledger_ok :: "page \<Rightarrow> bool" where
  "ledger_ok s \<longleftrightarrow>
     (case level_at (currentLevel s) of
        None \<Rightarrow> False
      | Some lv \<Rightarrow>
          0 \<le> movesMadeThisLevel s \<and> movesMadeThisLevel s \<le> movesAllowed lv \<and>
          movesLeftDisplay s = movesAllowed lv - movesMadeThisLevel s \<and>
          (case selectedStick s of None \<Rightarrow> True | Some i \<Rightarrow> movesMadeThisLevel s < movesAllowed lv))"

definition level0_chars :: "string list" where
  "level0_chars = [''1'', ''-'', ''1'', ''='', ''9'']"

text \<open>A container whose character is not \<open>'1'\<close> holds no stick.\<close>

definition empty_ok :: "page \<Rightarrow> bool" where
  "empty_ok s \<longleftrightarrow>
     list_all (\<lambda>ct. c_char ct = ''1'' \<or>
                    list_all (\<lambda>e. st_parent e \<noteq> Some (ContainerRef (c_id ct))) (sticks s))
       (puzzleArea s)"

definition game_inv :: "page \<Rightarrow> bool" where
  "game_inv s \<longleftrightarrow>
     dom_wf s \<and> classes_ok s \<and> ledger_ok s \<and> currentLevel s = 0 \<and> pending_timers s = 0 \<and>
     map c_char (puzzleArea s) = level0_chars \<and> empty_ok s"

subsection \<open>Lemmas\<close>

lemma empty_ok_of_layout:
  assumes lay: "layout s = render_layout chs"
    and chs: "list_all (\<lambda>ch. ch = ''1'' \<or> (case template_for ch of None \<Rightarrow> [] | Some sds \<Rightarrow> sds) = []) chs"
  shows "empty_ok s"
  unfolding empty_ok_def list_all_iff
proof
  fix ct assume "ct \<in> set (puzzleArea s)"
  then obtain k where k: "k < length (puzzleArea s)" "puzzleArea s ! k = ct"
    by (auto simp: in_set_conv_nth)
  have len: "length (puzzleArea s) = length chs"
    using arg_cong[OF lay, of length] by (simp add: layout_def render_layout_def)
  have "layout s ! k = render_layout chs ! k" using lay by simp
  then have eq: "c_char ct = chs ! k \<and>
      map stick_shape (filter (\<lambda>e. st_parent e = Some (ContainerRef (c_id ct))) (sticks s)) =
      map (\<lambda>(i, sd). stick_shape (new_stick (chs ! k) 0 i sd))
        (enumerate 0 (case template_for (chs ! k) of None \<Rightarrow> [] | Some sds \<Rightarrow> sds))"
    using k len by (simp add: layout_def render_layout_def)
  have "chs ! k = ''1'' \<or> (case template_for (chs ! k) of None \<Rightarrow> [] | Some sds \<Rightarrow> sds) = []"
    using chs k len by (simp add: list_all_iff)
  then show "c_char ct = ''1'' \<or> (\<forall>e\<in>set (sticks s). st_parent e \<noteq> Some (ContainerRef (c_id ct)))"
    using eq by (auto simp: filter_empty_conv)
qed

lemma empty_ok_map_stick:
  assumes ok: "empty_ok s"
    and new: "i < length (sticks s) \<Longrightarrow> \<exists>j < length (sticks s). st_parent (f (sticks s ! i)) = st_parent (sticks s ! j)"
  shows "empty_ok (map_stick i f s)"
  unfolding empty_ok_def list_all_iff
proof
  fix ct assume ct: "ct \<in> set (puzzleArea (map_stick i f s))"
  show "c_char ct = ''1'' \<or> (\<forall>e\<in>set (sticks (map_stick i f s)). st_parent e \<noteq> Some (ContainerRef (c_id ct)))"
  proof (cases "c_char ct = ''1''")
    case False
    with ok ct have old: "\<forall>e\<in>set (sticks s). st_parent e \<noteq> Some (ContainerRef (c_id ct))"
      by (auto simp: empty_ok_def list_all_iff)
    have "\<forall>e\<in>set (sticks (map_stick i f s)). st_parent e \<noteq> Some (ContainerRef (c_id ct))"
    proof (cases "i < length (sticks s)")
      case True
      then obtain j where "j < length (sticks s)" "st_parent (f (sticks s ! i)) = st_parent (sticks s ! j)"
        using new by blast
      then have "st_parent (f (sticks s ! i)) \<noteq> Some (ContainerRef (c_id ct))"
        using old nth_mem by metis
      then show ?thesis
        using old set_list_update_subset[of "sticks s" i "f (sticks s ! i)"]
        by (auto simp: map_stick_def)
    next
      case False
      then show ?thesis using old by (simp add: map_stick_def list_update_beyond)
    qed
    then show ?thesis by blast
  qed simp
qed

lemma new_stick_classes: "set (st_classes (new_stick ch cid i sd)) \<subseteq> stick_class_names"
  by (auto simp: new_stick_def stick_class_names_def crude_orientation_def)

lemma game_inv_iff:
  "game_inv s \<longleftrightarrow>
     dom_wf s \<and> classes_ok s \<and> currentLevel s = 0 \<and> pending_timers s = 0 \<and>
     map c_char (puzzleArea s) = level0_chars \<and>
     0 \<le> movesMadeThisLevel s \<and> movesMadeThisLevel s \<le> 2 \<and>
     movesLeftDisplay s = 2 - movesMadeThisLevel s \<and>
     (case selectedStick s of None \<Rightarrow> True | Some i \<Rightarrow> movesMadeThisLevel s < 2) \<and>
     empty_ok s"
  by (auto simp: game_inv_def ledger_ok_def level_at_None_iff split: option.splits)

lemma game_inv_output [simp]:
  "game_inv (s\<lparr>feedbackMessage := m\<rparr>) = game_inv s"
  "game_inv (s\<lparr>console_log := l\<rparr>) = game_inv s"
  by (simp_all add: game_inv_def dom_wf_def classes_ok_def ledger_ok_def container_ids_def
      parent_ok_def empty_ok_def cong: option.case_cong elem_ref.case_cong)

lemma game_inv_updatePuzzleState [simp]: "game_inv (updatePuzzleState s) = game_inv s"
  by (simp add: updatePuzzleState_def game_inv_iff dom_wf_def classes_ok_def container_ids_def
      parent_ok_def empty_ok_def cong: option.case_cong elem_ref.case_cong)

lemma game_inv_level:
  "game_inv s \<Longrightarrow> level_at (currentLevel s) = Some (levels ! 0) \<and> movesAllowed (levels ! 0) = 2"
  by (simp add: game_inv_def)

lemma classes_ok_map_stick:
  assumes "classes_ok s"
    and "\<And>e. set (st_classes e) \<subseteq> stick_class_names \<Longrightarrow> set (st_classes (f e)) \<subseteq> stick_class_names"
  shows "classes_ok (map_stick i f s)"
  using assms unfolding classes_ok_def
  by (intro list_all_map_stick) (auto simp: list_all_iff)

lemma render_level0_inv:
  assumes "dom_wf s" "classes_ok s" "currentLevel s = 0" "pending_timers s = 0"
  shows "\<exists>s'. renderPuzzle 0 s = Inr s' \<and> game_inv s'"
proof -
  let ?s2 = "s\<lparr>puzzleArea := [], levelDisplay := int 0 + 1, movesLeftDisplay := 2,
         movesMadeThisLevel := 0, feedbackMessage := [], selectedStick := None\<rparr>"
  let ?s' = "fold render_container [''1'', ''-'', ''1'', ''='', ''9''] ?s2"
  have m: "puzzle_re_exec (puzzle (levels ! 0)) = Some (''1'', ''-'', ''1'', ''='', ''9'')"
    by (simp only: levels_0 puzzle_re_exec_level_0)
  have r: "renderPuzzle 0 s = Inr ?s'"
    using renderPuzzle_level[OF level_at_0 m, of s] by simp
  have wf2: "dom_wf ?s2"
    using assms(1) by (auto simp: dom_wf_def container_ids_def list_all_iff parent_ok_def
        split: option.splits elem_ref.splits)
  have lay: "dom_wf ?s' \<and> layout ?s' = layout ?s2 @ render_layout [''1'', ''-'', ''1'', ''='', ''9'']"
    by (rule fold_render_container[OF wf2])
  have "layout ?s2 = []" by (simp add: layout_def)
  with lay have L: "layout ?s' = render_layout level0_chars"
    by (simp only: level0_chars_def append_Nil)
  have "map c_char (puzzleArea ?s') = map (\<lambda>(a, b, c). b) (layout ?s')"
    by (simp only: map_c_char_layout)
  also have "\<dots> = level0_chars"
    by (simp only: L map_char_render_layout)
  finally have chars: "map c_char (puzzleArea ?s') = level0_chars" .
  have cls: "classes_ok ?s'"
    unfolding classes_ok_def list_all_iff
  proof
    fix e assume "e \<in> set (sticks ?s')"
    then have "e \<in> set (sticks s) \<or> (\<exists>ch cid i sd. e = new_stick ch cid i sd)"
      using sticks_fold_render_container[of "[''1'', ''-'', ''1'', ''='', ''9'']" ?s2] by auto
    then show "set (st_classes e) \<subseteq> stick_class_names"
    proof
      assume "e \<in> set (sticks s)"
      then show ?thesis using assms(2) by (simp add: classes_ok_def list_all_iff)
    next
      assume "\<exists>ch cid i sd. e = new_stick ch cid i sd"
      then show ?thesis using new_stick_classes by blast
    qed
  qed
  have led: "ledger_ok ?s'"
    by (simp only: ledger_ok_def fold_render_container_frame) (simp add: assms(3))
  have "currentLevel ?s' = 0" "pending_timers ?s' = 0"
    using assms(3,4) by (simp_all only: fold_render_container_frame) simp_all
  moreover have "empty_ok ?s'"
    by (rule empty_ok_of_layout[OF L])
       (simp add: level0_chars_def template_for_def stickTemplates_def)
  ultimately have "game_inv ?s'"
    using lay chars cls led by (simp only: game_inv_def)
  with r show ?thesis by blast
qed

lemma game_inv_initial: "game_inv initial_page"
  using render_level0_inv[of page0] page0_wf
  by (auto simp: initial_page_def page0_def classes_ok_def)

lemma parseVisualEquation_level0:
  "map c_char (puzzleArea s) = level0_chars \<Longrightarrow>
   parseVisualEquation s = Inr \<lparr>ve_nums = Some (1, ''-'', 1, 9), ve_isValid = False, ve_str = ''1-1=9''\<rparr>"
  by (simp add: level0_chars_def parseVisualEquation_chars parseInt_def js_simps Let_def)

lemma checkClick_inv:
  assumes "game_inv s"
  shows "\<exists>s'. checkClick s = Inr s' \<and> game_inv s' \<and> feedbackMessage s' = ''Not quite right. Try again!''"
proof -
  have lv: "level_at (currentLevel s) = Some (levels ! 0)" and m: "movesMadeThisLevel s \<le> 2"
    using assms by (auto simp: game_inv_def ledger_ok_def)
  have p: "parseVisualEquation s = Inr \<lparr>ve_nums = Some (1, ''-'', 1, 9), ve_isValid = False, ve_str = ''1-1=9''\<rparr>"
    using assms by (simp add: game_inv_def parseVisualEquation_level0)
  let ?s' = "s\<lparr>console_log := console_log s @ [''Current Visual Equation: '' @ ''1-1=9''],
               feedbackMessage := ''Not quite right. Try again!''\<rparr>"
  have "checkClick s = Inr ?s'"
    using lv m p by (simp add: checkClick_def)
  moreover have "game_inv ?s'"
    using assms by simp
  ultimately show ?thesis by auto
qed

lemma hintClick_inv:
  "game_inv s \<Longrightarrow> \<exists>s'. hintClick s = Inr s' \<and> game_inv s'"
  using game_inv_level[of s] by (simp add: hintClick_def)

lemma resetClick_inv:
  "game_inv s \<Longrightarrow> \<exists>s'. resetClick s = Inr s' \<and> game_inv s'"
  unfolding resetClick_def game_inv_def by (auto intro: render_level0_inv[unfolded game_inv_def])

lemma select_stick_inv:
  assumes inv: "game_inv s" and sel: "selectedStick s = None" and ob: "on_board s i"
  shows "\<exists>s'. select_stick i (levels ! 0) s = Inr s' \<and> game_inv s'"
proof (cases "movesMadeThisLevel s < 2")
  case True
  let ?t = "s\<lparr>selectedStick := Some i\<rparr>"
  let ?f = "\<lambda>e. e\<lparr>st_classes := class_add ''selected'' (st_classes e)\<rparr>"
  have wf: "dom_wf ?t"
    using inv ob by (simp add: game_inv_iff dom_wf_def container_ids_def on_board_def
        parent_ok_def cong: option.case_cong elem_ref.case_cong)
  then have "dom_wf (map_stick i ?f ?t)"
    by (rule dom_wf_map_stick) (use parent_ok_wf[OF wf] in simp)
  moreover have "classes_ok (map_stick i ?f ?t)"
    using inv by (intro classes_ok_map_stick) (auto simp: game_inv_iff classes_ok_def stick_class_names_def)
  moreover have "empty_ok (map_stick i ?f ?t)"
    using inv by (intro empty_ok_map_stick) (auto simp: game_inv_iff empty_ok_def)
  ultimately have "game_inv (map_stick i ?f ?t)"
    using inv True by (simp add: game_inv_iff)
  with True show ?thesis by (simp add: select_stick_def)
next
  case False
  with inv show ?thesis by (simp add: select_stick_def)
qed

lemma place_stick_ok:
  assumes inv: "game_inv s" and sel: "selectedStick s = Some j" and ob: "on_board s i"
  shows "\<exists>s2. place_stick j i s = Inr s2 \<and> dom_wf s2 \<and> classes_ok s2 \<and> currentLevel s2 = 0 \<and>
     pending_timers s2 = 0 \<and> map c_char (puzzleArea s2) = level0_chars \<and>
     0 \<le> movesMadeThisLevel s2 \<and> movesMadeThisLevel s2 \<le> 2 \<and> empty_ok s2"
proof -
  have lt: "movesMadeThisLevel s < 2" "0 \<le> movesMadeThisLevel s"
    using inv sel by (simp_all add: game_inv_iff)
  have ncont: "''digit-container'' \<notin> set (stick_classes s i) \<and> ''operator-container'' \<notin> set (stick_classes s i)"
    using inv ob by (auto simp: game_inv_iff classes_ok_def list_all_iff stick_classes_def
        stick_class_names_def on_board_def dest!: nth_mem)
  obtain c where pc: "parent_of s i = Some (ContainerRef c)" and cin: "c \<in> set (container_ids s)"
    using on_board_parent[OF ob] by blast
  have cok: "c < next_container s"
    using inv cin by (simp add: game_inv_iff dom_wf_def list_all_iff)
  show ?thesis
  proof (cases "''matchstick'' \<in> set (stick_classes s i) \<and> i \<noteq> j")
    case True
    let ?s1 = "if parent_of s j \<noteq> parent_of s i then count_move s else s"
    let ?g = "\<lambda>e. e\<lparr>st_parent := Some (ContainerRef c)\<rparr>"
    have s1: "dom_wf ?s1 \<and> classes_ok ?s1 \<and> next_container ?s1 = next_container s \<and>
        0 \<le> movesMadeThisLevel ?s1 \<and> movesMadeThisLevel ?s1 \<le> 2 \<and> empty_ok ?s1 \<and>
        sticks ?s1 = sticks s"
      using inv lt by (auto simp: game_inv_iff dom_wf_def classes_ok_def container_ids_def
          count_move_def parent_ok_def empty_ok_def cong: option.case_cong elem_ref.case_cong)
    have il: "i < length (sticks s)" by (rule on_board_length[OF ob])
    have emp: "empty_ok (append_child (ContainerRef c) j ?s1)"
      unfolding append_child_def using s1 il pc
      by (intro empty_ok_map_stick) (auto simp: parent_of_def)
    have "dom_wf (append_child (ContainerRef c) j ?s1)"
      unfolding append_child_def
      using s1 cok by (intro dom_wf_map_stick) (simp_all add: parent_ok_def)
    moreover have "classes_ok (append_child (ContainerRef c) j ?s1)"
      unfolding append_child_def using s1 by (intro classes_ok_map_stick) simp_all
    ultimately show ?thesis
      using True ncont pc inv s1 emp by (simp add: place_stick_def append_to_def append_child_def game_inv_iff)
  next
    case False
    then have "place_stick j i s = Inr s"
      using ncont by (auto simp: place_stick_def Let_def)
    with inv lt show ?thesis by (simp add: game_inv_iff)
  qed
qed

lemma release_stick_inv:
  assumes "dom_wf s2" "classes_ok s2" "currentLevel s2 = 0" "pending_timers s2 = 0"
    "map c_char (puzzleArea s2) = level0_chars" "0 \<le> movesMadeThisLevel s2" "movesMadeThisLevel s2 \<le> 2"
    "empty_ok s2"
  shows "\<exists>s'. release_stick j (Some (levels ! 0)) s2 = Inr s' \<and> game_inv s'"
proof -
  let ?t = "s2\<lparr>selectedStick := None\<rparr>"
  let ?f = "\<lambda>e. e\<lparr>st_classes := class_remove ''selected'' (st_classes e)\<rparr>"
  let ?u = "map_stick j ?f ?t"
  have wf: "dom_wf ?t"
    using assms(1) by (simp add: dom_wf_def container_ids_def parent_ok_def
        cong: option.case_cong elem_ref.case_cong)
  have "dom_wf ?u"
    by (rule dom_wf_map_stick[OF wf]) (use parent_ok_wf[OF wf] in simp)
  moreover have "classes_ok ?u"
    using assms(2) by (intro classes_ok_map_stick) (auto simp: classes_ok_def)
  moreover have "empty_ok ?u"
    using assms(8) by (intro empty_ok_map_stick) (auto simp: empty_ok_def)
  ultimately have "game_inv (?u\<lparr>movesLeftDisplay := 2 - movesMadeThisLevel ?u\<rparr>)"
    using assms(3-7) by (simp add: game_inv_iff dom_wf_def classes_ok_def container_ids_def
        parent_ok_def empty_ok_def cong: option.case_cong elem_ref.case_cong)
  then show ?thesis
    by (simp add: release_stick_def)
qed

lemma handleStickClick_inv:
  assumes inv: "game_inv s" and ob: "on_board s i"
  shows "\<exists>s'. handleStickClick i s = Inr s' \<and> game_inv s'"
proof (cases "selectedStick s")
  case None
  have "level_at (currentLevel s) = Some (levels ! 0)"
    using inv by (simp add: game_inv_iff)
  with select_stick_inv[OF inv None ob] None show ?thesis
    by (simp add: handleStickClick_def)
next
  case (Some j)
  obtain s2 where p: "place_stick j i s = Inr s2" and s2: "dom_wf s2" "classes_ok s2"
    "currentLevel s2 = 0" "pending_timers s2 = 0" "map c_char (puzzleArea s2) = level0_chars"
    "0 \<le> movesMadeThisLevel s2" "movesMadeThisLevel s2 \<le> 2" "empty_ok s2"
    using place_stick_ok[OF inv Some ob] by blast
  have "level_at (currentLevel s) = Some (levels ! 0)"
    using inv by (simp add: game_inv_iff)
  with release_stick_inv[OF s2, of j] p Some show ?thesis
    by (simp add: handleStickClick_def)
qed

lemma dispatch_inv:
  assumes "game_inv s" and "enabled s e"
  shows "\<exists>s'. dispatch e s = Inr s' \<and> game_inv s'"
proof (cases e)
  case (StickClick i)
  with assms show ?thesis using handleStickClick_inv by simp
next
  case CheckClick
  with assms show ?thesis using checkClick_inv by fastforce
next
  case ResetClick
  with assms show ?thesis using resetClick_inv by simp
next
  case HintClick
  with assms show ?thesis using hintClick_inv by simp
next
  case TimerFires
  with assms show ?thesis by (simp add: game_inv_iff)
qed

lemma reachable_game_inv: "reachable s \<Longrightarrow> game_inv s"
proof (induction rule: reachable.induct)
  case loaded
  show ?case by (rule game_inv_initial)
next
  case (step s e)
  then obtain s' where "dispatch e s = Inr s'" "game_inv s'"
    using dispatch_inv by blast
  then show ?case by simp
qed


end
