(* ===== verification/Runs.thy ===== *)
theory Runs
  imports Session
begin

text \<open>
  Sequences of events, run with \<open>run\<close> of Session: what the Move Ledger
  does over repeated clicks on sticks, and what the check button and the
  \<open>setTimeout\<close> callback of \<^verbatim>\<open>src/script.js\<close> (lines 170--217) do when
  they interleave. The pages here need not be reachable from the loaded page:
  the theorems describe the listeners on any page satisfying their hypotheses.
\<close>

subsection \<open>Lemmas\<close>

lemma class_remove_add:
  "x \<notin> set cls \<Longrightarrow> class_remove x (class_add x cls) = cls"
  by (induction cls) (auto simp: class_add_def class_remove_def)

lemma handleStickClick_refused:
  assumes "selectedStick s = None" "level_at (currentLevel s) = Some lv"
    "movesAllowed lv \<le> movesMadeThisLevel s"
  shows "handleStickClick i s = Inr (s\<lparr>feedbackMessage := ''No more moves allowed for this stick!''\<rparr>)"
  using assms by (simp add: handleStickClick_def select_stick_def)

lemma append_child_same_parent:
  assumes "parent_of s j = Some p"
  shows "append_child p j s = s"
proof -
  have j: "j < length (sticks s)" "st_parent (sticks s ! j) = Some p"
    using assms by (simp_all add: parent_of_def split: if_splits)
  have e: "(sticks s ! j)\<lparr>st_parent := Some p\<rparr> = sticks s ! j"
    using j(2) by (cases "sticks s ! j") simp
  have "(sticks s)[j := (sticks s ! j)\<lparr>st_parent := Some p\<rparr>] = sticks s"
    by (simp only: e list_update_id)
  then show ?thesis by (simp add: append_child_def map_stick_def)
qed

lemma map_stick_parent_of [simp]:
  "parent_of (map_stick j (\<lambda>e. e\<lparr>st_classes := f (st_classes e)\<rparr>) s) i = parent_of s i"
  by (cases "j < length (sticks s)")
     (auto simp: parent_of_def map_stick_def nth_list_update list_update_beyond)

lemma stick_classes_map_stick:
  "stick_classes (map_stick j f s) i =
     (if i = j \<and> j < length (sticks s) then st_classes (f (sticks s ! j)) else stick_classes s i)"
  by (auto simp: stick_classes_def map_stick_def nth_list_update)

lemma map_stick_map_stick_classes:
  assumes "j < length (sticks s)" "''selected'' \<notin> set (st_classes (sticks s ! j))"
  shows "sticks (map_stick j (\<lambda>e. e\<lparr>st_classes := class_remove ''selected'' (st_classes e)\<rparr>)
            (map_stick j (\<lambda>e. e\<lparr>st_classes := class_add ''selected'' (st_classes e)\<rparr>) s)) = sticks s"
  using assms by (simp add: map_stick_def class_remove_add)

lemma round_trip_step:
  assumes sel: "selectedStick s = None" and lv: "level_at (currentLevel s) = Some lv"
    and par: "parent_of s i = parent_of s j" "parent_of s i = Some (ContainerRef c)"
    and nc: "''digit-container'' \<notin> set (stick_classes s i)" "''operator-container'' \<notin> set (stick_classes s i)"
    and ns: "''selected'' \<notin> set (stick_classes s j)"
  shows "sticks (run [StickClick j, StickClick i] s) = sticks s \<and>
    movesMadeThisLevel (run [StickClick j, StickClick i] s) = movesMadeThisLevel s \<and>
    selectedStick (run [StickClick j, StickClick i] s) = None \<and>
    currentLevel (run [StickClick j, StickClick i] s) = currentLevel s"
proof (cases "movesMadeThisLevel s < movesAllowed lv")
  case False
  then show ?thesis
    using handleStickClick_refused[OF sel lv] handleStickClick_refused[of "s\<lparr>feedbackMessage := x\<rparr>" for x] sel lv
    by simp
next
  case True
  have p: "parent_of s j = Some (ContainerRef c)" using par by simp
  have jl: "j < length (sticks s)" using p by (simp add: parent_of_def split: if_splits)
  let ?add = "\<lambda>e. e\<lparr>st_classes := class_add ''selected'' (st_classes e)\<rparr>"
  let ?rem = "\<lambda>e. e\<lparr>st_classes := class_remove ''selected'' (st_classes e)\<rparr>"
  let ?t = "map_stick j ?add (s\<lparr>selectedStick := Some j\<rparr>)"
  have t: "handleStickClick j s = Inr ?t"
    using sel lv True by (simp add: handleStickClick_def select_stick_def)
  have pt: "parent_of ?t i = Some (ContainerRef c)" "parent_of ?t j = Some (ContainerRef c)"
    using par p by simp_all
  have nct: "''digit-container'' \<notin> set (stick_classes ?t i)" "''operator-container'' \<notin> set (stick_classes ?t i)"
    using nc jl unfolding stick_classes_map_stick by (auto simp: stick_classes_def class_add_def)
  have place: "place_stick j i ?t = Inr ?t"
    using nct pt by (auto simp: place_stick_def append_to_def Let_def append_child_same_parent)
  let ?u = "map_stick j ?rem (?t\<lparr>selectedStick := None\<rparr>)"
  have rel: "release_stick j (Some lv) ?t = Inr (updatePuzzleState (?u\<lparr>movesLeftDisplay := movesAllowed lv - movesMadeThisLevel ?u\<rparr>))"
    by (simp add: release_stick_def)
  have h2: "handleStickClick i ?t = release_stick j (Some lv) ?t"
    using lv place by (simp add: handleStickClick_def)
  have "sticks ?u = sticks s"
    using map_stick_map_stick_classes[OF jl] ns jl by (simp add: stick_classes_def map_stick_def)
  then show ?thesis
    using t h2 rel by (simp add: map_stick_def)
qed










lemma run_append: "run (xs @ ys) s = run ys (run xs s)"
  by (induction xs arbitrary: s) simp_all

lemma sticks_determine_parent_classes:
  "sticks t = sticks s \<Longrightarrow> parent_of t = parent_of s \<and> stick_classes t = stick_classes s"
  by (simp add: fun_eq_iff parent_of_def stick_classes_def)

lemma renderPuzzle_frame:
  "currentLevel (js_state (renderPuzzle i s)) = currentLevel s"
  "pending_timers (js_state (renderPuzzle i s)) = pending_timers s"
  by (simp_all add: renderPuzzle_def Let_def js_throw_def split: option.split)

lemma advanceLevel_frame:
  "currentLevel (js_state (advanceLevel s)) = Suc (currentLevel s)"
  "pending_timers (js_state (advanceLevel s)) = pending_timers s - 1"
  by (simp_all add: advanceLevel_def Let_def renderPuzzle_frame)

lemma checkClick_success:
  assumes "level_at (currentLevel s) = Some lv" "movesMadeThisLevel s \<le> movesAllowed lv"
    and "map c_char (puzzleArea s) = [''1'', ''+'', ''1'', ''='', ''2'']"
  shows "\<exists>s'. checkClick s = Inr s' \<and> pending_timers s' = Suc (pending_timers s) \<and>
    puzzleArea s' = puzzleArea s \<and> currentLevel s' = currentLevel s \<and>
    movesMadeThisLevel s' = movesMadeThisLevel s \<and> feedbackMessage s' = ''Correct! Well done!''"
proof -
  have "parseVisualEquation s = Inr \<lparr>ve_nums = Some (1, ''+'', 1, 2), ve_isValid = True, ve_str = ''1+1=2''\<rparr>"
    using assms(3) by (simp add: parseVisualEquation_chars parseInt_def js_simps Let_def)
  then show ?thesis using assms(1,2) by (simp add: checkClick_def)
qed

lemma listeners_throw_past_last_level:
  assumes "length levels \<le> currentLevel s"
  shows "isl (checkClick s) \<and> isl (hintClick s) \<and> isl (resetClick s) \<and> isl (handleStickClick i s)"
proof -
  have "level_at (currentLevel s) = None" using assms by (simp add: level_at_None_iff)
  then show ?thesis
    by (auto simp: checkClick_def hintClick_def resetClick_def renderPuzzle_def handleStickClick_def
        release_stick_def js_then_def js_throw_def Let_def split: option.split sum.split)
qed

subsection \<open>Properties\<close>

text \<open>C18: the spec's move accounting idempotence: selecting a stick and dropping
  it on a stick of its own container (or on itself), repeated any number of
  times, never changes the move counter or any stick.\<close>

theorem round_trips_never_charged:
  assumes "selectedStick s = None" and "level_at (currentLevel s) = Some lv"
    and "parent_of s i = parent_of s j" and "parent_of s i = Some (ContainerRef c)"
    and "''digit-container'' \<notin> set (stick_classes s i)" "''operator-container'' \<notin> set (stick_classes s i)"
    and "''selected'' \<notin> set (stick_classes s j)"
  shows "movesMadeThisLevel (run (concat (replicate n [StickClick j, StickClick i])) s) = movesMadeThisLevel s \<and>
    sticks (run (concat (replicate n [StickClick j, StickClick i])) s) = sticks s"
  using assms
proof (induction n arbitrary: s)
  case 0
  then show ?case by simp
next
  case (Suc n)
  let ?t = "run [StickClick j, StickClick i] s"
  have t: "sticks ?t = sticks s \<and> movesMadeThisLevel ?t = movesMadeThisLevel s \<and>
      selectedStick ?t = None \<and> currentLevel ?t = currentLevel s"
    by (rule round_trip_step[OF Suc.prems])
  then have pc: "parent_of ?t = parent_of s" "stick_classes ?t = stick_classes s"
    using sticks_determine_parent_classes by blast+
  have "movesMadeThisLevel (run (concat (replicate n [StickClick j, StickClick i])) ?t) = movesMadeThisLevel ?t \<and>
      sticks (run (concat (replicate n [StickClick j, StickClick i])) ?t) = sticks ?t"
    by (rule Suc.IH) (use Suc.prems t pc in simp_all)
  with t show ?case by (simp only: replicate_Suc concat.simps run_append)
qed

text \<open>The spec's budget enforcement: once the budget of the level is spent
  and no stick is selected, any sequence of clicks on sticks leaves every stick
  where it is, the counter unchanged and nothing selected.\<close>

lemma spent_budget_freezes_board:
  assumes "selectedStick s = None" "level_at (currentLevel s) = Some lv"
    "movesAllowed lv \<le> movesMadeThisLevel s"
  shows "sticks (run (map StickClick is) s) = sticks s \<and>
    movesMadeThisLevel (run (map StickClick is) s) = movesMadeThisLevel s \<and>
    selectedStick (run (map StickClick is) s) = None"
  using assms
proof (induction "is" arbitrary: s)
  case Nil
  then show ?case by simp
next
  case (Cons i "is")
  let ?t = "s\<lparr>feedbackMessage := ''No more moves allowed for this stick!''\<rparr>"
  have "run (map StickClick (i # is)) s = run (map StickClick is) ?t"
    using handleStickClick_refused[OF Cons.prems] by simp
  moreover have "sticks (run (map StickClick is) ?t) = sticks ?t \<and>
      movesMadeThisLevel (run (map StickClick is) ?t) = movesMadeThisLevel ?t \<and>
      selectedStick (run (map StickClick is) ?t) = None"
    by (rule Cons.IH) (use Cons.prems in simp_all)
  ultimately show ?case by simp
qed

text \<open>C19: the check listener schedules a new advance at every successful
  click: two clicks on a solved board before the timeout fires advance the game
  two levels, skipping the second level, where one click advances it one.\<close>

theorem double_check_skips_level:
  assumes "currentLevel s = 0" and "movesMadeThisLevel s \<le> 2"
    and "map c_char (puzzleArea s) = [''1'', ''+'', ''1'', ''='', ''2'']"
  shows "currentLevel (run [CheckClick, TimerFires] s) = 1 \<and>
    currentLevel (run [CheckClick, CheckClick, TimerFires, TimerFires] s) = 2 \<and>
    pending_timers (run [CheckClick, CheckClick, TimerFires, TimerFires] s) = pending_timers s"
proof -
  have lv: "level_at (currentLevel s) = Some (levels ! 0)" "movesMadeThisLevel s \<le> movesAllowed (levels ! 0)"
    using assms(1,2) by simp_all
  obtain s1 where s1: "checkClick s = Inr s1" "pending_timers s1 = Suc (pending_timers s)"
    "puzzleArea s1 = puzzleArea s" "currentLevel s1 = currentLevel s"
    "movesMadeThisLevel s1 = movesMadeThisLevel s"
    using checkClick_success[OF lv assms(3)] by blast
  have lv1: "level_at (currentLevel s1) = Some (levels ! 0)" "movesMadeThisLevel s1 \<le> movesAllowed (levels ! 0)"
    using lv s1 by simp_all
  obtain s2 where s2: "checkClick s1 = Inr s2" "pending_timers s2 = Suc (pending_timers s1)"
    "currentLevel s2 = currentLevel s1"
    using checkClick_success[OF lv1] assms(3) s1(3) by auto
  show ?thesis
    using s1 s2 assms(1) by (simp add: advanceLevel_frame)
qed

text \<open>C20: the advance past the last level leaves \<open>currentLevel\<close> at
  \<open>levels.length\<close>; from then on every listener reads a property of
  \<open>levels[currentLevel]\<close>, which is \<open>undefined\<close>, and throws.\<close>

theorem completing_last_level_breaks_listeners:
  assumes "currentLevel s = 2"
  shows "currentLevel (js_state (advanceLevel s)) = 3 \<and>
    feedbackMessage (js_state (advanceLevel s)) = ''You completed all levels!'' \<and>
    isl (checkClick (js_state (advanceLevel s))) \<and> isl (hintClick (js_state (advanceLevel s))) \<and>
    isl (resetClick (js_state (advanceLevel s))) \<and> isl (handleStickClick i (js_state (advanceLevel s)))"
proof -
  have "js_state (advanceLevel s) = s\<lparr>pending_timers := pending_timers s - 1, currentLevel := 3,
      feedbackMessage := ''You completed all levels!''\<rparr>"
    using assms by (simp add: advanceLevel_def)
  with listeners_throw_past_last_level[of "js_state (advanceLevel s)" i] show ?thesis by simp
qed


end
