(* ===== verification/Ledger.thy ===== *)
theory Ledger
  imports Invariant Runs
begin

text \<open>
  A finer invariant of the Move Ledger on the reachable pages. The sticks on
  the board (those whose parent is a container of the puzzle area) are exactly
  the two sticks the last render created; the selected stick is one of them. The counter is 0, or 1 with every
  stick on the board in one container. A drop on a stick of another container
  (\<^verbatim>\<open>src/script.js\<close> lines 146--149) is counted only when the two sticks
  are in different containers. It moves one stick to the other's container, and
  from then on no drop is counted until a reset re-renders the level. So the
  counter never exceeds 1, and the budget of 2 of the first level is never
  reached. The invariant is proved, like \<open>game_inv\<close>, by one preservation
  lemma per listener and rule induction over \<open>reachable\<close>.
\<close>

subsection \<open>Definitions\<close>

definition sel_on_board :: "page \<Rightarrow> bool" where
  "sel_on_board s = (case selectedStick s of None \<Rightarrow> True | Some j \<Rightarrow> on_board s j)"

definition one_container :: "page \<Rightarrow> bool" where
  "one_container s \<longleftrightarrow>
     (\<forall>a \<in> set (board_sticks s). \<forall>b \<in> set (board_sticks s). parent_of s a = parent_of s b)"

definition board_ok :: "page \<Rightarrow> bool" where
  "board_ok s \<longleftrightarrow> length (board_sticks s) = 2 \<and>
     (movesMadeThisLevel s = 0 \<or> movesMadeThisLevel s = 1 \<and> one_container s)"

definition ledger_inv :: "page \<Rightarrow> bool" where
  "ledger_inv s \<longleftrightarrow> game_inv s \<and> sel_on_board s \<and> board_ok s"

subsection \<open>Lemmas\<close>

lemma parents_cong:
  assumes "map st_parent (sticks t) = map st_parent (sticks s)" "puzzleArea t = puzzleArea s"
  shows "on_board t = on_board s \<and> board_sticks t = board_sticks s \<and> parent_of t = parent_of s"
proof -
  have len: "length (sticks t) = length (sticks s)" using arg_cong[OF assms(1), of length] by simp
  have nth: "st_parent (sticks t ! k) = st_parent (sticks s ! k)" if "k < length (sticks s)" for k
    using assms(1) len that by (metis nth_map)
  have ci: "container_ids t = container_ids s" using assms(2) by (simp add: container_ids_def)
  have ob: "on_board t = on_board s"
    using len nth by (auto simp: fun_eq_iff on_board_def ci cong: option.case_cong elem_ref.case_cong)
  moreover have "board_sticks t = board_sticks s" by (simp add: board_sticks_def ob len)
  moreover have "parent_of t = parent_of s" using len nth by (simp add: fun_eq_iff parent_of_def)
  ultimately show ?thesis by blast
qed

lemma parents_map_stick_classes:
  "map st_parent (sticks (map_stick j (\<lambda>e. e\<lparr>st_classes := f (st_classes e)\<rparr>) s)) = map st_parent (sticks s)"
  by (cases "j < length (sticks s)")
     (auto intro!: nth_equalityI simp: map_stick_def nth_list_update list_update_beyond)

lemma on_board_append_child:
  assumes "on_board s j" "c \<in> set (container_ids s)"
  shows "on_board (append_child (ContainerRef c) j s) = on_board s \<and>
    board_sticks (append_child (ContainerRef c) j s) = board_sticks s"
proof -
  have ci: "container_ids (append_child (ContainerRef c) j s) = container_ids s"
    by (simp add: container_ids_def append_child_def)
  have "on_board (append_child (ContainerRef c) j s) = on_board s"
    unfolding fun_eq_iff
    using assms unfolding on_board_def ci
    by (auto simp: append_child_def map_stick_def nth_list_update cong: option.case_cong elem_ref.case_cong)
  then show ?thesis by (simp add: board_sticks_def append_child_def)
qed

lemma parent_of_append_child:
  "j < length (sticks s) \<Longrightarrow>
   parent_of (append_child p j s) k = (if k = j then Some p else parent_of s k)"
  by (simp add: parent_of_def append_child_def map_stick_def nth_list_update)

lemma set_two:
  assumes "distinct xs" "length xs \<le> 2" "i \<in> set xs" "j \<in> set xs" "i \<noteq> j"
  shows "set xs = {i, j}"
proof -
  have "{i, j} \<subseteq> set xs" using assms(3,4) by simp
  moreover have "card (set xs) \<le> card {i, j}" using assms(1,2,5) by (simp add: distinct_card)
  ultimately show ?thesis using card_seteq[of "set xs" "{i, j}"] by auto
qed

lemma distinct_board_sticks: "distinct (board_sticks s)"
  by (simp add: board_sticks_def)

lemma board_sticks_iff: "k \<in> set (board_sticks s) \<longleftrightarrow> on_board s k"
  by (auto simp: board_sticks_def on_board_def)

lemma fold_render_container_prefix:
  "\<exists>ys. sticks (fold render_container chs t) = sticks t @ ys"
proof (induction chs arbitrary: t)
  case Nil
  then show ?case by simp
next
  case (Cons ch chs)
  obtain ys where "sticks (fold render_container chs (render_container ch t)) = sticks (render_container ch t) @ ys"
    using Cons.IH by blast
  then show ?case by (simp add: render_container_sticks)
qed

lemma fold_render_container_ids:
  "c \<in> set (container_ids (fold render_container chs t)) \<Longrightarrow>
   c \<in> set (container_ids t) \<or> next_container t \<le> c"
proof (induction chs arbitrary: t)
  case Nil
  then show ?case by simp
next
  case (Cons ch chs)
  from Cons.IH[of "render_container ch t"] Cons.prems show ?case
    by (auto simp: render_container_sticks container_ids_def)
qed

lemma length_sticks_render_container:
  "length (sticks (render_container ch s)) =
     length (sticks s) + length (case template_for ch of None \<Rightarrow> [] | Some sds \<Rightarrow> sds)"
  by (simp add: render_container_sticks)

text \<open>The page a render of the first level builds: the old sticks, then one
  stick in the first container and one in the third, with fresh container numbers.\<close>

lemma render_level0_shape:
  assumes r: "renderPuzzle 0 s = Inr s'"
  shows "sticks s' = sticks s @
      [new_stick ''1'' (next_container s) 0 \<lparr>sd_type = ''vertical'', sd_top = ''25%'', sd_left = ''45%'',
         sd_height = ''50%'', sd_width = ''10%''\<rparr>,
       new_stick ''1'' (Suc (Suc (next_container s))) 0 \<lparr>sd_type = ''vertical'', sd_top = ''25%'',
         sd_left = ''45%'', sd_height = ''50%'', sd_width = ''10%''\<rparr>]"
    and "next_container s \<in> set (container_ids s')" "Suc (Suc (next_container s)) \<in> set (container_ids s')"
    and "\<And>c. c \<in> set (container_ids s') \<Longrightarrow> next_container s \<le> c"
    and "selectedStick s' = None" "movesMadeThisLevel s' = 0" "currentLevel s' = currentLevel s"
proof -
  let ?s2 = "s\<lparr>puzzleArea := [], levelDisplay := int 0 + 1, movesLeftDisplay := 2,
         movesMadeThisLevel := 0, feedbackMessage := [], selectedStick := None\<rparr>"
  have m: "puzzle_re_exec (puzzle (levels ! 0)) = Some (''1'', ''-'', ''1'', ''='', ''9'')"
    by (simp only: levels_0 puzzle_re_exec_level_0)
  have s': "s' = fold render_container [''1'', ''-'', ''1'', ''='', ''9''] ?s2"
    using renderPuzzle_level[OF level_at_0 m, of s] r by simp
  show "sticks s' = sticks s @
      [new_stick ''1'' (next_container s) 0 \<lparr>sd_type = ''vertical'', sd_top = ''25%'', sd_left = ''45%'',
         sd_height = ''50%'', sd_width = ''10%''\<rparr>,
       new_stick ''1'' (Suc (Suc (next_container s))) 0 \<lparr>sd_type = ''vertical'', sd_top = ''25%'',
         sd_left = ''45%'', sd_height = ''50%'', sd_width = ''10%''\<rparr>]"
    unfolding s' by (simp add: render_container_sticks template_for_def stickTemplates_def)
  show "next_container s \<in> set (container_ids s')" "Suc (Suc (next_container s)) \<in> set (container_ids s')"
    unfolding s' by (simp_all add: render_container_sticks container_ids_def)
  show "next_container s \<le> c" if "c \<in> set (container_ids s')" for c
    using fold_render_container_ids[of c "[''1'', ''-'', ''1'', ''='', ''9'']" ?s2] that s'
    by (simp add: container_ids_def)
  show "selectedStick s' = None" "movesMadeThisLevel s' = 0" "currentLevel s' = currentLevel s"
    unfolding s' by (simp_all only: fold_render_container_frame) simp_all
qed

lemma render_level0_board:
  assumes wf: "dom_wf s" and r: "renderPuzzle 0 s = Inr s'"
  shows "board_sticks s' = [length (sticks s), Suc (length (sticks s))]"
proof -
  note sh = render_level0_shape[OF r]
  let ?n = "length (sticks s)"
  have off: "\<not> on_board s' k" if k: "k < ?n" for k
  proof
    assume ob: "on_board s' k"
    obtain c where c: "parent_of s' k = Some (ContainerRef c)" "c \<in> set (container_ids s')"
      using on_board_parent[OF ob] by blast
    have "st_parent (sticks s ! k) = Some (ContainerRef c)"
      using c(1) k sh(1) by (simp add: parent_of_def nth_append)
    then have "c < next_container s"
      using parent_ok_wf[OF wf k] by (simp add: parent_ok_def)
    with sh(4)[OF c(2)] show False by simp
  qed
  have on: "on_board s' ?n" "on_board s' (Suc ?n)"
    using sh(2,3) by (simp_all add: on_board_def sh(1) nth_append)
  have "board_sticks s' = filter (on_board s') [0..<?n] @ filter (on_board s') [?n..<?n + 2]"
    by (simp add: board_sticks_def sh(1) upt_add_eq_append[of 0 ?n 2, simplified])
  also have "filter (on_board s') [0..<?n] = []"
    using off by (simp add: filter_empty_conv)
  also have "filter (on_board s') [?n..<?n + 2] = [?n, Suc ?n]"
    using on by (simp add: numeral_2_eq_2)
  finally show ?thesis by simp
qed

lemma board_ok_cong:
  assumes "map st_parent (sticks t) = map st_parent (sticks s)" "puzzleArea t = puzzleArea s"
    "movesMadeThisLevel t = movesMadeThisLevel s"
  shows "board_ok t = board_ok s"
  using parents_cong[OF assms(1,2)] assms(3) by (simp add: board_ok_def one_container_def)

lemma sel_on_board_cong:
  assumes "map st_parent (sticks t) = map st_parent (sticks s)" "puzzleArea t = puzzleArea s"
    "selectedStick t = selectedStick s"
  shows "sel_on_board t = sel_on_board s"
  using parents_cong[OF assms(1,2)] assms(3) by (simp add: sel_on_board_def split: option.split)

lemma checkClick_frame:
  "checkClick s = Inr s' \<Longrightarrow> sticks s' = sticks s \<and> puzzleArea s' = puzzleArea s \<and>
     movesMadeThisLevel s' = movesMadeThisLevel s \<and> selectedStick s' = selectedStick s"
  by (auto simp: checkClick_def Let_def js_throw_def split: option.splits if_splits sum.splits)

lemma hintClick_frame:
  "hintClick s = Inr s' \<Longrightarrow> sticks s' = sticks s \<and> puzzleArea s' = puzzleArea s \<and>
     movesMadeThisLevel s' = movesMadeThisLevel s \<and> selectedStick s' = selectedStick s"
  by (auto simp: hintClick_def js_throw_def split: option.splits)

lemma release_stick_frame:
  "release_stick j (Some lv) t = Inr s' \<Longrightarrow>
   map st_parent (sticks s') = map st_parent (sticks t) \<and> puzzleArea s' = puzzleArea t \<and>
   movesMadeThisLevel s' = movesMadeThisLevel t \<and> selectedStick s' = None"
  using parents_map_stick_classes[of j "class_remove ''selected''" "t\<lparr>selectedStick := None\<rparr>"]
  by (auto simp: release_stick_def)

lemma ledger_inv_listener:
  assumes "ledger_inv s" "game_inv s'" "sticks s' = sticks s" "puzzleArea s' = puzzleArea s"
    "movesMadeThisLevel s' = movesMadeThisLevel s" "selectedStick s' = selectedStick s"
  shows "ledger_inv s'"
  using assms board_ok_cong[of s' s] sel_on_board_cong[of s' s] by (simp add: ledger_inv_def)

lemma place_stick_eq:
  assumes inv: "game_inv s" and ob: "on_board s i"
  obtains c where "parent_of s i = Some (ContainerRef c)" "c \<in> set (container_ids s)"
    "place_stick j i s =
       Inr (if ''matchstick'' \<in> set (stick_classes s i) \<and> i \<noteq> j
            then append_child (ContainerRef c) j (if parent_of s j \<noteq> parent_of s i then count_move s else s)
            else s)"
proof -
  have ncont: "''digit-container'' \<notin> set (stick_classes s i) \<and> ''operator-container'' \<notin> set (stick_classes s i)"
    using inv ob by (auto simp: game_inv_iff classes_ok_def list_all_iff stick_classes_def
        stick_class_names_def on_board_def dest!: nth_mem)
  obtain c where pc: "parent_of s i = Some (ContainerRef c)" and cin: "c \<in> set (container_ids s)"
    using on_board_parent[OF ob] by blast
  show ?thesis
    by (rule that[OF pc cin]) (use ncont pc in \<open>auto simp: place_stick_def append_to_def Let_def\<close>)
qed

lemma board_ok_place:
  assumes inv: "ledger_inv s" and sel: "selectedStick s = Some j" and ob: "on_board s i"
    and pc: "parent_of s i = Some (ContainerRef c)" and cin: "c \<in> set (container_ids s)"
  shows "board_ok (if ''matchstick'' \<in> set (stick_classes s i) \<and> i \<noteq> j
            then append_child (ContainerRef c) j (if parent_of s j \<noteq> parent_of s i then count_move s else s)
            else s)"
proof -
  have bs: "board_ok s" and obj: "on_board s j"
    using inv sel by (simp_all add: ledger_inv_def sel_on_board_def)
  show ?thesis
  proof (cases "''matchstick'' \<in> set (stick_classes s i) \<and> i \<noteq> j \<and> parent_of s j \<noteq> parent_of s i")
    case True
    let ?u = "count_move s"
    let ?t = "append_child (ContainerRef c) j ?u"
    have ij: "i \<in> set (board_sticks s)" "j \<in> set (board_sticks s)" "i \<noteq> j"
      using ob obj True by (simp_all add: board_sticks_iff)
    have m0: "movesMadeThisLevel s = 0"
      using bs ij True by (auto simp: board_ok_def one_container_def)
    have u: "on_board ?u = on_board s \<and> board_sticks ?u = board_sticks s \<and> parent_of ?u = parent_of s"
      by (rule parents_cong) simp_all
    have bt: "board_sticks ?t = board_sticks s"
      using on_board_append_child[of ?u j c] u obj cin by (simp add: container_ids_def)
    have two: "set (board_sticks s) = {i, j}"
      using bs ij by (intro set_two) (simp_all add: distinct_board_sticks board_ok_def)
    have jl: "j < length (sticks ?u)" using on_board_length[OF obj] by simp
    have "parent_of ?t i = Some (ContainerRef c)" "parent_of ?t j = Some (ContainerRef c)"
      using parent_of_append_child[OF jl] ij(3) pc u by simp_all
    then have "one_container ?t"
      using bt two by (auto simp: one_container_def)
    moreover have "length (board_sticks ?t) = 2"
      using bt bs by (simp add: board_ok_def)
    ultimately have "board_ok ?t"
      using m0 by (simp add: board_ok_def append_child_def)
    with True show ?thesis by simp
  next
    case False
    have "append_child (ContainerRef c) j s = s"
      if "parent_of s j = parent_of s i"
      using that pc by (simp add: append_child_same_parent)
    with False bs show ?thesis by auto
  qed
qed

lemma handleStickClick_ledger:
  assumes inv: "ledger_inv s" and ob: "on_board s i"
  shows "\<exists>s'. handleStickClick i s = Inr s' \<and> ledger_inv s'"
proof -
  have gi: "game_inv s" using inv by (simp add: ledger_inv_def)
  obtain s' where h: "handleStickClick i s = Inr s'" and gs: "game_inv s'"
    using handleStickClick_inv[OF gi ob] by blast
  have lv: "level_at (currentLevel s) = Some (levels ! 0)" and m2: "movesAllowed (levels ! 0) = 2"
    using game_inv_level[OF gi] by simp_all
  show ?thesis
  proof (cases "selectedStick s")
    case None
    let ?f = "\<lambda>e. e\<lparr>st_classes := class_add ''selected'' (st_classes e)\<rparr>"
    show ?thesis
    proof (cases "movesMadeThisLevel s < 2")
      case True
      let ?t = "map_stick i ?f (s\<lparr>selectedStick := Some i\<rparr>)"
      have s': "s' = ?t" using h None lv True by (simp add: handleStickClick_def select_stick_def)
      have par: "map st_parent (sticks ?t) = map st_parent (sticks s)"
        using parents_map_stick_classes[of i "class_add ''selected''" "s\<lparr>selectedStick := Some i\<rparr>"] by simp
      have "board_ok ?t" using board_ok_cong[OF par] inv by (simp add: ledger_inv_def)
      moreover have "sel_on_board ?t"
        using parents_cong[OF par] ob by (simp add: sel_on_board_def)
      ultimately show ?thesis using h gs s' by (simp add: ledger_inv_def)
    next
      case False
      then have "s' = s\<lparr>feedbackMessage := ''No more moves allowed for this stick!''\<rparr>"
        using h None lv by (simp add: handleStickClick_def select_stick_def)
      then show ?thesis using h gs ledger_inv_listener[OF inv gs] by simp
    qed
  next
    case (Some j)
    obtain c where pc: "parent_of s i = Some (ContainerRef c)" and cin: "c \<in> set (container_ids s)"
      and pl: "place_stick j i s =
       Inr (if ''matchstick'' \<in> set (stick_classes s i) \<and> i \<noteq> j
            then append_child (ContainerRef c) j (if parent_of s j \<noteq> parent_of s i then count_move s else s)
            else s)"
      using place_stick_eq[OF gi ob] by blast
    let ?t = "if ''matchstick'' \<in> set (stick_classes s i) \<and> i \<noteq> j
            then append_child (ContainerRef c) j (if parent_of s j \<noteq> parent_of s i then count_move s else s)
            else s"
    have "release_stick j (Some (levels ! 0)) ?t = Inr s'"
      using h Some lv pl by (simp add: handleStickClick_def)
    then have fr: "map st_parent (sticks s') = map st_parent (sticks ?t) \<and> puzzleArea s' = puzzleArea ?t \<and>
        movesMadeThisLevel s' = movesMadeThisLevel ?t \<and> selectedStick s' = None"
      by (rule release_stick_frame)
    have "board_ok ?t" by (rule board_ok_place[OF inv Some ob pc cin])
    then have "board_ok s'" using board_ok_cong[of s' ?t] fr by simp
    then show ?thesis using h gs fr by (simp add: ledger_inv_def sel_on_board_def)
  qed
qed

lemma resetClick_ledger:
  assumes inv: "ledger_inv s"
  shows "\<exists>s'. resetClick s = Inr s' \<and> ledger_inv s'"
proof -
  have gi: "game_inv s" using inv by (simp add: ledger_inv_def)
  obtain s' where r: "resetClick s = Inr s'" and gs: "game_inv s'"
    using resetClick_inv[OF gi] by blast
  have r0: "renderPuzzle 0 s = Inr s'" using r gi by (simp add: resetClick_def game_inv_def)
  obtain t m where "renderPuzzle 0 s = Inr t" "movesMadeThisLevel t = 0" "selectedStick t = None"
    using renderPuzzle_ok[of s 0 "levels ! 0"] gi by (auto simp: game_inv_def)
  with r0 have "movesMadeThisLevel s' = 0" "selectedStick s' = None" by simp_all
  moreover have "length (board_sticks s') = 2"
    using render_level0_board[OF _ r0] gi by (simp add: game_inv_def)
  ultimately show ?thesis using r gs by (simp add: ledger_inv_def board_ok_def sel_on_board_def)
qed

lemma dispatch_ledger:
  assumes inv: "ledger_inv s" and en: "enabled s e"
  shows "\<exists>s'. dispatch e s = Inr s' \<and> ledger_inv s'"
proof -
  have gi: "game_inv s" using inv by (simp add: ledger_inv_def)
  show ?thesis
  proof (cases e)
    case (StickClick i)
    with inv en show ?thesis using handleStickClick_ledger by simp
  next
    case CheckClick
    obtain s' where "checkClick s = Inr s'" "game_inv s'"
      using checkClick_inv[OF gi] by blast
    with CheckClick show ?thesis using checkClick_frame ledger_inv_listener[OF inv] by fastforce
  next
    case ResetClick
    with inv show ?thesis using resetClick_ledger by simp
  next
    case HintClick
    obtain s' where "hintClick s = Inr s'" "game_inv s'"
      using hintClick_inv[OF gi] by blast
    with HintClick show ?thesis using hintClick_frame ledger_inv_listener[OF inv] by fastforce
  next
    case TimerFires
    with gi en show ?thesis by (simp add: game_inv_def)
  qed
qed

lemma ledger_inv_initial: "ledger_inv initial_page"
proof -
  obtain s' where r: "renderPuzzle 0 page0 = Inr s'"
    using render_level0_inv[of page0] page0_wf by (auto simp: page0_def classes_ok_def)
  then have "initial_page = s'" by (simp add: initial_page_def)
  then have "length (board_sticks initial_page) = 2"
    using render_level0_board[OF page0_wf r] by simp
  then show ?thesis
    using game_inv_initial by (simp add: ledger_inv_def board_ok_def sel_on_board_def initial_page_eq)
qed

lemma reachable_ledger_inv: "reachable s \<Longrightarrow> ledger_inv s"
proof (induction rule: reachable.induct)
  case loaded
  show ?case by (rule ledger_inv_initial)
next
  case (step s e)
  then obtain s' where "dispatch e s = Inr s'" "ledger_inv s'"
    using dispatch_ledger by blast
  then show ?case by simp
qed

subsection \<open>Properties\<close>

text \<open>C21: on every reachable page at most one move has been counted: sticks
  can only be stacked beside other sticks, so after one counted move every
  stick on the board shares one container and no later drop is counted. The
  first level's intended solution, which needs two moves, cannot be recorded.\<close>

theorem reachable_at_most_one_move:
  assumes "reachable s"
  shows "movesMadeThisLevel s \<le> 1"
  using reachable_ledger_inv[OF assms] by (auto simp: ledger_inv_def board_ok_def)

text \<open>C22: on a reachable page a click on a stick on the board with nothing
  selected always selects it: the refusal branch of lines 119--121 is never
  taken, since the counter stays below the budget.\<close>

theorem reachable_selection_never_refused:
  assumes "reachable s" and "selectedStick s = None" and "on_board s i"
  shows "\<exists>s'. handleStickClick i s = Inr s' \<and> selectedStick s' = Some i \<and>
    feedbackMessage s' = feedbackMessage s"
proof -
  have inv: "ledger_inv s" by (rule reachable_ledger_inv[OF assms(1)])
  then have "movesMadeThisLevel s < 2" and lv: "level_at (currentLevel s) = Some (levels ! 0)"
    using game_inv_level[of s] by (auto simp: ledger_inv_def board_ok_def)
  then show ?thesis
    using assms(2) by (simp add: handleStickClick_def select_stick_def)
qed

text \<open>C27: stick conservation: every reachable page has exactly two sticks on the
  board. A drop moves a stick from one container to another without creating or
  losing one, and a reset replaces the board with the two sticks of a fresh
  render.\<close>

theorem reachable_two_sticks_on_board:
  assumes "reachable s"
  shows "length (board_sticks s) = 2"
  using reachable_ledger_inv[OF assms] by (simp add: ledger_inv_def board_ok_def)

end
