(* ===== verification/Hierarchy.thy ===== *)
theory Hierarchy
  imports Interaction
begin

text \<open>
  The parent chains of the element store and the hierarchy check of
  \<open>appendChild\<close> (\<open>append_to\<close> in Interaction). The walk up the stick
  parents, \<open>stick_ancestors\<close>, is given fuel. This theory shows two things.
  The fuel \<open>append_to\<close> gives the walk (one unit per stick and one more) is
  enough whenever the walk ends at all. And the check keeps every walk finite:
  an \<open>appendChild\<close> that succeeds never closes a cycle.
\<close>

subsection \<open>Definitions\<close>

text \<open>A store whose first stick carries a container class and is selected:
  clicking it runs the container branch of line 141 with the stick itself as
  the target.\<close>

definition self_target_page :: page where
  "self_target_page =
     page0\<lparr>puzzleArea := [\<lparr>c_id = 0, c_class = ''digit-container'', c_char = ''1''\<rparr>],
       next_container := 1, selectedStick := Some 0,
       sticks := [\<lparr>st_classes = [''matchstick'', ''digit-container'', ''selected''], st_top = [], st_left = [],
                    st_width = [], st_height = [], st_originalContainer = ''1'', st_originalStickIndex = 0,
                    st_parent = Some (ContainerRef 0)\<rparr>]\<rparr>"

subsection \<open>Lemmas\<close>

lemma stick_ancestors_cong:
  "(\<And>k. parent_of t k = parent_of s k) \<Longrightarrow> stick_ancestors n t i = stick_ancestors n s i"
  by (induction n arbitrary: i) (simp_all split: option.split elem_ref.split)

text \<open>One step of the walk: with fuel left, it stops at a stick whose parent
  is not a stick, and goes up otherwise.\<close>

lemma stick_ancestors_Suc_Some:
  "stick_ancestors (Suc n) s i = Some ch \<longleftrightarrow>
     (\<exists>j ch'. parent_of s i = Some (StickRef j) \<and> stick_ancestors n s j = Some ch' \<and> ch = j # ch') \<or>
     ((\<forall>j. parent_of s i \<noteq> Some (StickRef j)) \<and> ch = [])"
  by (auto split: option.splits elem_ref.splits)

lemma stick_ancestors_mono:
  "stick_ancestors n s i = Some ch \<Longrightarrow> n \<le> m \<Longrightarrow> stick_ancestors m s i = Some ch"
proof (induction n arbitrary: m i ch)
  case 0
  then show ?case by simp
next
  case (Suc n)
  then obtain m' where m: "m = Suc m'" "n \<le> m'" by (cases m) auto
  show ?case
  proof (cases "parent_of s i")
    case (Some p)
    show ?thesis
    proof (cases p)
      case (StickRef j)
      with Suc.prems(1) Some obtain ch' where "stick_ancestors n s j = Some ch'" "ch = j # ch'"
        by auto
      with Suc.IH[of j ch' m'] m Some StickRef show ?thesis by simp
    next
      case (ContainerRef c)
      with Suc.prems(1) Some m show ?thesis by simp
    qed
  next
    case None
    with Suc.prems(1) m show ?thesis by simp
  qed
qed

text \<open>The walk is deterministic: the walk from a stick on the chain is the rest of
  the chain.\<close>

lemma stick_ancestors_suffix:
  "stick_ancestors n s i = Some ch \<Longrightarrow> ch = a @ k # b \<Longrightarrow> \<exists>m < n. stick_ancestors m s k = Some b"
proof (induction n arbitrary: i ch a)
  case 0
  then show ?case by simp
next
  case (Suc n)
  obtain j ch' where j: "parent_of s i = Some (StickRef j)" "stick_ancestors n s j = Some ch'" "ch = j # ch'"
    using Suc.prems(1,2) by (auto simp: stick_ancestors_Suc_Some simp del: stick_ancestors.simps(2))
  show ?case
  proof (cases a)
    case Nil
    with j Suc.prems(2) show ?thesis by auto
  next
    case (Cons x a')
    with j Suc.prems(2) have "ch' = a' @ k # b" by simp
    from Suc.IH[OF j(2) this] show ?thesis by (auto intro: less_SucI)
  qed
qed

lemma stick_ancestors_length:
  "stick_ancestors n s i = Some ch \<Longrightarrow> length ch < n"
proof (induction n arbitrary: i ch)
  case 0
  then show ?case by simp
next
  case (Suc n)
  then show ?case by (auto simp: stick_ancestors_Suc_Some simp del: stick_ancestors.simps(2))
qed

text \<open>A walk that ends never meets the same stick twice.\<close>

lemma stick_ancestors_distinct:
  "stick_ancestors n s i = Some ch \<Longrightarrow> distinct (i # ch)"
proof (induction n arbitrary: i ch)
  case 0
  then show ?case by simp
next
  case (Suc n)
  obtain ch' where ch: "ch = [] \<or> (\<exists>j. parent_of s i = Some (StickRef j) \<and> stick_ancestors n s j = Some ch' \<and> ch = j # ch')"
    using Suc.prems by (auto simp: stick_ancestors_Suc_Some simp del: stick_ancestors.simps(2))
  show ?case
  proof (cases "ch = []")
    case True
    then show ?thesis by simp
  next
    case False
    with ch obtain j where j: "parent_of s i = Some (StickRef j)" "stick_ancestors n s j = Some ch'"
      "ch = j # ch'" by blast
    have d: "distinct (j # ch')" by (rule Suc.IH[OF j(2)])
    have "i \<notin> set ch"
    proof
      assume "i \<in> set ch"
      then obtain a b where split: "ch = a @ i # b" by (meson split_list)
      obtain m where "m < Suc n" "stick_ancestors m s i = Some b"
        using stick_ancestors_suffix[OF Suc.prems split] by blast
      moreover have "stick_ancestors (Suc n) s i = Some (a @ i # b)" using Suc.prems split by simp
      ultimately have "b = a @ i # b"
        using stick_ancestors_mono[of m s i b "Suc n"] by simp
      then show False by (metis append_self_conv2 list.distinct(1) length_append length_Cons
          Suc_n_not_le_n le_add2)
    qed
    with d j show ?thesis by simp
  qed
qed

lemma stick_ancestors_exact:
  "stick_ancestors n s i = Some ch \<Longrightarrow> stick_ancestors (Suc (length ch)) s i = Some ch"
proof (induction n arbitrary: i ch)
  case 0
  then show ?case by simp
next
  case (Suc n)
  then show ?case by (auto simp: stick_ancestors_Suc_Some simp del: stick_ancestors.simps(2))
qed

lemma stick_ancestors_in_range:
  "stick_ancestors n s i = Some ch \<Longrightarrow> dom_wf s \<Longrightarrow> j \<in> set ch \<Longrightarrow> j < length (sticks s)"
proof (induction n arbitrary: i ch)
  case 0
  then show ?case by simp
next
  case (Suc n)
  then obtain k ch' where k: "parent_of s i = Some (StickRef k)" "stick_ancestors n s k = Some ch'"
    "ch = k # ch'"
    by (auto simp: stick_ancestors_Suc_Some simp del: stick_ancestors.simps(2))
  have il: "i < length (sticks s)" "st_parent (sticks s ! i) = Some (StickRef k)"
    using k(1) by (simp_all add: parent_of_def split: if_splits)
  have "k < length (sticks s)"
    using parent_ok_wf[OF Suc.prems(2) il(1)] il(2) by (simp add: parent_ok_def)
  with Suc.IH[OF k(2) Suc.prems(2)] Suc.prems(3) k(3) show ?case by auto
qed

lemma parent_of_append_child_other:
  "k \<noteq> i \<Longrightarrow> parent_of (append_child p i s) k = parent_of s k"
  by (cases "i < length (sticks s)")
     (simp_all add: parent_of_def append_child_def map_stick_def nth_list_update list_update_beyond)

lemma parent_of_append_child_same:
  "i < length (sticks s) \<Longrightarrow> parent_of (append_child p i s) i = Some p"
  by (simp add: parent_of_def append_child_def map_stick_def)

lemma stick_ancestors_append_child_other:
  "stick_ancestors n s k = Some anc \<Longrightarrow> i \<notin> set (k # anc) \<Longrightarrow>
   stick_ancestors n (append_child p i s) k = Some anc"
proof (induction n arbitrary: k anc)
  case 0
  then show ?case by simp
next
  case (Suc n)
  have pk: "parent_of (append_child p i s) k = parent_of s k"
    using Suc.prems(2) by (simp add: parent_of_append_child_other)
  show ?case
  proof (cases "\<exists>j. parent_of s k = Some (StickRef j)")
    case True
    then obtain j where j: "parent_of s k = Some (StickRef j)" by blast
    with Suc.prems(1) obtain anc' where "stick_ancestors n s j = Some anc'" "anc = j # anc'" by auto
    with Suc.IH[of j anc'] Suc.prems(2) j pk show ?thesis by simp
  next
    case False
    with Suc.prems(1) pk show ?thesis by (simp add: stick_ancestors_Suc_Some del: stick_ancestors.simps(2))
  qed
qed

lemma walks_end_append_child:
  assumes ends_i: "\<exists>m chi. stick_ancestors m (append_child p i s) i = Some chi"
  shows "stick_ancestors n s x = Some ch \<Longrightarrow> \<exists>m ch'. stick_ancestors m (append_child p i s) x = Some ch'"
proof (induction n arbitrary: x ch)
  case 0
  then show ?case by simp
next
  case (Suc n)
  show ?case
  proof (cases "x = i")
    case True
    with ends_i show ?thesis by blast
  next
    case False
    then have px: "parent_of (append_child p i s) x = parent_of s x"
      by (simp add: parent_of_append_child_other)
    show ?thesis
    proof (cases "\<exists>j. parent_of s x = Some (StickRef j)")
      case True
      then obtain j where j: "parent_of s x = Some (StickRef j)" by blast
      with Suc.prems obtain ch' where "stick_ancestors n s j = Some ch'" by auto
      then obtain m ch'' where "stick_ancestors m (append_child p i s) j = Some ch''"
        using Suc.IH by blast
      then have "stick_ancestors (Suc m) (append_child p i s) x = Some (j # ch'')"
        using px j by simp
      then show ?thesis by blast
    next
      case False
      then have "stick_ancestors (Suc 0) (append_child p i s) x = Some []"
        using px by (simp add: stick_ancestors_Suc_Some del: stick_ancestors.simps(2))
      then show ?thesis by blast
    qed
  qed
qed

subsection \<open>Properties\<close>

text \<open>Termination of the parent walk: on a well-formed store, whenever the
  walk from a stick ends with some fuel, it ends with the fuel \<open>append_to\<close>
  gives it, one unit per stick and one more, and with the same chain. The chain
  of a walk that ends never repeats a stick, and every stick on it exists.\<close>

lemma stick_ancestors_fuel_enough:
  assumes wf: "dom_wf s" and w: "stick_ancestors n s i = Some ch"
  shows "stick_ancestors (Suc (length (sticks s))) s i = Some ch"
proof -
  have "distinct ch" using stick_ancestors_distinct[OF w] by simp
  moreover have "set ch \<subseteq> {..<length (sticks s)}"
    using stick_ancestors_in_range[OF w wf] by auto
  ultimately have "length ch \<le> length (sticks s)"
    by (metis card_lessThan card_mono distinct_card finite_lessThan)
  then show ?thesis
    by (intro stick_ancestors_mono[OF stick_ancestors_exact[OF w]]) simp
qed

text \<open>Termination kept by \<open>appendChild\<close>: if every parent walk of a store
  ends, then every parent walk ends after an \<open>append_to\<close> that succeeds. The
  hierarchy check refuses exactly the appends that would close a cycle.\<close>

lemma append_to_keeps_walks_finite:
  assumes fin: "\<forall>x. \<exists>n ch. stick_ancestors n s x = Some ch" and ok: "append_to p i s = Inr s'"
  shows "\<forall>x. \<exists>n ch. stick_ancestors n s' x = Some ch"
proof -
  have s': "s' = append_child p i s" by (rule append_to_Inr[OF ok])
  have "\<exists>m chi. stick_ancestors m (append_child p i s) i = Some chi"
  proof (cases "i < length (sticks s)")
    case False
    then have "parent_of (append_child p i s) i = None"
      by (simp add: parent_of_def append_child_def map_stick_def)
    then have "stick_ancestors (Suc 0) (append_child p i s) i = Some []" by simp
    then show ?thesis by blast
  next
    case True
    note pi = parent_of_append_child_same[OF True, of p]
    show ?thesis
    proof (cases p)
      case (ContainerRef c)
      then have "stick_ancestors (Suc 0) (append_child p i s) i = Some []" using pi by simp
      then show ?thesis by blast
    next
      case (StickRef k)
      then obtain anc where anc: "stick_ancestors (Suc (length (sticks s))) s k = Some anc"
        and notin: "i \<notin> set (k # anc)"
        using ok by (auto simp: append_to_def js_throw_def split: option.splits if_splits)
      have "stick_ancestors (Suc (length (sticks s))) (append_child p i s) k = Some anc"
        by (rule stick_ancestors_append_child_other[OF anc notin])
      then have "stick_ancestors (Suc (Suc (length (sticks s)))) (append_child p i s) i = Some (k # anc)"
        using pi StickRef by simp
      then show ?thesis by blast
    qed
  qed
  then show ?thesis
    using walks_end_append_child fin s' by blast
qed

text \<open>C32: the error path of the container branch. When the selected stick
  \<open>j\<close> is the clicked stick \<open>i\<close> or one of its ancestors, \<open>appendChild\<close>
  throws a \<open>HierarchyRequestError\<close> out of the listener, after the move has
  been counted (line 139 runs before line 141) and before the release: the
  stick stays selected and nothing else changes.\<close>

theorem container_branch_cycle_error:
  assumes sel: "selectedStick s = Some j"
    and cls: "''digit-container'' \<in> set (stick_classes s i) \<or> ''operator-container'' \<in> set (stick_classes s i)"
    and np: "parent_of s j \<noteq> Some (StickRef i)"
    and anc: "stick_ancestors (Suc (length (sticks s))) s i = Some ch" and cyc: "j \<in> set (i # ch)"
  shows "handleStickClick i s = Inl (HierarchyRequestError, count_move s)"
proof -
  have "stick_ancestors (Suc (length (sticks (count_move s)))) (count_move s) i = Some ch"
    using anc stick_ancestors_cong[of "count_move s" s] by simp
  then have "append_to (StickRef i) j (count_move s) = Inl (HierarchyRequestError, count_move s)"
    using cyc by (simp add: append_to_def js_throw_def)
  then have "place_stick j i s = Inl (HierarchyRequestError, count_move s)"
    using cls np by (simp add: place_stick_def Let_def)
  then show ?thesis using sel by (simp add: handleStickClick_def)
qed

theorem container_branch_cycle_error_witness:
  "selectedStick self_target_page = Some 0 \<and>
   ''digit-container'' \<in> set (stick_classes self_target_page 0) \<and>
   parent_of self_target_page 0 \<noteq> Some (StickRef 0) \<and>
   stick_ancestors (Suc (length (sticks self_target_page))) self_target_page 0 = Some [] \<and>
   handleStickClick 0 self_target_page = Inl (HierarchyRequestError, count_move self_target_page) \<and>
   movesMadeThisLevel (count_move self_target_page) = 1 \<and>
   selectedStick (count_move self_target_page) = Some 0"
proof -
  have h: "selectedStick self_target_page = Some 0"
    "''digit-container'' \<in> set (stick_classes self_target_page 0)"
    "parent_of self_target_page 0 \<noteq> Some (StickRef 0)"
    "stick_ancestors (Suc (length (sticks self_target_page))) self_target_page 0 = Some []"
    by (simp_all add: self_target_page_def page0_def stick_classes_def parent_of_def)
  have m: "movesMadeThisLevel (count_move self_target_page) = 1"
    by (simp add: self_target_page_def page0_def)
  show ?thesis
    using h m container_branch_cycle_error[OF h(1) disjI1[OF h(2)] h(3,4)] by simp
qed

end
