(* ===== verification/Progress.thy ===== *)
theory Progress
  imports Ledger Hierarchy
begin

text \<open>
  Two properties of the reachable pages, proved from the invariants of
  Invariant and Ledger. First, no stick is ever appended under another stick,
  so every parent walk stops at the first step. The clickable sticks are then
  exactly the sticks directly in a container of the puzzle area, which is what
  \<open>enabled\<close> of Session takes them to be. Second, liveness: from any reachable
  page the player can always get a move counted again, by a reset and a drop of
  one fresh stick on the other.
\<close>

subsection \<open>Definitions\<close>

definition no_stick_parent :: "page \<Rightarrow> bool" where
  "no_stick_parent s \<longleftrightarrow>
     list_all (\<lambda>e. case st_parent e of Some (StickRef k) \<Rightarrow> False | _ \<Rightarrow> True) (sticks s)"

subsection \<open>Lemmas\<close>

lemma no_stick_parent_parents:
  assumes "map st_parent (sticks t) = map st_parent (sticks s)"
  shows "no_stick_parent t = no_stick_parent s"
proof -
  have "list_all (\<lambda>p. case p of Some (StickRef k) \<Rightarrow> False | _ \<Rightarrow> True) (map st_parent (sticks t)) =
        list_all (\<lambda>p. case p of Some (StickRef k) \<Rightarrow> False | _ \<Rightarrow> True) (map st_parent (sticks s))"
    using assms by simp
  then show ?thesis by (simp add: no_stick_parent_def list.pred_map comp_def)
qed

lemma no_stick_parent_append_child:
  "no_stick_parent u \<Longrightarrow> no_stick_parent (append_child (ContainerRef c) j u)"
  unfolding append_child_def no_stick_parent_def by (rule list_all_map_stick) simp_all

lemma renderPuzzle_sticks:
  "set (sticks (js_state (renderPuzzle i s))) \<subseteq>
     set (sticks s) \<union> {e. \<exists>ch cid k sd. e = new_stick ch cid k sd}"
proof (cases "level_at i")
  case None
  then show ?thesis by (simp add: renderPuzzle_def js_throw_def)
next
  case (Some lv)
  show ?thesis
  proof (cases "puzzle_re_exec (puzzle lv)")
    case None
    with Some show ?thesis by (simp add: renderPuzzle_def)
  next
    case (Some parts)
    let ?s2 = "s\<lparr>puzzleArea := [], levelDisplay := int i + 1, movesLeftDisplay := movesAllowed lv,
         movesMadeThisLevel := 0, feedbackMessage := [], selectedStick := None\<rparr>"
    have "renderPuzzle i s = Inr (fold render_container (parts_list parts) ?s2)"
      by (rule renderPuzzle_level[OF \<open>level_at i = Some lv\<close> Some])
    then show ?thesis
      using sticks_fold_render_container[of "parts_list parts" ?s2] by (simp del: parts_list.simps)
  qed
qed

lemma renderPuzzle_no_stick_parent:
  assumes "no_stick_parent s"
  shows "no_stick_parent (js_state (renderPuzzle i s))"
  using assms renderPuzzle_sticks[of i s] by (fastforce simp: no_stick_parent_def list_all_iff)

lemma handleStickClick_no_stick_parent:
  assumes inv: "ledger_inv s" and ob: "on_board s i" and nsp: "no_stick_parent s"
    and h: "handleStickClick i s = Inr s'"
  shows "no_stick_parent s'"
proof -
  have gi: "game_inv s" using inv by (simp add: ledger_inv_def)
  have lv: "level_at (currentLevel s) = Some (levels ! 0)" using game_inv_level[OF gi] by simp
  show ?thesis
  proof (cases "selectedStick s")
    case None
    then have "s' = js_state (select_stick i (levels ! 0) s)" using h lv by (simp add: handleStickClick_def)
    moreover have "map st_parent (sticks (js_state (select_stick i (levels ! 0) s))) = map st_parent (sticks s)"
      using parents_map_stick_classes[of i "class_add ''selected''" "s\<lparr>selectedStick := Some i\<rparr>"]
      by (simp add: select_stick_def)
    ultimately have "map st_parent (sticks s') = map st_parent (sticks s)" by (simp only:)
    from no_stick_parent_parents[OF this] nsp show ?thesis by (simp only:)
  next
    case (Some j)
    obtain c where pc: "parent_of s i = Some (ContainerRef c)" and "c \<in> set (container_ids s)"
      and pl: "place_stick j i s =
       Inr (if ''matchstick'' \<in> set (stick_classes s i) \<and> i \<noteq> j
            then append_child (ContainerRef c) j (if parent_of s j \<noteq> parent_of s i then count_move s else s)
            else s)"
      using place_stick_eq[OF gi ob] by blast
    let ?t = "if ''matchstick'' \<in> set (stick_classes s i) \<and> i \<noteq> j
            then append_child (ContainerRef c) j (if parent_of s j \<noteq> parent_of s i then count_move s else s)
            else s"
    have "no_stick_parent (if parent_of s j \<noteq> parent_of s i then count_move s else s)"
      using nsp by (simp add: no_stick_parent_def count_move_def)
    then have "no_stick_parent ?t"
      using nsp no_stick_parent_append_child by simp
    moreover have "release_stick j (Some (levels ! 0)) ?t = Inr s'"
      using h Some lv pl by (simp add: handleStickClick_def)
    then have "map st_parent (sticks s') = map st_parent (sticks ?t)"
      by (rule release_stick_frame[THEN conjunct1])
    ultimately show ?thesis using no_stick_parent_parents[of s' ?t] by (simp only:)
  qed
qed

lemma dispatch_no_stick_parent:
  assumes inv: "ledger_inv s" and en: "enabled s e" and nsp: "no_stick_parent s"
  shows "no_stick_parent (js_state (dispatch e s))"
proof (cases e)
  case (StickClick i)
  obtain s' where "handleStickClick i s = Inr s'" using handleStickClick_ledger[OF inv] en StickClick by auto
  with StickClick inv en nsp show ?thesis using handleStickClick_no_stick_parent by simp
next
  case CheckClick
  have gi: "game_inv s" using inv by (simp add: ledger_inv_def)
  obtain s' where "checkClick s = Inr s'" using checkClick_inv[OF gi] by blast
  with CheckClick nsp show ?thesis using checkClick_frame by (simp add: no_stick_parent_def)
next
  case ResetClick
  with nsp show ?thesis by (simp add: resetClick_def renderPuzzle_no_stick_parent)
next
  case HintClick
  have gi: "game_inv s" using inv by (simp add: ledger_inv_def)
  obtain s' where "hintClick s = Inr s'" using hintClick_inv[OF gi] by blast
  with HintClick nsp show ?thesis using hintClick_frame by (simp add: no_stick_parent_def)
next
  case TimerFires
  with inv en show ?thesis by (simp add: ledger_inv_def game_inv_def)
qed

lemma reachable_no_stick_parent_inv: "reachable s \<Longrightarrow> no_stick_parent s"
proof (induction rule: reachable.induct)
  case loaded
  show ?case by (simp add: no_stick_parent_def initial_page_eq)
next
  case (step s e)
  then show ?case using dispatch_no_stick_parent reachable_ledger_inv by blast
qed

lemma select_and_drop_counts:
  assumes rt: "reachable t" and sel: "selectedStick t = None" and m0: "movesMadeThisLevel t = 0"
    and oba: "on_board t a" and obb: "on_board t b" and ab: "a \<noteq> b"
    and pd: "parent_of t a \<noteq> parent_of t b" and cls: "''matchstick'' \<in> set (stick_classes t b)"
  shows "reachable (run [StickClick a, StickClick b] t) \<and>
    movesMadeThisLevel (run [StickClick a, StickClick b] t) = 1"
proof -
  have gt: "game_inv t" by (rule reachable_game_inv[OF rt])
  let ?add = "\<lambda>e. e\<lparr>st_classes := class_add ''selected'' (st_classes e)\<rparr>"
  let ?t1 = "map_stick a ?add (t\<lparr>selectedStick := Some a\<rparr>)"
  have h1: "handleStickClick a t = Inr ?t1"
    using sel m0 gt by (simp add: handleStickClick_def select_stick_def game_inv_def)
  have reach_t1: "reachable ?t1"
    using reachable.step[OF rt, of "StickClick a"] oba h1 by simp
  have par1: "map st_parent (sticks ?t1) = map st_parent (sticks t)"
    using parents_map_stick_classes[of a "class_add ''selected''" "t\<lparr>selectedStick := Some a\<rparr>"] by simp
  note pc1 = parents_cong[OF par1]
  have ob1: "on_board ?t1 b" using obb pc1 by simp
  have gt1: "game_inv ?t1" by (rule reachable_game_inv[OF reach_t1])
  have "stick_classes ?t1 b = stick_classes (t\<lparr>selectedStick := Some a\<rparr>) b"
    using ab by (simp only: stick_classes_map_stick) simp
  then have cls1: "''matchstick'' \<in> set (stick_classes ?t1 b)"
    using cls by (simp add: stick_classes_def)
  obtain c where pl: "place_stick a b ?t1 =
       Inr (if ''matchstick'' \<in> set (stick_classes ?t1 b) \<and> b \<noteq> a
            then append_child (ContainerRef c) a
                   (if parent_of ?t1 a \<noteq> parent_of ?t1 b then count_move ?t1 else ?t1)
            else ?t1)"
    using place_stick_eq[OF gt1 ob1] by blast
  let ?t2 = "append_child (ContainerRef c) a (count_move ?t1)"
  have pl2: "place_stick a b ?t1 = Inr ?t2" using pl cls1 pd pc1 ab by simp
  obtain t3 where h2: "handleStickClick b ?t1 = Inr t3"
    using handleStickClick_inv[OF gt1 ob1] by blast
  have "release_stick a (Some (levels ! 0)) ?t2 = Inr t3"
    using h2 pl2 gt1 gt by (simp add: handleStickClick_def game_inv_def)
  then have "movesMadeThisLevel t3 = 1" using release_stick_frame m0 by (simp add: append_child_def)
  moreover have "reachable t3"
    using reachable.step[OF reach_t1, of "StickClick b"] ob1 h2 by simp
  ultimately show ?thesis using h1 h2 by simp
qed

subsection \<open>Properties\<close>

text \<open>C28: on every reachable page no stick hangs under a stick: the parent walk
  from any stick stops at once. The container branch of the placement code,
  the only code that appends a stick to a stick, is never taken (C14).\<close>

theorem reachable_no_stick_under_stick:
  assumes "reachable s"
  shows "stick_ancestors (Suc 0) s i = Some []"
proof -
  have "no_stick_parent s" by (rule reachable_no_stick_parent_inv[OF assms])
  then have "case parent_of s i of Some (StickRef k) \<Rightarrow> False | _ \<Rightarrow> True"
    by (simp add: no_stick_parent_def list_all_length parent_of_def)
  then show ?thesis by (simp split: option.splits elem_ref.splits)
qed

text \<open>C29: liveness of the Move Ledger: from every reachable page, the reset button
  followed by a click on each of the two fresh sticks is a run of enabled events.
  It reaches a reachable page on which exactly one move has been counted. The
  game never gets stuck in a state where no move can be made.\<close>

theorem reachable_can_always_count_a_move:
  assumes r: "reachable s"
  shows "reachable (run [ResetClick, StickClick (length (sticks s)), StickClick (Suc (length (sticks s)))] s) \<and>
    movesMadeThisLevel (run [ResetClick, StickClick (length (sticks s)), StickClick (Suc (length (sticks s)))] s) = 1"
proof -
  let ?n = "length (sticks s)"
  have gi: "game_inv s" by (rule reachable_game_inv[OF r])
  obtain t where rt: "resetClick s = Inr t" using resetClick_inv[OF gi] by blast
  have rt0: "renderPuzzle 0 s = Inr t" using rt gi by (simp add: resetClick_def game_inv_def)
  note sh = render_level0_shape[OF rt0]
  have reach_t: "reachable t" using reachable.step[OF r, of ResetClick] rt by simp
  have "board_sticks t = [?n, Suc ?n]"
    using render_level0_board[OF _ rt0] gi by (simp add: game_inv_def)
  then have ob: "on_board t ?n" "on_board t (Suc ?n)" by (simp_all flip: board_sticks_iff)
  have pd: "parent_of t ?n \<noteq> parent_of t (Suc ?n)" and cls: "''matchstick'' \<in> set (stick_classes t (Suc ?n))"
    using sh(1) by (simp_all add: parent_of_def stick_classes_def nth_append new_stick_def)
  have "reachable (run [StickClick ?n, StickClick (Suc ?n)] t) \<and>
      movesMadeThisLevel (run [StickClick ?n, StickClick (Suc ?n)] t) = 1"
    by (rule select_and_drop_counts[OF reach_t sh(5,6) ob _ pd cls]) simp
  then show ?thesis using rt by simp
qed


end
