(* ===== verification/Ledger_Spec.thy ===== *)
theory Ledger_Spec
  imports Ledger
begin

text \<open>
  The Move Ledger contract of the spec (section 4.4) as an abstract
  definition, \<open>recordMove\<close>, over any type of slots, and the refinement of
  it by the stick listener of \<^verbatim>\<open>src/script.js\<close> (\<open>handleStickClick\<close>,
  lines 109--158): a click that selects a stick followed by a click on a
  stick in some container moves the selected stick exactly when
  \<open>recordMove\<close> accepts, and the counter follows the ledger, when the slot
  of a stick is read as its container. The abstraction \<open>ledger_of\<close> reads
  the ledger from the page (the counter \<open>movesMadeThisLevel\<close> and the
  level's \<open>movesAllowed\<close>). On the pages the event loop reaches, every
  click on a stick is a stutter step of the ledger or a relocation
  \<open>recordMove\<close> accepts, a forward simulation proved from the invariant
  \<open>ledger_inv\<close> of Ledger.
\<close>

subsection \<open>Definitions\<close>

record spec_ledger =
  ledger_used :: int
  ledger_allowed :: int

text \<open>\<open>recordMove(fromSlot, toSlot)\<close>: a return to the origin is accepted and
  not counted; any other move is counted and accepted while the budget lasts,
  and rejected without a change once it is spent.\<close>

definition recordMove :: "spec_ledger \<Rightarrow> 'slot \<Rightarrow> 'slot \<Rightarrow> bool \<times> spec_ledger" where
  "recordMove l from to =
     (if from = to then (True, l)
      else if ledger_used l < ledger_allowed l then (True, l\<lparr>ledger_used := ledger_used l + 1\<rparr>)
      else (False, l))"

definition ledger_of :: "level \<Rightarrow> page \<Rightarrow> spec_ledger" where
  "ledger_of lv s = \<lparr>ledger_used = movesMadeThisLevel s, ledger_allowed = movesAllowed lv\<rparr>"

subsection \<open>Lemmas\<close>

text \<open>A click on a stick of the board of a page satisfying \<open>ledger_inv\<close>
  either changes no parent and no counter, or moves the selected stick \<open>j\<close>
  from its container to another one, counting a move exactly when the
  container changes, which happens only while no move has been counted.\<close>

lemma handleStickClick_relocation:
  assumes inv: "ledger_inv s" and ob: "on_board s i" and h: "handleStickClick i s = Inr s'"
  shows "movesMadeThisLevel s' = movesMadeThisLevel s \<and> parent_of s' = parent_of s \<or>
    (\<exists>j ca cb. parent_of s j = Some (ContainerRef ca) \<and>
       parent_of s' = (parent_of s)(j := Some (ContainerRef cb)) \<and>
       movesMadeThisLevel s' = movesMadeThisLevel s + (if ca = cb then 0 else 1) \<and>
       (ca \<noteq> cb \<longrightarrow> movesMadeThisLevel s = 0))"
proof -
  have gi: "game_inv s" using inv by (simp add: ledger_inv_def)
  have lv: "level_at (currentLevel s) = Some (levels ! 0)"
    using game_inv_level[OF gi] by simp
  show ?thesis
  proof (cases "selectedStick s")
    case None
    have "parent_of (s\<lparr>feedbackMessage := m\<rparr>) = parent_of s" for m
      by (simp add: fun_eq_iff parent_of_def)
    with None show ?thesis using h lv
      by (auto simp: handleStickClick_def select_stick_def split: if_splits)
  next
    case (Some j)
    obtain c where pc: "parent_of s i = Some (ContainerRef c)" and cin: "c \<in> set (container_ids s)"
      and pl: "place_stick j i s =
       Inr (if ''matchstick'' \<in> set (stick_classes s i) \<and> i \<noteq> j
            then append_child (ContainerRef c) j (if parent_of s j \<noteq> parent_of s i then count_move s else s)
            else s)"
      using place_stick_eq[OF gi ob] by blast
    let ?t = "if ''matchstick'' \<in> set (stick_classes s i) \<and> i \<noteq> j
            then append_child (ContainerRef c) j (if parent_of s j \<noteq> parent_of s i then count_move s else s)
            else s"
    have "release_stick j (Some (levels ! 0)) ?t = Inr s'"
      using h Some lv pl by (simp add: handleStickClick_def)
    then have fr: "map st_parent (sticks s') = map st_parent (sticks ?t) \<and> puzzleArea s' = puzzleArea ?t \<and>
        movesMadeThisLevel s' = movesMadeThisLevel ?t"
      using release_stick_frame by blast
    have ps: "parent_of s' = parent_of ?t"
      using parents_cong[OF conjunct1[OF fr] conjunct1[OF conjunct2[OF fr]]] by (rule conjunct2[OF conjunct2])
    show ?thesis
    proof (cases "''matchstick'' \<in> set (stick_classes s i) \<and> i \<noteq> j")
      case False
      have "?t = s" using False by (rule if_not_P)
      then show ?thesis using fr ps by simp
    next
      case True
      have obj: "on_board s j" using inv Some by (simp add: ledger_inv_def sel_on_board_def)
      obtain cj where pj: "parent_of s j = Some (ContainerRef cj)"
        using on_board_parent[OF obj] by blast
      have jl: "j < length (sticks s)" by (rule on_board_length[OF obj])
      have m0: "movesMadeThisLevel s = 0" if "cj \<noteq> c"
      proof (rule ccontr)
        assume "movesMadeThisLevel s \<noteq> 0"
        then have "one_container s" using inv by (simp add: ledger_inv_def board_ok_def)
        moreover have "i \<in> set (board_sticks s)" "j \<in> set (board_sticks s)"
          using ob obj by (simp_all add: board_sticks_iff)
        ultimately have "parent_of s i = parent_of s j" unfolding one_container_def by blast
        with pc pj that show False by simp
      qed
      let ?u = "if parent_of s j \<noteq> parent_of s i then count_move s else s"
      have t: "?t = append_child (ContainerRef c) j ?u" using True by (rule if_P)
      have pu: "parent_of ?u = parent_of s" and mu: "movesMadeThisLevel ?u = movesMadeThisLevel s + (if cj = c then 0 else 1)"
        and ul: "j < length (sticks ?u)"
        using pc pj jl by (simp_all add: fun_eq_iff)
      have "parent_of ?t = (parent_of s)(j := Some (ContainerRef c))"
        unfolding t by (simp add: fun_eq_iff parent_of_append_child[OF ul] pu)
      moreover have "movesMadeThisLevel ?t = movesMadeThisLevel s + (if cj = c then 0 else 1)"
        unfolding t using mu by (simp add: append_child_def)
      ultimately have "parent_of s j = Some (ContainerRef cj) \<and>
          parent_of s' = (parent_of s)(j := Some (ContainerRef c)) \<and>
          movesMadeThisLevel s' = movesMadeThisLevel s + (if cj = c then 0 else 1) \<and>
          (cj \<noteq> c \<longrightarrow> movesMadeThisLevel s = 0)"
        using fr ps pj m0 by simp
      then show ?thesis by blast
    qed
  qed
qed

subsection \<open>Properties\<close>

text \<open>C30: selecting stick \<open>a\<close> and dropping it on stick \<open>b\<close> implements the
  spec's \<open>recordMove\<close> with containers as slots: the page's ledger after the
  two clicks is the one \<open>recordMove\<close> returns, and \<open>a\<close> ends in \<open>b\<close>'s
  container when the move is accepted and stays in its own when it is
  rejected, with the budget left or spent.\<close>

theorem select_drop_refines_recordMove:
  assumes sel: "selectedStick s = None" and lv: "level_at (currentLevel s) = Some lv" and ab: "a \<noteq> b"
    and pa: "parent_of s a = Some (ContainerRef ca)" and pb: "parent_of s b = Some (ContainerRef cb)"
    and ms: "''matchstick'' \<in> set (stick_classes s b)"
    and nc: "''digit-container'' \<notin> set (stick_classes s b)" "''operator-container'' \<notin> set (stick_classes s b)"
  shows "ledger_of lv (run [StickClick a, StickClick b] s) = snd (recordMove (ledger_of lv s) ca cb) \<and>
    parent_of (run [StickClick a, StickClick b] s) a =
      Some (ContainerRef (if fst (recordMove (ledger_of lv s) ca cb) then cb else ca))"
proof (cases "movesMadeThisLevel s < movesAllowed lv")
  case False
  have r: "run [StickClick a, StickClick b] s = s\<lparr>feedbackMessage := ''No more moves allowed for this stick!''\<rparr>"
    using False sel lv by (simp add: handleStickClick_refused)
  show ?thesis unfolding r using False pa
    by (auto simp: recordMove_def ledger_of_def parent_of_def split: if_splits)
next
  case True
  have al: "a < length (sticks s)" using pa by (simp add: parent_of_def split: if_splits)
  then show ?thesis using True sel lv ab pa pb ms nc
    by (auto simp: dom_simps Let_def recordMove_def ledger_of_def parent_of_def stick_classes_def
        map_stick_def nth_list_update)
qed

theorem select_drop_refines_recordMove_witness:
  "selectedStick initial_page = None \<and> level_at (currentLevel initial_page) = Some (levels ! 0) \<and>
   (0::nat) \<noteq> 1 \<and>
   parent_of initial_page 0 = Some (ContainerRef 0) \<and> parent_of initial_page 1 = Some (ContainerRef 2) \<and>
   ''matchstick'' \<in> set (stick_classes initial_page 1) \<and>
   ''digit-container'' \<notin> set (stick_classes initial_page 1) \<and>
   ''operator-container'' \<notin> set (stick_classes initial_page 1) \<and>
   ledger_of (levels ! 0) (run [StickClick 0, StickClick 1] initial_page) =
     snd (recordMove (ledger_of (levels ! 0) initial_page) (0::nat) 2) \<and>
   parent_of (run [StickClick 0, StickClick 1] initial_page) 0 =
     Some (ContainerRef (if fst (recordMove (ledger_of (levels ! 0) initial_page) (0::nat) 2) then 2 else 0))"
proof -
  have h: "selectedStick initial_page = None" "level_at (currentLevel initial_page) = Some (levels ! 0)"
    "parent_of initial_page 0 = Some (ContainerRef 0)" "parent_of initial_page 1 = Some (ContainerRef 2)"
    "''matchstick'' \<in> set (stick_classes initial_page 1)"
    "''digit-container'' \<notin> set (stick_classes initial_page 1)"
    "''operator-container'' \<notin> set (stick_classes initial_page 1)"
    by (simp_all add: initial_page_eq parent_of_def stick_classes_def level_at_def levels_def)
  note r = select_drop_refines_recordMove[OF h(1,2) zero_neq_one h(3-7)]
  show ?thesis
    by (intro conjI h zero_neq_one r[THEN conjunct1] r[THEN conjunct2])
qed

text \<open>C12: forward simulation of the spec's Move Ledger by the stick
  listener on every reachable page: a click on a stick of the board either
  changes no stick's container and leaves the ledger as it was (a stutter
  step), or relocates one stick from its container \<open>ca\<close> to a container
  \<open>cb\<close> with \<open>recordMove ca cb\<close> accepting the move and returning the new
  ledger. The code never makes a relocation the ledger would reject.\<close>

theorem reachable_click_refines_recordMove:
  assumes r: "reachable s" and en: "enabled s (StickClick i)"
  shows "(parent_of (js_state (dispatch (StickClick i) s)) = parent_of s \<and>
      ledger_of (levels ! 0) (js_state (dispatch (StickClick i) s)) = ledger_of (levels ! 0) s) \<or>
    (\<exists>k ca cb. parent_of s k = Some (ContainerRef ca) \<and>
       recordMove (ledger_of (levels ! 0) s) ca cb =
         (True, ledger_of (levels ! 0) (js_state (dispatch (StickClick i) s))) \<and>
       parent_of (js_state (dispatch (StickClick i) s)) = (parent_of s)(k := Some (ContainerRef cb)))"
proof -
  have inv: "ledger_inv s" by (rule reachable_ledger_inv[OF r])
  have ob: "on_board s i" using en by simp
  obtain s' where h: "handleStickClick i s = Inr s'"
    using handleStickClick_ledger[OF inv ob] by blast
  have a: "movesAllowed (levels ! 0) = 2" by (simp add: levels_def)
  consider (same) "movesMadeThisLevel s' = movesMadeThisLevel s \<and> parent_of s' = parent_of s"
    | (moved) j ca cb where "parent_of s j = Some (ContainerRef ca)"
        "parent_of s' = (parent_of s)(j := Some (ContainerRef cb))"
        "movesMadeThisLevel s' = movesMadeThisLevel s + (if ca = cb then 0 else 1)"
        "ca \<noteq> cb \<longrightarrow> movesMadeThisLevel s = 0"
    using handleStickClick_relocation[OF inv ob h] by blast
  then show ?thesis
  proof cases
    case same
    then show ?thesis using h by (simp add: ledger_of_def)
  next
    case moved
    then have "recordMove (ledger_of (levels ! 0) s) ca cb = (True, ledger_of (levels ! 0) s')"
      using a by (simp add: recordMove_def ledger_of_def)
    with moved h show ?thesis by auto
  qed
qed

theorem reachable_click_refines_recordMove_witness:
  "reachable initial_page \<and> enabled initial_page (StickClick 0) \<and>
   ((parent_of (js_state (dispatch (StickClick 0) initial_page)) = parent_of initial_page \<and>
      ledger_of (levels ! 0) (js_state (dispatch (StickClick 0) initial_page)) = ledger_of (levels ! 0) initial_page) \<or>
    (\<exists>k ca cb. parent_of initial_page k = Some (ContainerRef ca) \<and>
       recordMove (ledger_of (levels ! 0) initial_page) ca cb =
         (True, ledger_of (levels ! 0) (js_state (dispatch (StickClick 0) initial_page))) \<and>
       parent_of (js_state (dispatch (StickClick 0) initial_page)) = (parent_of initial_page)(k := Some (ContainerRef cb))))"
proof -
  have h: "reachable initial_page" "enabled initial_page (StickClick 0)"
    by (rule reachable.loaded) (simp add: initial_page_eq on_board_def container_ids_def)
  show ?thesis using h reachable_click_refines_recordMove[OF h] by blast
qed

end
