(* ===== verification/Scenarios.thy ===== *)
theory Scenarios
  imports Ledger
begin

text \<open>
  The spec's Scenario 2 (section 8) on the second level, \<open>3-4=1\<close>, of
  \<^verbatim>\<open>src/script.js\<close>. Rendering it (\<open>renderPuzzle 1\<close>, lines 62--106) puts one
  stick on the board, in the container of the result \<open>1\<close>, because only
  the template of \<open>'1'\<close> has sticks (lines 20--36). The inductive
  \<open>click_reach\<close> collects every page that clicks on sticks of the board
  (\<open>handleStickClick\<close>, lines 109--158) lead to from such a page; on all of
  them no move has been counted and the board still holds that one stick, so
  the scenario's two relocations cannot be made.
\<close>

subsection \<open>Definitions\<close>

text \<open>The pages a sequence of clicks on sticks of the board leads to from
  \<open>t\<close>; a click that throws leaves the page its partial effects built.\<close>

inductive click_reach :: "page \<Rightarrow> page \<Rightarrow> bool" for t :: page where
  refl: "click_reach t t"
| step: "click_reach t u \<Longrightarrow> on_board u i \<Longrightarrow> click_reach t (js_state (handleStickClick i u))"

subsection \<open>Lemmas\<close>

lemma render_level1_shape:
  assumes r: "renderPuzzle 1 s = Inr s'"
  shows "sticks s' = sticks s @
      [new_stick ''1'' (next_container s + 4) 0 \<lparr>sd_type = ''vertical'', sd_top = ''25%'', sd_left = ''45%'',
         sd_height = ''50%'', sd_width = ''10%''\<rparr>]"
    and "next_container s + 4 \<in> set (container_ids s')"
    and "\<And>c. c \<in> set (container_ids s') \<Longrightarrow> next_container s \<le> c"
    and "selectedStick s' = None" "movesMadeThisLevel s' = 0"
proof -
  let ?s2 = "s\<lparr>puzzleArea := [], levelDisplay := int 1 + 1, movesLeftDisplay := 1,
         movesMadeThisLevel := 0, feedbackMessage := [], selectedStick := None\<rparr>"
  have lv: "level_at 1 = Some (levels ! 1)" by (simp add: level_at_Some_iff)
  have m: "puzzle_re_exec (puzzle (levels ! 1)) = Some (''3'', ''-'', ''4'', ''='', ''1'')"
    by (simp only: levels_parts)
  have a: "movesAllowed (levels ! 1) = 1" by (simp add: levels_def)
  have s': "s' = fold render_container [''3'', ''-'', ''4'', ''='', ''1''] ?s2"
    using renderPuzzle_level[OF lv m, of s] r a by simp
  show "sticks s' = sticks s @
      [new_stick ''1'' (next_container s + 4) 0 \<lparr>sd_type = ''vertical'', sd_top = ''25%'', sd_left = ''45%'',
         sd_height = ''50%'', sd_width = ''10%''\<rparr>]"
    unfolding s' by (simp add: render_container_sticks template_for_def stickTemplates_def eval_nat_numeral)
  show "next_container s + 4 \<in> set (container_ids s')"
    unfolding s' by (simp add: render_container_sticks container_ids_def)
  show "next_container s \<le> c" if "c \<in> set (container_ids s')" for c
    using fold_render_container_ids[of c "[''3'', ''-'', ''4'', ''='', ''1'']" ?s2] that s'
    by (simp add: container_ids_def)
  show "selectedStick s' = None" "movesMadeThisLevel s' = 0"
    unfolding s' by (simp_all only: fold_render_container_frame) simp_all
qed

lemma render_level1_board:
  assumes wf: "dom_wf s" and r: "renderPuzzle 1 s = Inr s'"
  shows "board_sticks s' = [length (sticks s)]"
proof -
  note sh = render_level1_shape[OF r]
  let ?n = "length (sticks s)"
  have off: "\<not> on_board s' k" if k: "k < ?n" for k
  proof
    assume ob: "on_board s' k"
    obtain c where c: "parent_of s' k = Some (ContainerRef c)" "c \<in> set (container_ids s')"
      using on_board_parent[OF ob] by blast
    have "st_parent (sticks s ! k) = Some (ContainerRef c)"
      using c(1) k sh(1) by (simp add: parent_of_def nth_append)
    then have "c < next_container s"
      using parent_ok_wf[OF wf k] by (simp add: parent_ok_def)
    with sh(3)[OF c(2)] show False by simp
  qed
  have on: "on_board s' ?n"
    using sh(2) by (simp add: on_board_def sh(1) nth_append)
  have "board_sticks s' = filter (on_board s') [0..<?n] @ filter (on_board s') [?n]"
    by (simp add: board_sticks_def sh(1))
  also have "filter (on_board s') [0..<?n] = []"
    using off by (simp add: filter_empty_conv)
  finally show ?thesis using on by simp
qed

text \<open>One click on the only stick of a board, whose classes name no
  container: a selection, a refusal, or a drop on itself, which the second
  branch of \<open>place_stick\<close> ignores, followed by the release. No parent
  changes and nothing is counted.\<close>

lemma single_stick_click:
  assumes sel: "selectedStick u = None \<or> selectedStick u = Some n"
    and nc: "''digit-container'' \<notin> set (stick_classes u n)" "''operator-container'' \<notin> set (stick_classes u n)"
    and u': "u' = js_state (handleStickClick n u)"
  shows "map st_parent (sticks u') = map st_parent (sticks u) \<and> movesMadeThisLevel u' = movesMadeThisLevel u \<and>
    (selectedStick u' = None \<or> selectedStick u' = Some n) \<and>
    ''digit-container'' \<notin> set (stick_classes u' n) \<and> ''operator-container'' \<notin> set (stick_classes u' n)"
proof (cases "selectedStick u")
  case None
  then show ?thesis using nc u'
    by (auto simp: handleStickClick_def select_stick_def js_throw_def parents_map_stick_classes
        stick_classes_map_stick stick_classes_def sticks_map_stick_nth split: option.split)
next
  case (Some j)
  then have j: "j = n" using sel by simp
  have "place_stick n n u = Inr u" using nc by (simp add: place_stick_def)
  then show ?thesis using Some j nc u'
    by (auto simp: handleStickClick_def release_stick_def js_throw_def Let_def parents_map_stick_classes
        stick_classes_map_stick stick_classes_def sticks_map_stick_nth split: option.split)
qed

lemma click_reach_single_stick:
  assumes "click_reach t u" and b: "board_sticks t = [n]" and m: "movesMadeThisLevel t = 0"
    and sel: "selectedStick t = None"
    and nc: "''digit-container'' \<notin> set (stick_classes t n)" "''operator-container'' \<notin> set (stick_classes t n)"
  shows "puzzleArea u = puzzleArea t \<and> map st_parent (sticks u) = map st_parent (sticks t) \<and>
    movesMadeThisLevel u = 0 \<and> (selectedStick u = None \<or> selectedStick u = Some n) \<and>
    ''digit-container'' \<notin> set (stick_classes u n) \<and> ''operator-container'' \<notin> set (stick_classes u n)"
  using assms(1)
proof induction
  case refl
  then show ?case using m sel nc by simp
next
  case (step u i)
  have "board_sticks u = [n]" using parents_cong[of u t] step.IH b by simp
  then have i: "i = n" using step.hyps(2) board_sticks_iff[of i u] by simp
  show ?case
    using single_stick_click[of u n, OF _ _ _ HOL.refl] step.IH handleStickClick_frame(1)[of i u] i by simp
qed

subsection \<open>Properties\<close>

text \<open>C33: the spec's Scenario 2 cannot be played. After the second level
  \<open>3-4=1\<close> is rendered on a well-formed page, every page that clicks on
  the board's sticks lead to has no move counted and the single stick of the
  render as the whole board: no relocation is ever made or rejected, and the
  counter never reaches the budget of one.\<close>

theorem level1_no_move_counted:
  assumes wf: "dom_wf s" and r: "renderPuzzle 1 s = Inr t" and c: "click_reach t u"
  shows "movesMadeThisLevel u = 0 \<and> board_sticks u = [length (sticks s)]"
proof -
  note sh = render_level1_shape[OF r]
  have b: "board_sticks t = [length (sticks s)]" by (rule render_level1_board[OF wf r])
  have nc: "''digit-container'' \<notin> set (stick_classes t (length (sticks s)))"
    "''operator-container'' \<notin> set (stick_classes t (length (sticks s)))"
    by (simp_all add: stick_classes_def sh(1) new_stick_def crude_orientation_def)
  note inv = click_reach_single_stick[OF c b sh(5) sh(4) nc]
  have "board_sticks u = board_sticks t" using parents_cong[of u t] inv by simp
  then show ?thesis using inv b by simp
qed

theorem level1_no_move_counted_witness:
  "dom_wf page0 \<and> renderPuzzle 1 page0 = Inr (js_state (renderPuzzle 1 page0)) \<and>
   click_reach (js_state (renderPuzzle 1 page0))
     (js_state (handleStickClick 0 (js_state (handleStickClick 0 (js_state (renderPuzzle 1 page0)))))) \<and>
   movesMadeThisLevel
     (js_state (handleStickClick 0 (js_state (handleStickClick 0 (js_state (renderPuzzle 1 page0)))))) = 0 \<and>
   board_sticks
     (js_state (handleStickClick 0 (js_state (handleStickClick 0 (js_state (renderPuzzle 1 page0)))))) = [0]"
proof -
  let ?t = "js_state (renderPuzzle 1 page0)"
  let ?u1 = "js_state (handleStickClick 0 ?t)"
  let ?u2 = "js_state (handleStickClick 0 ?u1)"
  have l0: "length (sticks page0) = 0" by (simp add: page0_def)
  have lv: "level_at 1 = Some (levels ! 1)" by (simp add: level_at_Some_iff)
  obtain t' where "renderPuzzle 1 page0 = Inr t'"
    using renderPuzzle_ok[OF page0_wf lv] by blast
  then have r: "renderPuzzle 1 page0 = Inr ?t" by simp
  have b: "board_sticks ?t = [0]" using render_level1_board[OF page0_wf r] l0 by simp
  have c1: "click_reach ?t ?u1"
    by (rule click_reach.step[OF click_reach.refl]) (simp only: board_sticks_iff[symmetric] b list.set_intros)
  have "board_sticks ?u1 = [0]"
    using level1_no_move_counted[OF page0_wf r c1] l0 by simp
  then have c2: "click_reach ?t ?u2"
    by (intro click_reach.step[OF c1]) (simp only: board_sticks_iff[symmetric] list.set_intros)
  have "movesMadeThisLevel ?u2 = 0 \<and> board_sticks ?u2 = [0]"
    using level1_no_move_counted[OF page0_wf r c2] l0 by simp
  then show ?thesis using page0_wf r c2 by (intro conjI) simp_all
qed

end
