(* ===== verification/Spec2Isabelle.thy ===== *)
theory Spec2Isabelle
  imports Progress Ledger_Spec Scenarios
begin

text \<open>
  \<^bold>\<open>A verification development of the matchstick puzzle \<^verbatim>\<open>src/script.js\<close>.\<close>

  The program is one script for a browser page. Its parts are these:
  \<^item> the table \<open>stickTemplates\<close> (lines 20--36), the Symbol Library;
  \<^item> the catalog \<open>levels\<close> (lines 39--59);
  \<^item> \<open>renderPuzzle\<close> (lines 62--106). It parses the level's puzzle with a regular
    expression and builds the board: one container per character, and under each
    container the sticks of the character's template;
  \<^item> the stick listener \<open>handleStickClick\<close> (lines 109--158). Its first click
    selects a stick and its second drops the stick, which counts moves, then
    \<open>updatePuzzleState\<close> runs (lines 161--167);
  \<^item> the check listener (lines 170--217). It calls \<open>parseVisualEquation\<close>
    (lines 231--262), which reads the characters of the containers through
    \<open>determineCharFromSticks\<close> (lines 219--229). A success schedules the
    next level with \<open>setTimeout\<close>;
  \<^item> the reset and hint listeners (lines 266--275) and the initial load
    (line 278).
  The parts interact only through the closure variables (\<open>currentLevel\<close>,
  \<open>movesMadeThisLevel\<close>, \<open>selectedStick\<close>) and the page's DOM.

  \<^bold>\<open>Theories.\<close>
  \<^item> \<open>Prelude\<close>: the result type of a listener, \<open>js_error + 's\<close>.
    \<open>Inl\<close> is an uncaught TypeError, and it carries the state the listener
    had built when it threw, because the browser keeps those effects. The theory
    also holds \<open>nth_opt\<close>, which models an array read out of range as
    \<open>undefined\<close>, and the list lemmas the components share.
  \<^item> \<open>Js_Builtins\<close>: the built-ins the script relies on. \<open>parseInt\<close>
    follows the ECMAScript algorithm, with NaN as \<open>None\<close>. \<open>classList\<close> is
    a list of names. \<open>puzzle_re_exec\<close> is the regex of line 76: an unanchored
    search with backtracking, written in continuation-passing style.
  \<^item> \<open>Symbols\<close>: \<open>stickTemplates\<close>, the orientation test of line 93, and
    the spec's uniqueness invariant of the library.
  \<^item> \<open>Levels\<close>: the catalog, and the spec's consistency conditions on it.
  \<^item> \<open>Dom\<close>: the page as a record \<open>page\<close>.
    \<^item> The closure variables are fields of it.
    \<^item> A stick is an element of the list \<open>sticks\<close>; its index is its identity.
    \<^item> A stick's \<open>parentNode\<close> is a reference to a container or to another
      stick.
    \<^item> \<open>puzzleArea\<close> is the list of container elements.
    \<^item> The text areas, the console and the count of pending timers are fields.
    \<open>renderPuzzle\<close> is translated branch by branch, with its error path for a
    missing level.
  \<^item> \<open>Interaction\<close>: \<open>handleStickClick\<close>, split into its three branches
    \<open>select_stick\<close>, \<open>place_stick\<close> and \<open>release_stick\<close>.
  \<^item> \<open>Checking\<close>: the matcher, \<open>parseVisualEquation\<close>, the check listener
    \<open>checkClick\<close> and the timer callback \<open>advanceLevel\<close>.
  \<^item> \<open>Session\<close>: the reset and hint listeners and \<open>initial_page\<close>. An event
    is a click on a stick on the board, a click on a button, or the firing of a
    pending timer; \<open>dispatch\<close> runs the event's listener. The inductive
    \<open>reachable\<close> is the set of pages the loaded page reaches, one event at a
    time: listeners run to completion (spec section 5).
  \<^item> \<open>Invariant\<close>: the invariant \<open>game_inv\<close> of reachable pages. Each
    listener preserves it (one lemma per listener), and \<open>reachable_game_inv\<close>
    proves it by rule induction. It says:
    \<^item> the DOM is well formed;
    \<^item> no stick carries a container class;
    \<^item> the move ledger is within the budget, and the display agrees with it;
    \<^item> the level is the first, no timer is pending, and the container
      characters are those of \<open>1-1=9\<close>;
    \<^item> the empty containers hold no sticks.
  \<^item> \<open>Runs\<close>: sequences of events applied with \<open>run\<close>. It shows how the
    Move Ledger behaves over repeated clicks, and how the check listener and
    its timer interleave. The pages need not be reachable. Any click on an
    existing stick keeps the element store well formed
    (\<open>handleStickClick_dom_wf\<close>), so clicks made between a successful
    check and its timer are discarded by the advance (C34).
  \<^item> \<open>Ledger\<close>: a finer invariant \<open>ledger_inv\<close> of the reachable pages.
    \<^item> At most two sticks are on the board, and the selected stick is one of
      them.
    \<^item> The counter is 0, or it is 1 and every stick on the board is in one
      container.
    Its proof has the same structure as \<open>game_inv\<close>'s: one preservation
    lemma per listener.
  \<^item> \<open>Hierarchy\<close>: the parent chains of the element store. \<open>appendChild\<close>
    is modelled as \<open>append_to\<close> of Interaction, with the DOM's hierarchy check:
    a stick is never appended under itself or under one of its descendants.
    The ancestor walk \<open>stick_ancestors\<close> is given fuel; the lemmas
    \<open>stick_ancestors_fuel_enough\<close> and \<open>append_to_keeps_walks_finite\<close>
    show the fuel enough and the walks kept finite by the check. The theory
    also holds the error path of the container branch (C32).
  \<^item> \<open>Progress\<close>: on reachable pages no stick is nested in a stick (C28).
    From every reachable page a move can be counted again (C29).
  \<^item> \<open>Ledger_Spec\<close>: the spec's Move Ledger contract \<open>recordMove\<close>
    (section 4.4) over any type of slots, the abstraction \<open>ledger_of\<close> of a
    page's counter and budget, and the refinement of the contract by a
    select-then-drop pair of clicks, with containers as slots (C30). On
    reachable pages every stick click is a stutter step of the ledger or a
    relocation \<open>recordMove\<close> accepts: a forward simulation, proved from
    the invariant \<open>ledger_inv\<close> of Ledger (C12).
  \<^item> \<open>Scenarios\<close>: the inductive \<open>click_reach\<close> of pages that clicks on
    board sticks reach from a given page. Rule induction shows that on the
    second level, \<open>3-4=1\<close>, which renders a single stick, no move is ever
    counted (C33).
  \<^item> this theory: the properties that span components, stated over
    \<open>reachable\<close> and the listeners.

  \<^bold>\<open>What the properties show.\<close>
  \<^item> The script cannot be won (C1--C6, C10, C11, C13, C14):
    \<^item> the check compares with a hard-coded \<open>1 + 1 = 2\<close>;
    \<^item> the characters it reads are those stored at render time, never
      re-derived from the sticks;
    \<^item> sticks can only be dropped onto other sticks, so they never reach an
      empty container.
  \<^item> It never throws on a reachable page (C4).
  \<^item> Its move ledger stays within the budget (C3, C7--C9). It charges nothing
    for a stick returned to its container, however often this is repeated
    (C18).
  \<^item> On the first level at most one move is ever counted (C21), so the budget
    check never refuses a selection (C22).
  \<^item> Two latent defects would appear if a level could be solved:
    \<^item> each check click schedules its own advance, so two clicks skip a level
      (C19);
    \<^item> past the last level every listener throws (C20);
    \<^item> the board stays live until the timer fires, and the moves made
      then are thrown away by the advance (C34).
  \<^item> The backtracking regex reads the puzzle greedily (C15), it accepts more
    shapes than the spec's grammar (C24), and line 85 classes its captures by
    position, digits and operators, on every string it accepts (C16).
  \<^item> Rendering and reading back a level gives its puzzle (C23).
  \<^item> Exactly two sticks are on the board of every reachable page (C27).
  \<^item> The timer callback loads the next level as a fresh load would (C25).
  \<^item> A level index past the catalog wipes the board and then throws (C26).
  \<^item> Sticks are never nested on reachable pages (C28).
  \<^item> Liveness: a reset and two clicks always count a move again (C29).
  \<^item> Select-then-drop refines the spec's \<open>recordMove\<close>, with the budget left
    and spent (C30), and on reachable pages each stick click simulates a
    step of the spec's ledger (C12).
  \<^item> The check listener's two readings of the board agree when the fourth
    container shows \<open>=\<close> (C31).
  \<^item> The hierarchy error of the container branch leaves the move counted and
    the stick selected (C32).
  \<^item> The spec's Scenario 2 cannot be played on the second level: it has one
    stick and no move is ever counted (C33).
  \<^item> The data tables are checked against the spec by the lemmas
    \<open>levels_consistent\<close> and \<open>stickTemplates_ambiguous\<close>. The orientation test
    compares strings, and it agrees with the comparison of the lengths exactly
    when the two percentages have as many digits (C17); with \<open>40%\<close> high
    and \<open>5%\<close> wide it gives \<open>horizontal\<close>.

  \<^bold>\<open>Bounds and termination.\<close> Every loop of the script is a loop over a
  finite list: the characters of the puzzle, the sticks of a template, and the
  digits of a number. Each is modelled by structural recursion (\<open>fold\<close>,
  \<open>map\<close>, \<open>primrec\<close>), so every such definition is total. The one loop
  of the browser the model needs is the walk up the parents in
  \<open>appendChild\<close>'s hierarchy check. It is given fuel: one unit per stick and
  one more. The lemma \<open>stick_ancestors_fuel_enough\<close> shows that this fuel
  is enough on every well-formed store where the walk ends, and on the pages
  the script reaches no stick has a stick as parent (C28), so every walk stops
  at once.
  The integers of the script are small: digits and move counts. They are
  modelled as \<open>int\<close>, as JavaScript's doubles are exact in that range.

  \<^bold>\<open>Not modelled.\<close>
  \<^item> CSS and layout: the style strings are kept but never rendered.
  \<^item> The order of the children of a container: no line of the script reads
    it.
  \<^item> The delay of \<open>setTimeout\<close>: a pending timer is a counter, and its
    firing is an event.
  \<^item> Number-to-string conversion of the displays: the displays hold the
    numbers.
  \<^item> Click events on elements without listeners. A click on the container,
    the body or the background goes nowhere.
  \<^item> Event bubbling. A click on a stick nested in another stick would also run
    the outer stick's listener. Nesting needs the container branch, and
    C14 and C28 show that it never occurs, so \<open>enabled\<close> takes the clickable
    sticks to be those directly in a container.
  \<^item> Arithmetic on \<open>Number\<close> above \<open>2^53\<close>: integers are exact. The script
    only meets single digits.
\<close>

subsection \<open>Pages used by the witnesses\<close>

definition moved_page :: page where
  "moved_page = js_state (dispatch (StickClick 1) (js_state (dispatch (StickClick 0) initial_page)))"

definition selected_page :: page where
  "selected_page = js_state (dispatch (StickClick 0) initial_page)"

definition level1_solved_page :: page where
  "level1_solved_page =
     initial_page\<lparr>currentLevel := 1, movesMadeThisLevel := 1,
       puzzleArea := [\<lparr>c_id = 5, c_class = ''digit-container'', c_char = ''5''\<rparr>,
                      \<lparr>c_id = 6, c_class = ''operator-container'', c_char = ''-''\<rparr>,
                      \<lparr>c_id = 7, c_class = ''digit-container'', c_char = ''4''\<rparr>,
                      \<lparr>c_id = 8, c_class = ''operator-container'', c_char = ''=''\<rparr>,
                      \<lparr>c_id = 9, c_class = ''digit-container'', c_char = ''1''\<rparr>]\<rparr>"

text \<open>The loaded page with the board showing \<open>1+1=2\<close>: a solved first level.\<close>

definition solved_board_page :: page where
  "solved_board_page =
     initial_page\<lparr>puzzleArea := [\<lparr>c_id = 0, c_class = ''digit-container'', c_char = ''1''\<rparr>,
                      \<lparr>c_id = 1, c_class = ''operator-container'', c_char = ''+''\<rparr>,
                      \<lparr>c_id = 2, c_class = ''digit-container'', c_char = ''1''\<rparr>,
                      \<lparr>c_id = 3, c_class = ''operator-container'', c_char = ''=''\<rparr>,
                      \<lparr>c_id = 4, c_class = ''digit-container'', c_char = ''2''\<rparr>]\<rparr>"

subsection \<open>Lemmas\<close>

lemma selected_page_eq:
  "selected_page = initial_page\<lparr>selectedStick := Some 0,
     sticks := [(sticks initial_page ! 0)\<lparr>st_classes := [''matchstick'', ''vertical'', ''selected'']\<rparr>,
                sticks initial_page ! 1]\<rparr>"
  by (simp add: selected_page_def initial_page_eq handleStickClick_def select_stick_def map_stick_def
      class_add_def)

lemma moved_page_eq:
  "moved_page = initial_page\<lparr>movesMadeThisLevel := 1, movesLeftDisplay := 1,
     sticks := [(sticks initial_page ! 0)\<lparr>st_parent := Some (ContainerRef 2)\<rparr>, sticks initial_page ! 1],
     console_log := [''Puzzle state needs to be re-evaluated based on stick positions.'']\<rparr>"
  by (simp add: moved_page_def selected_page_eq[unfolded selected_page_def] initial_page_eq dom_simps
      Let_def map_stick_def parent_of_def stick_classes_def count_move_def updatePuzzleState_def
      class_remove_def class_add_def)

lemma selected_page_reachable: "reachable selected_page"
  unfolding selected_page_def
  by (rule reachable.step[OF reachable.loaded]) (simp add: initial_page_eq on_board_def container_ids_def)

lemma moved_page_reachable: "reachable moved_page"
proof -
  have "enabled selected_page (StickClick 1)"
    by (simp add: selected_page_eq initial_page_eq on_board_def container_ids_def)
  from reachable.step[OF selected_page_reachable this] show ?thesis
    by (simp add: moved_page_def selected_page_def)
qed

text \<open>C1: on every reachable page the check button reports failure and
  schedules no advance: the check compares the rendered characters with
  \<open>1 + 1 = 2\<close>, the characters are never re-derived from the sticks, and the
  first level renders \<open>1 - 1 = 9\<close>. No level of the game can be solved.\<close>
theorem check_never_succeeds:
  assumes "reachable s"
  shows "\<exists>s'. checkClick s = Inr s' \<and> feedbackMessage s' = ''Not quite right. Try again!'' \<and>
    pending_timers s' = 0"
proof -
  have "game_inv s" using assms by (rule reachable_game_inv)
  then obtain s' where "checkClick s = Inr s'" "game_inv s'" "feedbackMessage s' = ''Not quite right. Try again!''"
    using checkClick_inv by blast
  then show ?thesis by (auto simp: game_inv_def)
qed

theorem check_never_succeeds_witness:
  "reachable moved_page \<and>
   (\<exists>s'. checkClick moved_page = Inr s' \<and> feedbackMessage s' = ''Not quite right. Try again!'' \<and>
     pending_timers s' = 0)"
  using moved_page_reachable check_never_succeeds[OF moved_page_reachable] by blast

text \<open>C2: every reachable page stays on the first level with no advance pending,
  and its containers keep the characters of \<open>"1-1=9"\<close>.\<close>
theorem reachable_stays_on_first_level:
  assumes "reachable s"
  shows "currentLevel s = 0 \<and> pending_timers s = 0 \<and>
    map c_char (puzzleArea s) = [''1'', ''-'', ''1'', ''='', ''9'']"
  using reachable_game_inv[OF assms] by (simp add: game_inv_iff level0_chars_def)

theorem reachable_stays_on_first_level_witness:
  "reachable moved_page \<and> currentLevel moved_page = 0 \<and> pending_timers moved_page = 0 \<and>
   map c_char (puzzleArea moved_page) = [''1'', ''-'', ''1'', ''='', ''9'']"
  using moved_page_reachable reachable_stays_on_first_level[OF moved_page_reachable] by blast

text \<open>C3: the move counter of a reachable page stays between 0 and the level's
  budget, and the moves-left display shows the budget minus the counter.\<close>
theorem reachable_moves_within_budget:
  assumes "reachable s"
  shows "0 \<le> movesMadeThisLevel s \<and> movesMadeThisLevel s \<le> movesAllowed (levels ! currentLevel s) \<and>
    movesLeftDisplay s = movesAllowed (levels ! currentLevel s) - movesMadeThisLevel s"
  using reachable_game_inv[OF assms] by (simp add: game_inv_iff)

theorem reachable_moves_within_budget_witness:
  "reachable moved_page \<and> movesMadeThisLevel moved_page = 1 \<and>
   0 \<le> movesMadeThisLevel moved_page \<and>
   movesMadeThisLevel moved_page \<le> movesAllowed (levels ! currentLevel moved_page) \<and>
   movesLeftDisplay moved_page = movesAllowed (levels ! currentLevel moved_page) - movesMadeThisLevel moved_page"
  using moved_page_reachable reachable_moves_within_budget[OF moved_page_reachable]
  by (simp add: moved_page_eq)

text \<open>C4: on a reachable page every listener the user can trigger (a click on a
  stick on the board or on a button) runs to completion without an uncaught
  exception.\<close>
theorem reachable_no_uncaught_error:
  assumes "reachable s" and "enabled s e"
  shows "\<exists>s'. dispatch e s = Inr s'"
  using dispatch_inv[OF reachable_game_inv[OF assms(1)] assms(2)] by blast

theorem reachable_no_uncaught_error_witness:
  "reachable selected_page \<and> enabled selected_page (StickClick 1) \<and>
   (\<exists>s'. dispatch (StickClick 1) selected_page = Inr s')"
proof -
  have e: "enabled selected_page (StickClick 1)"
    by (simp add: selected_page_eq initial_page_eq on_board_def container_ids_def)
  show ?thesis using selected_page_reachable e reachable_no_uncaught_error[OF selected_page_reachable e]
    by blast
qed

text \<open>C5: every stick on the board of a reachable page sits in a container
  showing \<open>'1'\<close>: a stick can only be dropped on another stick, so the
  operator, equals and result containers, which start empty, never receive
  one, and the intended move of the first level (a stick into the \<open>'-'\<close>)
  cannot be made.\<close>
theorem sticks_never_reach_empty_containers:
  assumes "reachable s" and "on_board s i"
  shows "\<exists>ct \<in> set (puzzleArea s). st_parent (sticks s ! i) = Some (ContainerRef (c_id ct)) \<and>
    c_char ct = ''1''"
proof -
  have inv: "game_inv s" using assms(1) by (rule reachable_game_inv)
  obtain c where c: "parent_of s i = Some (ContainerRef c)" "c \<in> set (container_ids s)"
    using on_board_parent[OF assms(2)] by blast
  then obtain ct where ct: "ct \<in> set (puzzleArea s)" "c_id ct = c"
    by (auto simp: container_ids_def)
  have par: "st_parent (sticks s ! i) = Some (ContainerRef (c_id ct))"
    using c ct on_board_length[OF assms(2)] by (simp add: parent_of_def)
  have "sticks s ! i \<in> set (sticks s)" using on_board_length[OF assms(2)] by simp
  then have "c_char ct = ''1''"
    using inv ct par by (auto simp: game_inv_iff empty_ok_def list_all_iff)
  with ct par show ?thesis by blast
qed

theorem sticks_never_reach_empty_containers_witness:
  "reachable moved_page \<and> on_board moved_page 0 \<and>
   (\<exists>ct \<in> set (puzzleArea moved_page). st_parent (sticks moved_page ! 0) = Some (ContainerRef (c_id ct)) \<and>
     c_char ct = ''1'')"
proof -
  have ob: "on_board moved_page 0"
    by (simp add: moved_page_eq initial_page_eq on_board_def container_ids_def)
  show ?thesis using moved_page_reachable ob sticks_never_reach_empty_containers[OF moved_page_reachable ob]
    by blast
qed

text \<open>C6: a click on a stick never changes the equation the check reads: the
  matcher returns the stored \<open>data-char\<close>, not the symbol the sticks form.\<close>
theorem click_keeps_visual_equation:
  "parseVisualEquation (js_state (handleStickClick i s)) = parseVisualEquation s"
  by (rule parseVisualEquation_cong) (rule handleStickClick_frame)

text \<open>C14: on a reachable page no stick on the board carries a container class,
  so the first branch of the placement code (line 137) is never taken.\<close>
theorem container_branch_unreachable:
  assumes "reachable s" and "on_board s i"
  shows "''digit-container'' \<notin> set (stick_classes s i) \<and> ''operator-container'' \<notin> set (stick_classes s i)"
proof -
  have "classes_ok s" using reachable_game_inv[OF assms(1)] by (simp add: game_inv_iff)
  then show ?thesis
    using on_board_length[OF assms(2)]
    by (auto simp: classes_ok_def list_all_iff stick_classes_def stick_class_names_def dest!: nth_mem)
qed

theorem container_branch_unreachable_witness:
  "reachable selected_page \<and> on_board selected_page 1 \<and>
   ''digit-container'' \<notin> set (stick_classes selected_page 1) \<and>
   ''operator-container'' \<notin> set (stick_classes selected_page 1)"
proof -
  have ob: "on_board selected_page 1"
    by (simp add: selected_page_eq initial_page_eq on_board_def container_ids_def)
  show ?thesis using selected_page_reachable ob container_branch_unreachable[OF selected_page_reachable ob]
    by blast
qed

text \<open>The evaluation never reads the equals sign's container: replacing it
  changes nothing.\<close>
theorem visual_equation_ignores_equals_slot:
  "parseVisualEquation (s\<lparr>puzzleArea := (puzzleArea s)[3 := c]\<rparr>) = parseVisualEquation s"
  by (simp add: parseVisualEquation_def child_at_def nth_opt_update_other)

text \<open>C11: refinement of the spec's \<open>isArithmeticallyTrue\<close>: when the equals
  slot shows \<open>=\<close> and no slot is empty, the code's \<open>isValid\<close> is the
  spec's truth of the equation, for both operators and any operands.\<close>
theorem visual_equation_refines_spec:
  assumes chars: "map c_char (puzzleArea s) = [a, oc, b, ''='', c]"
    and ne: "a \<noteq> []" "oc \<noteq> []" "b \<noteq> []" "c \<noteq> []"
  shows "\<exists>eq. parseVisualEquation s = Inr eq \<and>
    ve_isValid eq = spec_true_equation (map c_char (puzzleArea s))"
  using parseVisualEquation_chars[OF chars ne] chars
  by (auto simp: spec_true_equation_def arith_true_def op_func_def split: option.splits)

theorem visual_equation_refines_spec_witness:
  "map c_char (puzzleArea (initial_page\<lparr>puzzleArea := [\<lparr>c_id = 0, c_class = ''d'', c_char = ''9''\<rparr>,
       \<lparr>c_id = 1, c_class = ''o'', c_char = ''+''\<rparr>, \<lparr>c_id = 2, c_class = ''d'', c_char = ''9''\<rparr>,
       \<lparr>c_id = 3, c_class = ''o'', c_char = ''=''\<rparr>, \<lparr>c_id = 4, c_class = ''d'', c_char = ''18''\<rparr>]\<rparr>))
     = [''9'', ''+'', ''9'', ''='', ''18''] \<and>
   (\<exists>eq. parseVisualEquation (initial_page\<lparr>puzzleArea := [\<lparr>c_id = 0, c_class = ''d'', c_char = ''9''\<rparr>,
       \<lparr>c_id = 1, c_class = ''o'', c_char = ''+''\<rparr>, \<lparr>c_id = 2, c_class = ''d'', c_char = ''9''\<rparr>,
       \<lparr>c_id = 3, c_class = ''o'', c_char = ''=''\<rparr>, \<lparr>c_id = 4, c_class = ''d'', c_char = ''18''\<rparr>]\<rparr>) = Inr eq \<and>
     ve_isValid eq = spec_true_equation [''9'', ''+'', ''9'', ''='', ''18''] \<and> ve_isValid eq)"
proof -
  let ?s = "initial_page\<lparr>puzzleArea := [\<lparr>c_id = 0, c_class = ''d'', c_char = ''9''\<rparr>,
       \<lparr>c_id = 1, c_class = ''o'', c_char = ''+''\<rparr>, \<lparr>c_id = 2, c_class = ''d'', c_char = ''9''\<rparr>,
       \<lparr>c_id = 3, c_class = ''o'', c_char = ''=''\<rparr>, \<lparr>c_id = 4, c_class = ''d'', c_char = ''18''\<rparr>]\<rparr>"
  have ch: "map c_char (puzzleArea ?s) = [''9'', ''+'', ''9'', ''='', ''18'']" by simp
  obtain eq where eq: "parseVisualEquation ?s = Inr eq"
    "ve_isValid eq = spec_true_equation (map c_char (puzzleArea ?s))"
    using visual_equation_refines_spec[OF ch] by auto
  have "spec_true_equation [''9'', ''+'', ''9'', ''='', ''18'']"
    by (simp add: spec_true_equation_def arith_true_def parseInt_def js_simps Let_def)
  with ch eq show ?thesis by auto
qed

text \<open>C13: the check declares success exactly when the board reads
  \<open>1 + 1 = 2\<close> within the budget, whatever the current level; the level's own
  \<open>solution\<close> is not consulted.\<close>
theorem check_target_hardcoded:
  assumes "level_at (currentLevel s) = Some lv" and "movesMadeThisLevel s \<le> movesAllowed lv"
    and "parseVisualEquation s = Inr eq"
  shows "\<exists>s'. checkClick s = Inr s' \<and>
    (feedbackMessage s' = ''Correct! Well done!'' \<longleftrightarrow> ve_nums eq = Some (1, ''+'', 1, 2))"
  using assms by (auto simp: checkClick_def Let_def)

theorem check_target_hardcoded_witness:
  "level_at (currentLevel level1_solved_page) = Some (levels ! 1) \<and>
   movesMadeThisLevel level1_solved_page \<le> movesAllowed (levels ! 1) \<and>
   parseVisualEquation level1_solved_page =
     Inr \<lparr>ve_nums = Some (5, ''-'', 4, 1), ve_isValid = True, ve_str = ''5-4=1''\<rparr> \<and>
   solution (levels ! 1) 5 ''-'' 4 1 \<and>
   (\<exists>s'. checkClick level1_solved_page = Inr s' \<and> feedbackMessage s' \<noteq> ''Correct! Well done!'')"
proof -
  have h: "level_at (currentLevel level1_solved_page) = Some (levels ! 1)"
    "movesMadeThisLevel level1_solved_page \<le> movesAllowed (levels ! 1)"
    "parseVisualEquation level1_solved_page =
       Inr \<lparr>ve_nums = Some (5, ''-'', 4, 1), ve_isValid = True, ve_str = ''5-4=1''\<rparr>"
    by (simp_all add: level1_solved_page_def level_at_def nth_opt_def levels_def
        parseVisualEquation_def child_at_def parseInt_def js_simps Let_def)
  have "solution (levels ! 1) 5 ''-'' 4 1" by (simp add: levels_def)
  with h check_target_hardcoded[OF h] show ?thesis by auto
qed

text \<open>C10: reset zeroes the counter and the selection, keeps the level, and
  rebuilds the board exactly as a fresh load of the level builds it.\<close>
theorem reset_restores_fresh_layout:
  assumes wf: "dom_wf s" and lv: "level_at (currentLevel s) = Some lv"
  shows "\<exists>s'. resetClick s = Inr s' \<and> movesMadeThisLevel s' = 0 \<and> selectedStick s' = None \<and>
    currentLevel s' = currentLevel s \<and>
    layout s' = layout (js_state (renderPuzzle (currentLevel s) page0))"
proof -
  obtain s' m where s': "renderPuzzle (currentLevel s) s = Inr s'" "puzzle_re_exec (puzzle lv) = Some m"
      "layout s' = render_layout (parts_list m)" "movesMadeThisLevel s' = 0" "selectedStick s' = None"
      "currentLevel s' = currentLevel s"
    by (rule renderPuzzle_ok[OF wf lv])
  obtain p m' where p: "renderPuzzle (currentLevel s) page0 = Inr p" "puzzle_re_exec (puzzle lv) = Some m'"
      "layout p = render_layout (parts_list m')"
    by (rule renderPuzzle_ok[OF page0_wf lv])
  from s'(2) p(2) have "m' = m" by simp
  with s' p show ?thesis by (simp add: resetClick_def)
qed

theorem reset_restores_fresh_layout_witness:
  "dom_wf moved_page \<and> level_at (currentLevel moved_page) = Some (levels ! 0) \<and>
   layout moved_page \<noteq> layout initial_page \<and>
   (\<exists>s'. resetClick moved_page = Inr s' \<and> movesMadeThisLevel s' = 0 \<and> selectedStick s' = None \<and>
     currentLevel s' = currentLevel moved_page \<and>
     layout s' = layout (js_state (renderPuzzle (currentLevel moved_page) page0)))"
proof -
  have h: "dom_wf moved_page" "level_at (currentLevel moved_page) = Some (levels ! 0)"
    by (simp_all add: moved_page_eq initial_page_eq dom_wf_def container_ids_def parent_ok_def)
  have "layout moved_page \<noteq> layout initial_page"
    by (simp add: moved_page_eq initial_page_eq layout_def)
  with h reset_restores_fresh_layout[OF h] show ?thesis by blast
qed

text \<open>Witnesses of the Move Ledger claims of Interaction.\<close>

theorem place_same_container_free_witness:
  "selectedStick (js_state (handleStickClick 0 moved_page)) = Some 0 \<and>
   (\<exists>s'. handleStickClick 1 (js_state (handleStickClick 0 moved_page)) = Inr s' \<and>
     movesMadeThisLevel s' = 1 \<and> selectedStick s' = None)"
proof -
  let ?s = "js_state (handleStickClick 0 moved_page)"
  have s: "?s = moved_page\<lparr>selectedStick := Some 0,
     sticks := [(sticks moved_page ! 0)\<lparr>st_classes := [''matchstick'', ''vertical'', ''selected'']\<rparr>,
                sticks moved_page ! 1]\<rparr>"
    by (simp add: moved_page_eq initial_page_eq handleStickClick_def select_stick_def map_stick_def
        class_add_def)
  have h: "selectedStick ?s = Some 0" "parent_of ?s 0 = parent_of ?s 1" "parent_of ?s 1 = Some (ContainerRef 2)"
    "''digit-container'' \<notin> set (stick_classes ?s 1)" "''operator-container'' \<notin> set (stick_classes ?s 1)"
    "level_at (currentLevel ?s) = Some (levels ! 0)"
    unfolding s by (simp_all add: moved_page_eq initial_page_eq parent_of_def stick_classes_def)
  obtain s' where "handleStickClick 1 ?s = Inr s'" "movesMadeThisLevel s' = movesMadeThisLevel ?s"
    "selectedStick s' = None"
    using place_same_container_free[OF h] by blast
  moreover have "movesMadeThisLevel ?s = 1" unfolding s by (simp add: moved_page_eq)
  ultimately show ?thesis using h(1) by auto
qed

theorem place_other_container_counts_witness:
  "\<exists>s'. handleStickClick 1 selected_page = Inr s' \<and> movesMadeThisLevel s' = 1 \<and>
     parent_of s' 0 = Some (ContainerRef 2) \<and> selectedStick s' = None \<and> movesLeftDisplay s' = 1"
proof -
  have h: "selectedStick selected_page = Some 0" "(0::nat) \<noteq> 1"
    "''matchstick'' \<in> set (stick_classes selected_page 1)"
    "''digit-container'' \<notin> set (stick_classes selected_page 1)"
    "''operator-container'' \<notin> set (stick_classes selected_page 1)"
    "parent_of selected_page 1 = Some (ContainerRef 2)"
    "parent_of selected_page 0 \<noteq> Some (ContainerRef 2)" "0 < length (sticks selected_page)"
    "level_at (currentLevel selected_page) = Some (levels ! 0)"
    by (simp_all add: selected_page_eq initial_page_eq parent_of_def stick_classes_def)
  have m: "movesMadeThisLevel selected_page = 0" by (simp add: selected_page_eq initial_page_eq)
  show ?thesis using place_other_container_counts[OF h] m by simp
qed

text \<open>Witnesses of the run properties of Runs.\<close>

theorem round_trips_never_charged_witness:
  "selectedStick moved_page = None \<and> level_at (currentLevel moved_page) = Some (levels ! 0) \<and>
   parent_of moved_page 1 = parent_of moved_page 0 \<and> parent_of moved_page 1 = Some (ContainerRef 2) \<and>
   ''digit-container'' \<notin> set (stick_classes moved_page 1) \<and>
   ''operator-container'' \<notin> set (stick_classes moved_page 1) \<and>
   ''selected'' \<notin> set (stick_classes moved_page 0) \<and>
   movesMadeThisLevel (run (concat (replicate 3 [StickClick 0, StickClick 1])) moved_page) = 1 \<and>
   sticks (run (concat (replicate 3 [StickClick 0, StickClick 1])) moved_page) = sticks moved_page"
proof -
  have h: "selectedStick moved_page = None" "level_at (currentLevel moved_page) = Some (levels ! 0)"
    "parent_of moved_page 1 = parent_of moved_page 0" "parent_of moved_page 1 = Some (ContainerRef 2)"
    "''digit-container'' \<notin> set (stick_classes moved_page 1)"
    "''operator-container'' \<notin> set (stick_classes moved_page 1)"
    "''selected'' \<notin> set (stick_classes moved_page 0)"
    by (simp_all add: moved_page_eq initial_page_eq parent_of_def stick_classes_def)
  have m: "movesMadeThisLevel moved_page = 1" by (simp add: moved_page_eq)
  show ?thesis using h m Runs.round_trips_never_charged[OF h, of 3] by simp
qed

theorem double_check_skips_level_witness:
  "currentLevel solved_board_page = 0 \<and> movesMadeThisLevel solved_board_page \<le> 2 \<and>
   map c_char (puzzleArea solved_board_page) = [''1'', ''+'', ''1'', ''='', ''2''] \<and>
   currentLevel (run [CheckClick, TimerFires] solved_board_page) = 1 \<and>
   currentLevel (run [CheckClick, CheckClick, TimerFires, TimerFires] solved_board_page) = 2 \<and>
   pending_timers (run [CheckClick, CheckClick, TimerFires, TimerFires] solved_board_page) = 0"
proof -
  have h: "currentLevel solved_board_page = 0" "movesMadeThisLevel solved_board_page \<le> 2"
    "map c_char (puzzleArea solved_board_page) = [''1'', ''+'', ''1'', ''='', ''2'']"
    by (simp_all add: solved_board_page_def initial_page_eq)
  have p: "pending_timers solved_board_page = 0" by (simp add: solved_board_page_def initial_page_eq)
  show ?thesis using h p Runs.double_check_skips_level[OF h] by simp
qed

theorem completing_last_level_breaks_listeners_witness:
  "currentLevel (initial_page\<lparr>currentLevel := 2, pending_timers := 1\<rparr>) = 2 \<and>
   currentLevel (js_state (advanceLevel (initial_page\<lparr>currentLevel := 2, pending_timers := 1\<rparr>))) = 3 \<and>
   feedbackMessage (js_state (advanceLevel (initial_page\<lparr>currentLevel := 2, pending_timers := 1\<rparr>))) =
     ''You completed all levels!'' \<and>
   isl (checkClick (js_state (advanceLevel (initial_page\<lparr>currentLevel := 2, pending_timers := 1\<rparr>)))) \<and>
   isl (hintClick (js_state (advanceLevel (initial_page\<lparr>currentLevel := 2, pending_timers := 1\<rparr>)))) \<and>
   isl (resetClick (js_state (advanceLevel (initial_page\<lparr>currentLevel := 2, pending_timers := 1\<rparr>)))) \<and>
   isl (handleStickClick 0 (js_state (advanceLevel (initial_page\<lparr>currentLevel := 2, pending_timers := 1\<rparr>))))"
  using Runs.completing_last_level_breaks_listeners[of "initial_page\<lparr>currentLevel := 2, pending_timers := 1\<rparr>" 0]
  by simp

theorem reachable_at_most_one_move_witness:
  "reachable moved_page \<and> movesMadeThisLevel moved_page = 1 \<and> movesMadeThisLevel moved_page \<le> 1"
  using moved_page_reachable Ledger.reachable_at_most_one_move[OF moved_page_reachable]
  by (simp add: moved_page_eq)

theorem reachable_selection_never_refused_witness:
  "reachable moved_page \<and> selectedStick moved_page = None \<and> on_board moved_page 0 \<and>
   (\<exists>s'. handleStickClick 0 moved_page = Inr s' \<and> selectedStick s' = Some 0 \<and>
     feedbackMessage s' = feedbackMessage moved_page)"
proof -
  have h: "selectedStick moved_page = None" "on_board moved_page 0"
    by (simp_all add: moved_page_eq initial_page_eq on_board_def container_ids_def)
  show ?thesis
    using moved_page_reachable h Ledger.reachable_selection_never_refused[OF moved_page_reachable h]
    by blast
qed

theorem reachable_two_sticks_on_board_witness:
  "reachable moved_page \<and> board_sticks moved_page = [0, 1] \<and> length (board_sticks moved_page) = 2"
proof -
  have "board_sticks moved_page = [0, 1]"
    by (simp add: board_sticks_def moved_page_eq initial_page_eq on_board_def container_ids_def
        numeral_2_eq_2 upt_rec)
  then show ?thesis
    using moved_page_reachable Ledger.reachable_two_sticks_on_board[OF moved_page_reachable] by simp
qed

theorem reachable_no_stick_under_stick_witness:
  "reachable moved_page \<and> stick_ancestors (Suc 0) moved_page 0 = Some []"
  using moved_page_reachable Progress.reachable_no_stick_under_stick[OF moved_page_reachable, of 0]
  by simp

theorem reachable_can_always_count_a_move_witness:
  "reachable initial_page \<and> length (sticks initial_page) = 2 \<and>
   reachable (run [ResetClick, StickClick 2, StickClick 3] initial_page) \<and>
   movesMadeThisLevel (run [ResetClick, StickClick 2, StickClick 3] initial_page) = 1"
proof -
  have l: "length (sticks initial_page) = 2" by (simp add: initial_page_eq)
  show ?thesis
    using reachable.loaded Progress.reachable_can_always_count_a_move[OF reachable.loaded] l
    by (simp add: numeral_eq_Suc)
qed


end
